(* ===== verification/Prelude.thy ===== *)
theory Prelude
  imports Main "HOL-Library.Word" "HOL-Library.Monad_Syntax"
begin

text \<open>
  What the components share: the names of the C integer types, the byte order of the
  AVR (little endian) as encode/decode pairs, the C library's string functions the
  sources call, and generic lemmas on lists and words. The firmware is compiled with
  avr-gcc and \<open>-funsigned-char\<close> (CMakeLists.txt), so a C \<open>char\<close> is an unsigned
  byte and \<open>int\<close> has 16 bits; both matter to the code and are kept.
\<close>

unbundle bit_operations_syntax

type_synonym u8 = "8 word"
type_synonym u16 = "16 word"
type_synonym u32 = "32 word"
type_synonym u64 = "64 word"

named_theorems le_simps \<open>encode/decode laws of little-endian values\<close>

section \<open>Words\<close>

lemma unat_u8_less [simp]: "unat (x :: u8) < 256"
  using unsigned_less [of x] by simp

lemma unat_u16_less [simp]: "unat (x :: u16) < 65536"
  using unsigned_less [of x] by simp

lemma unat_u32_less [simp]: "unat (x :: u32) < 4294967296"
  using unsigned_less [of x] by simp

lemma unat_add_lt: "unat (a :: 'a :: len word) + unat b < 2 ^ LENGTH('a) \<Longrightarrow> unat (a + b) = unat a + unat b"
  by (simp add: unat_word_ariths)

lemma bit_u8_high [simp]: "8 \<le> n \<Longrightarrow> \<not> bit (x :: u8) n"
  using bit_imp_le_length [of x n] by auto

lemma unat_ucast_16_32 [simp]: "unat (ucast (w :: u16) :: u32) = unat w"
  by (simp add: unsigned_ucast_eq, rule take_bit_nat_eq_self, rule order.strict_trans [OF unat_u16_less]) simp

lemma unat_ucast_32_16: "unat (w :: u32) < 65536 \<Longrightarrow> unat (ucast w :: u16) = unat w"
  by (simp add: unsigned_ucast_eq take_bit_nat_eq_self)

lemma unat_of_nat_u32: "j < 2 ^ 32 \<Longrightarrow> unat (of_nat j :: u32) = j"
  by (simp add: unsigned_of_nat take_bit_eq_mod)

section \<open>Little-endian values in memory\<close>

definition le16 :: "u8 \<Rightarrow> u8 \<Rightarrow> u16" where
  "le16 a b = ucast a OR push_bit 8 (ucast b)"

definition le32 :: "u8 \<Rightarrow> u8 \<Rightarrow> u8 \<Rightarrow> u8 \<Rightarrow> u32" where
  "le32 a b c d = ucast a OR push_bit 8 (ucast b) OR push_bit 16 (ucast c) OR push_bit 24 (ucast d)"

definition bytes16 :: "u16 \<Rightarrow> u8 list" where
  "bytes16 w = [ucast w, ucast (drop_bit 8 w)]"

definition bytes32 :: "u32 \<Rightarrow> u8 list" where
  "bytes32 w = [ucast w, ucast (drop_bit 8 w), ucast (drop_bit 16 w), ucast (drop_bit 24 w)]"

lemma length_bytes16 [simp]: "length (bytes16 w) = 2"
  by (simp add: bytes16_def)

lemma length_bytes32 [simp]: "length (bytes32 w) = 4"
  by (simp add: bytes32_def)

lemma le16_bytes [le_simps]: "le16 (ucast w) (ucast (drop_bit 8 w)) = w"
  unfolding le16_def by (rule bit_word_eqI) (auto simp: bit_simps)

lemma le32_bytes [le_simps]:
  "le32 (ucast w) (ucast (drop_bit 8 w)) (ucast (drop_bit 16 w)) (ucast (drop_bit 24 w)) = w"
proof (unfold le32_def, rule bit_word_eqI)
  fix n assume "n < LENGTH(32)"
  then consider "n < 8" | "8 \<le> n" "n < 16" | "16 \<le> n" "n < 24" | "24 \<le> n" "n < 32"
    by fastforce
  then show "bit (ucast (ucast w :: u8) OR push_bit 8 (ucast (ucast (drop_bit 8 w) :: u8)) OR
      push_bit 16 (ucast (ucast (drop_bit 16 w) :: u8)) OR
      push_bit 24 (ucast (ucast (drop_bit 24 w) :: u8) :: u32)) n = bit w n"
    by cases (auto simp: bit_simps)
qed

lemma bytes16_le16 [le_simps]: "bytes16 (le16 a b) = [a, b]"
  unfolding bytes16_def le16_def
  by (auto intro!: bit_word_eqI simp: bit_simps)

lemma bytes32_le32 [le_simps]: "bytes32 (le32 a b c d) = [a, b, c, d]"
  unfolding bytes32_def le32_def
  by (auto intro!: bit_word_eqI simp: bit_simps)

section \<open>What a computation returns\<close>

text \<open>A computation that may not return, as an option: \<open>Q\<close> holds of what it returns, if it does. The
  rewrite rules take a computation apart at its binds, and \<open>returnsI\<close> puts in what is known of a part.\<close>

definition returns :: "('a \<Rightarrow> bool) \<Rightarrow> 'a option \<Rightarrow> bool" where
  "returns Q r \<longleftrightarrow> (\<forall>x. r = Some x \<longrightarrow> Q x)"

lemma returns_simps [simp]:
  "returns Q None" "returns Q (Some x) = Q x" "returns Q (r \<bind> f) = returns (\<lambda>x. returns Q (f x)) r"
  by (auto simp: returns_def bind_eq_Some_conv)

lemma returns_split: "returns Q (case x of (a, b) \<Rightarrow> f a b) = (case x of (a, b) \<Rightarrow> returns Q (f a b))"
  by (simp split: prod.split)

lemma returnsI: "\<lbrakk>returns P r; \<And>x. P x \<Longrightarrow> Q x\<rbrakk> \<Longrightarrow> returns Q r"
  by (auto simp: returns_def)

lemma returnsD: "\<lbrakk>returns Q r; r = Some x\<rbrakk> \<Longrightarrow> Q x"
  by (simp add: returns_def)

lemma returns_any: "returns (\<lambda>_. True) r"
  by (simp add: returns_def)

end
