(* ===== verification/Fifo.thy ===== *)
theory Fifo
  imports Prelude
begin

text \<open>
  src/fifo.c: the statically allocated byte queue between the UART receive interrupt
  and the ELM327 driver. \<open>fifo_t\<close> is the struct, one definition per C function; a
  \<open>char\<close> result is an unsigned byte, so the code's \<open>-1\<close> is 255 and its
  \<open>< 0\<close> tests are \<open>char_neg\<close>. The interface the clients rely on is the locale
  \<open>byte_queue\<close>; it is interpreted on the definitions at the end.
\<close>

section \<open>The struct and the operations\<close>

datatype fifo_status = FIFO_FULL | FIFO_EMPTY | FIFO_READY

record fifo_t =
  f_buf :: "u8 list"
  f_head :: u8
  f_tail :: u8
  f_status :: fifo_status

definition FIFO_SIZE :: u8 where "FIFO_SIZE = 64"

text \<open>\<open>initialize_fifo\<close> leaves the buffer contents as they are.\<close>

definition initialize_fifo :: "fifo_t \<Rightarrow> fifo_t" where
  "initialize_fifo f = f\<lparr>f_head := 0, f_tail := 0, f_status := FIFO_EMPTY\<rparr>"

definition fifo_write_byte :: "fifo_t \<Rightarrow> u8 \<Rightarrow> u8 \<times> fifo_t" where
  "fifo_write_byte f byte =
    (if f_status f \<noteq> FIFO_FULL then
       let buf = (f_buf f)[unat (f_head f) := byte];
           h = f_head f + 1;
           h = (if h = FIFO_SIZE then 0 else h);
           st = (if h = f_tail f then FIFO_FULL else FIFO_READY)
       in (0, f\<lparr>f_buf := buf, f_head := h, f_status := st\<rparr>)
     else (- 1, f))"

text \<open>The byte is returned through a reference: the last value of \<open>*byte\<close> is an argument.\<close>

definition fifo_read_byte :: "fifo_t \<Rightarrow> u8 \<Rightarrow> u8 \<times> u8 \<times> fifo_t" where
  "fifo_read_byte f byte =
    (if f_status f \<noteq> FIFO_EMPTY then
       let byte = f_buf f ! unat (f_tail f);
           t = f_tail f + 1;
           t = (if t = FIFO_SIZE then 0 else t);
           st = (if t = f_head f then FIFO_EMPTY else f_status f)
       in (0, byte, f\<lparr>f_tail := t, f_status := st\<rparr>)
     else (- 1, byte, f))"

text \<open>The test \<open>c < 0\<close> of a \<open>char\<close>, which is unsigned in this build.\<close>

definition char_neg :: "u8 \<Rightarrow> bool" where
  "char_neg c \<longleftrightarrow> uint c < 0"

fun fifo_writen :: "fifo_t \<Rightarrow> u8 list \<Rightarrow> u8 \<times> fifo_t" where
  "fifo_writen f [] = (0, f)"
| "fifo_writen f (b # bs) =
     (let (r, f) = fifo_write_byte f b
      in if char_neg r then (- 1, f) else fifo_writen f bs)"

fun fifo_readn :: "fifo_t \<Rightarrow> u8 list \<Rightarrow> u8 \<times> u8 list \<times> fifo_t" where
  "fifo_readn f [] = (0, [], f)"
| "fifo_readn f (b # bs) =
     (let (r, b, f) = fifo_read_byte f b
      in if char_neg r then (- 1, b # bs, f)
         else let (r, bs, f) = fifo_readn f bs in (r, b # bs, f))"

lemma char_neg_False [simp]: "\<not> char_neg c"
  by (simp add: char_neg_def)

section \<open>Invariant and abstraction\<close>

definition fifo_wf :: "fifo_t \<Rightarrow> bool" where
  "fifo_wf f \<longleftrightarrow> length (f_buf f) = 64 \<and> f_head f < 64 \<and> f_tail f < 64 \<and>
     (f_status f = FIFO_EMPTY \<longrightarrow> f_head f = f_tail f) \<and>
     (f_status f = FIFO_READY \<longrightarrow> f_head f \<noteq> f_tail f)"

definition fifo_count :: "fifo_t \<Rightarrow> nat" where
  "fifo_count f =
     (if f_status f = FIFO_EMPTY then 0
      else if f_head f = f_tail f then 64
      else (unat (f_head f) + 64 - unat (f_tail f)) mod 64)"

definition fifo_list :: "fifo_t \<Rightarrow> u8 list" where
  "fifo_list f = map (\<lambda>i. f_buf f ! ((unat (f_tail f) + i) mod 64)) [0..<fifo_count f]"

definition fifo_accepts :: "fifo_t \<Rightarrow> bool" where
  "fifo_accepts f \<longleftrightarrow> f_status f \<noteq> FIFO_FULL"

definition fifo_is_empty :: "fifo_t \<Rightarrow> bool" where
  "fifo_is_empty f \<longleftrightarrow> f_status f = FIFO_EMPTY"

lemma length_fifo_list [simp]: "length (fifo_list f) = fifo_count f"
  by (simp add: fifo_list_def)

lemma fifo_list_nth: "i < fifo_count f \<Longrightarrow> fifo_list f ! i = f_buf f ! ((unat (f_tail f) + i) mod 64)"
  by (simp add: fifo_list_def)

lemma next_index: "h < 64 \<Longrightarrow> unat (if h + 1 = FIFO_SIZE then 0 else h + 1) = (unat h + 1) mod 64"
  for h :: u8
proof -
  assume "h < 64"
  then have lt: "unat h < 64" by (simp add: word_less_nat_alt)
  then have u: "unat (h + 1) = unat h + 1"
    by (subst unat_add_lt) auto
  then have "h + 1 = 64 \<longleftrightarrow> unat h + 1 = 64"
    by (simp add: word_unat_eq_iff)
  with u lt show ?thesis
    by (cases "unat h + 1 = 64") (auto simp: FIFO_SIZE_def)
qed

lemma u8_lt_64: "(h :: u8) < 64 \<longleftrightarrow> unat h < 64"
  by (simp add: word_less_nat_alt)

lemma next_index_lt: "h < 64 \<Longrightarrow> (if h + 1 = FIFO_SIZE then 0 else h + 1 :: u8) < 64"
  by (simp only: u8_lt_64 next_index mod_less_divisor)

text \<open>Index arithmetic on the ring, in natural numbers.\<close>

lemma mod64_if: "x < 128 \<Longrightarrow> x mod 64 = (if x < 64 then x else x - 64)" for x :: nat
  by (simp add: mod_if)

lemma ring_count_enq:
  "\<lbrakk>h < 64; t < 64; h \<noteq> t\<rbrakk> \<Longrightarrow> (h + 64 - t) mod 64 < 64 \<and> 0 < (h + 64 - t) mod 64 \<and>
     (if (h + 1) mod 64 = t then 64 else ((h + 1) mod 64 + 64 - t) mod 64) = Suc ((h + 64 - t) mod 64)"
  for h t :: nat
  by (auto simp: mod64_if split: if_splits)

lemma ring_pos_enq: "\<lbrakk>h < 64; t < 64\<rbrakk> \<Longrightarrow> (t + (h + 64 - t) mod 64) mod 64 = h" for h t :: nat
  by (auto simp: mod64_if)

lemma ring_pos_other:
  "\<lbrakk>h < 64; t < 64; i < (h + 64 - t) mod 64\<rbrakk> \<Longrightarrow> (t + i) mod 64 \<noteq> h" for h t i :: nat
  by (auto simp: mod64_if split: if_splits)

lemma ring_count_deq:
  "\<lbrakk>h < 64; t < 64; h \<noteq> t\<rbrakk> \<Longrightarrow>
     (if (t + 1) mod 64 = h then 0 else (h + 64 - (t + 1) mod 64) mod 64) = (h + 64 - t) mod 64 - 1"
  for h t :: nat
  by (auto simp: mod64_if split: if_splits)

lemma ring_count_deq_full:
  "t < 64 \<Longrightarrow> (t + 1) mod 64 \<noteq> t \<and> (t + 64 - (t + 1) mod 64) mod 64 = 63"
  for t :: nat
  by (auto simp: mod64_if)

lemma ring_shift: "(((t + 1) mod 64) + i) mod 64 = (t + Suc i) mod 64" for t i :: nat
  by (simp add: mod_add_left_eq)

section \<open>Each operation against the abstraction\<close>

lemma fifo_wf_bounds: "fifo_wf f \<Longrightarrow> unat (f_head f) < 64 \<and> unat (f_tail f) < 64 \<and> length (f_buf f) = 64"
  by (simp add: fifo_wf_def u8_lt_64)

lemma fifo_count_le: "fifo_wf f \<Longrightarrow> fifo_count f \<le> 64"
  by (simp add: fifo_count_def order_less_imp_le)

lemma fifo_empty_iff: "fifo_wf f \<Longrightarrow> fifo_is_empty f \<longleftrightarrow> fifo_list f = []"
proof -
  assume wf: "fifo_wf f"
  have "f_head f \<noteq> f_tail f \<Longrightarrow> 0 < (unat (f_head f) + 64 - unat (f_tail f)) mod 64"
    using ring_count_enq fifo_wf_bounds [OF wf] by (metis word_unat_eq_iff)
  with wf have "fifo_is_empty f \<longleftrightarrow> fifo_count f = 0"
    by (auto simp: fifo_is_empty_def fifo_count_def)
  then show ?thesis by (metis length_fifo_list length_0_conv)
qed

lemma fifo_init_wf: "length (f_buf f) = 64 \<Longrightarrow> fifo_wf (initialize_fifo f)"
  by (simp add: fifo_wf_def initialize_fifo_def)

lemma fifo_init_list: "fifo_list (initialize_fifo f) = []"
  by (simp add: fifo_list_def fifo_count_def initialize_fifo_def)

lemma fifo_write_refused: "\<not> fifo_accepts f \<Longrightarrow> fifo_write_byte f b = (- 1, f)"
  by (simp add: fifo_write_byte_def fifo_accepts_def)

lemma fifo_read_refused: "fifo_is_empty f \<Longrightarrow> fifo_read_byte f b = (- 1, b, f)"
  by (simp add: fifo_read_byte_def fifo_is_empty_def)

lemma fifo_write_wf: "fifo_wf f \<Longrightarrow> fifo_wf (snd (fifo_write_byte f b))"
  using next_index_lt [of "f_head f"]
  by (auto simp: fifo_write_byte_def fifo_wf_def Let_def)

lemma fifo_read_wf: "fifo_wf f \<Longrightarrow> fifo_wf (snd (snd (fifo_read_byte f b)))"
  using next_index_lt [of "f_tail f"]
  by (cases "f_status f") (auto simp: fifo_read_byte_def fifo_wf_def Let_def)

text \<open>The ring seen through natural-number indices.\<close>

lemma fifo_count_nat:
  "fifo_count f = (if f_status f = FIFO_EMPTY then 0 else if unat (f_head f) = unat (f_tail f) then 64
     else (unat (f_head f) + 64 - unat (f_tail f)) mod 64)"
  by (simp add: fifo_count_def word_unat_eq_iff)

lemma fifo_write_count:
  assumes wf: "fifo_wf f" and ok: "fifo_accepts f"
  shows "fifo_count (snd (fifo_write_byte f b)) = Suc (fifo_count f)"
proof -
  let ?h = "unat (f_head f)" and ?t = "unat (f_tail f)"
  have b: "?h < 64" "?t < 64" using fifo_wf_bounds [OF wf] by auto
  have n: "unat (f_head (snd (fifo_write_byte f b))) = (?h + 1) mod 64"
    "f_tail (snd (fifo_write_byte f b)) = f_tail f"
    "f_status (snd (fifo_write_byte f b)) \<noteq> FIFO_EMPTY"
    using ok next_index [of "f_head f"] b
    by (auto simp: fifo_write_byte_def fifo_accepts_def Let_def u8_lt_64)
  show ?thesis
  proof (cases "f_status f")
    case FIFO_FULL
    with ok show ?thesis by (simp add: fifo_accepts_def)
  next
    case FIFO_EMPTY
    with wf have "?h = ?t" by (simp add: fifo_wf_def)
    with n b FIFO_EMPTY show ?thesis
      by (auto simp: fifo_count_nat mod64_if split: if_splits)
  next
    case FIFO_READY
    with wf have "?h \<noteq> ?t" by (simp add: fifo_wf_def word_unat_eq_iff)
    with n b FIFO_READY ring_count_enq [OF b] show ?thesis
      by (auto simp: fifo_count_nat split: if_splits)
  qed
qed

lemma fifo_write_list:
  assumes wf: "fifo_wf f" and ok: "fifo_accepts f"
  shows "fifo_list (snd (fifo_write_byte f b)) = fifo_list f @ [b]"
proof (rule nth_equalityI)
  show "length (fifo_list (snd (fifo_write_byte f b))) = length (fifo_list f @ [b])"
    using fifo_write_count [OF assms] by simp
next
  fix i assume "i < length (fifo_list (snd (fifo_write_byte f b)))"
  then have i: "i < Suc (fifo_count f)" using fifo_write_count [OF assms] by simp
  let ?h = "unat (f_head f)" and ?t = "unat (f_tail f)"
  have bd: "?h < 64" "?t < 64" "length (f_buf f) = 64" using fifo_wf_bounds [OF wf] by auto
  have buf: "f_buf (snd (fifo_write_byte f b)) = (f_buf f)[?h := b]"
    "f_tail (snd (fifo_write_byte f b)) = f_tail f"
    using ok by (auto simp: fifo_write_byte_def fifo_accepts_def Let_def)
  have cnt: "fifo_count f = (?h + 64 - ?t) mod 64"
    using wf ok by (cases "f_status f") (auto simp: fifo_count_nat fifo_wf_def fifo_accepts_def word_unat_eq_iff)
  show "fifo_list (snd (fifo_write_byte f b)) ! i = (fifo_list f @ [b]) ! i"
  proof (cases "i < fifo_count f")
    case True
    with cnt have "(?t + i) mod 64 \<noteq> ?h" using ring_pos_other [OF bd(1,2)] by simp
    with True i buf bd fifo_write_count [OF assms] show ?thesis
      by (simp add: fifo_list_nth nth_append)
  next
    case False
    with i have "i = fifo_count f" by simp
    with cnt ring_pos_enq [OF bd(1,2)] buf bd fifo_write_count [OF assms] show ?thesis
      by (simp add: fifo_list_nth nth_append)
  qed
qed

lemma fifo_write_accepts:
  assumes wf: "fifo_wf f" and ok: "fifo_accepts f"
  shows "fifo_accepts (snd (fifo_write_byte f b)) \<longleftrightarrow> fifo_count (snd (fifo_write_byte f b)) < 64"
proof -
  let ?f = "snd (fifo_write_byte f b)"
  have st: "f_status ?f = (if f_head ?f = f_tail ?f then FIFO_FULL else FIFO_READY)"
    using ok by (auto simp: fifo_write_byte_def fifo_accepts_def Let_def)
  then show ?thesis
    by (auto simp: fifo_accepts_def fifo_count_def)
qed

lemma fifo_read_count:
  assumes wf: "fifo_wf f" and ne: "\<not> fifo_is_empty f"
  shows "Suc (fifo_count (snd (snd (fifo_read_byte f b)))) = fifo_count f"
proof -
  let ?f = "snd (snd (fifo_read_byte f b))"
  let ?h = "unat (f_head f)" and ?t = "unat (f_tail f)"
  have bd: "?h < 64" "?t < 64" using fifo_wf_bounds [OF wf] by auto
  have n: "unat (f_tail ?f) = (?t + 1) mod 64" "f_head ?f = f_head f"
    "f_status ?f = (if unat (f_tail ?f) = ?h then FIFO_EMPTY else f_status f)"
    using ne next_index [of "f_tail f"] bd
    by (auto simp: fifo_read_byte_def fifo_is_empty_def Let_def u8_lt_64 word_unat_eq_iff)
  have ne': "f_status f \<noteq> FIFO_EMPTY" using ne by (simp add: fifo_is_empty_def)
  show ?thesis
  proof (cases "?h = ?t")
    case True
    with n ne' bd ring_count_deq_full [OF bd(2)] show ?thesis
      by (auto simp: fifo_count_nat split: if_splits)
  next
    case False
    with n ne' bd ring_count_deq [OF bd] ring_count_enq [OF bd] show ?thesis
      by (auto simp: fifo_count_nat split: if_splits)
  qed
qed

lemma fifo_read_list:
  assumes wf: "fifo_wf f" and ne: "\<not> fifo_is_empty f"
  shows "fifo_list f = fst (snd (fifo_read_byte f b)) # fifo_list (snd (snd (fifo_read_byte f b)))"
proof (rule nth_equalityI)
  note cnt = fifo_read_count [OF assms, of b]
  let ?f = "snd (snd (fifo_read_byte f b))"
  let ?t = "unat (f_tail f)"
  show "length (fifo_list f) = length (fst (snd (fifo_read_byte f b)) # fifo_list ?f)"
    using cnt by simp
  fix i assume "i < length (fifo_list f)"
  then have i: "i < Suc (fifo_count ?f)" using cnt by simp
  have bd: "?t < 64" using fifo_wf_bounds [OF wf] by auto
  have r: "fst (snd (fifo_read_byte f b)) = f_buf f ! ?t" "f_buf ?f = f_buf f"
    "unat (f_tail ?f) = (?t + 1) mod 64"
    using ne next_index [of "f_tail f"] bd
    by (auto simp: fifo_read_byte_def fifo_is_empty_def Let_def u8_lt_64)
  show "fifo_list f ! i = (fst (snd (fifo_read_byte f b)) # fifo_list ?f) ! i"
  proof (cases i)
    case 0
    with r bd i cnt show ?thesis by (simp add: fifo_list_nth)
  next
    case (Suc j)
    with r i cnt ring_shift [of ?t j] show ?thesis by (simp add: fifo_list_nth)
  qed
qed

lemma fifo_read_ret: "\<not> fifo_is_empty f \<Longrightarrow> fst (fifo_read_byte f b) = 0"
  by (simp add: fifo_read_byte_def fifo_is_empty_def Let_def)

lemma fifo_read_accepts:
  assumes wf: "fifo_wf f" and ne: "\<not> fifo_is_empty f"
  shows "fifo_accepts (snd (snd (fifo_read_byte f b))) \<longleftrightarrow>
    fifo_accepts f \<or> fifo_list (snd (snd (fifo_read_byte f b))) = []"
proof -
  let ?f = "snd (snd (fifo_read_byte f b))"
  have "f_status ?f = FIFO_EMPTY \<or> f_status ?f = f_status f"
    using ne by (auto simp: fifo_read_byte_def fifo_is_empty_def Let_def)
  moreover have "fifo_list ?f = [] \<longleftrightarrow> f_status ?f = FIFO_EMPTY"
    using fifo_empty_iff [OF fifo_read_wf [OF wf]] by (auto simp: fifo_is_empty_def)
  ultimately show ?thesis by (auto simp: fifo_accepts_def)
qed

section \<open>The interface\<close>

text \<open>
  What the ELM327 driver and the interrupt handler rely on: a byte queue of bounded
  capacity. A queue that does not accept refuses a byte and stays as it is; it accepts
  again once it has been emptied (and not before: see \<open>full_is_sticky\<close>).
\<close>

locale byte_queue =
  fixes enq :: "'q \<Rightarrow> u8 \<Rightarrow> u8 \<times> 'q"
    and deq :: "'q \<Rightarrow> u8 \<Rightarrow> u8 \<times> u8 \<times> 'q"
    and is_empty :: "'q \<Rightarrow> bool"
    and accepts :: "'q \<Rightarrow> bool"
    and lst :: "'q \<Rightarrow> u8 list"
    and inv :: "'q \<Rightarrow> bool"
    and cap :: nat
  assumes inv_enq: "inv q \<Longrightarrow> inv (snd (enq q x))"
    and inv_deq: "inv q \<Longrightarrow> inv (snd (snd (deq q x)))"
    and empty_iff: "inv q \<Longrightarrow> is_empty q \<longleftrightarrow> lst q = []"
    and bounded: "inv q \<Longrightarrow> length (lst q) \<le> cap"
    and enq_ret: "accepts q \<Longrightarrow> fst (enq q x) = 0"
    and enq_list: "inv q \<Longrightarrow> accepts q \<Longrightarrow> lst (snd (enq q x)) = lst q @ [x]"
    and room: "inv q \<Longrightarrow> accepts q \<Longrightarrow> length (lst q) < cap"
    and enq_accepts: "inv q \<Longrightarrow> accepts q \<Longrightarrow> accepts (snd (enq q x)) \<longleftrightarrow> length (lst (snd (enq q x))) < cap"
    and enq_refused: "\<not> accepts q \<Longrightarrow> enq q x = (- 1, q)"
    and deq_list: "inv q \<Longrightarrow> \<not> is_empty q \<Longrightarrow> lst q = fst (snd (deq q x)) # lst (snd (snd (deq q x)))"
    and deq_ret: "\<not> is_empty q \<Longrightarrow> fst (deq q x) = 0"
    and deq_accepts: "inv q \<Longrightarrow> \<not> is_empty q \<Longrightarrow>
      accepts (snd (snd (deq q x))) \<longleftrightarrow> accepts q \<or> lst (snd (snd (deq q x))) = []"
    and deq_refused: "is_empty q \<Longrightarrow> deq q x = (- 1, x, q)"
begin

definition feed :: "'q \<Rightarrow> u8 list \<Rightarrow> 'q" where
  "feed q xs = foldl (\<lambda>q x. snd (enq q x)) q xs"

lemma feed_simps [simp]: "feed q [] = q" "feed q (x # xs) = feed (snd (enq q x)) xs"
  by (simp_all add: feed_def)

lemma feed_append: "feed q (xs @ ys) = feed (feed q xs) ys"
  by (simp add: feed_def)

lemma inv_feed: "inv q \<Longrightarrow> inv (feed q xs)"
  by (induction xs arbitrary: q) (auto simp: inv_enq)

lemma feed_refused: "\<not> accepts q \<Longrightarrow> feed q xs = q"
  by (induction xs) (auto simp: enq_refused)

text \<open>Bytes that do not fit are dropped from the end of the input.\<close>

lemma feed_list:
  "inv q \<Longrightarrow> accepts q \<Longrightarrow>
     lst (feed q xs) = lst q @ take (cap - length (lst q)) xs"
proof (induction xs arbitrary: q)
  case (Cons x xs)
  let ?q = "snd (enq q x)"
  have l: "lst ?q = lst q @ [x]" using Cons.prems by (simp add: enq_list)
  have r: "length (lst q) < cap" using Cons.prems by (rule room)
  show ?case
  proof (cases "accepts ?q")
    case True
    then have "lst (feed ?q xs) = lst ?q @ take (cap - length (lst ?q)) xs"
      by (intro Cons.IH) (auto simp: inv_enq Cons.prems)
    with l r show ?thesis by (simp add: take_Cons' Suc_diff_Suc)
  next
    case False
    then have "cap \<le> Suc (length (lst q))" using Cons.prems l by (simp add: enq_accepts)
    with r have "cap - length (lst q) = 1" by simp
    with False l show ?thesis by (simp add: feed_refused)
  qed
qed simp

lemma feed_fits:
  "inv q \<Longrightarrow> accepts q \<Longrightarrow> length (lst q) + length xs < cap \<Longrightarrow>
     lst (feed q xs) = lst q @ xs \<and> accepts (feed q xs)"
proof (induction xs arbitrary: q)
  case (Cons x xs)
  then show ?case using Cons.IH [of "snd (enq q x)"]
    by (simp add: enq_list enq_accepts inv_enq)
qed simp

definition drain :: "nat \<Rightarrow> 'q \<Rightarrow> 'q" where
  "drain k q = ((\<lambda>q. snd (snd (deq q 0))) ^^ k) q"

lemma drain_Suc: "drain (Suc k) q = snd (snd (deq (drain k q) 0))"
  by (simp add: drain_def)

lemma drain_list: "inv q \<Longrightarrow> inv (drain k q) \<and> lst (drain k q) = drop k (lst q)"
proof (induction k)
  case (Suc k)
  show ?case
  proof (cases "is_empty (drain k q)")
    case True
    with Suc show ?thesis
      by (metis deq_refused drain_Suc drop_Nil drop_Suc empty_iff snd_conv tl_drop)
  next
    case False
    with Suc deq_list [of "drain k q" 0] have "lst (drain (Suc k) q) = tl (drop k (lst q))"
      by (metis drain_Suc list.sel(3))
    with Suc show ?thesis by (simp add: drain_Suc inv_deq drop_Suc tl_drop)
  qed
qed (simp add: drain_def)

text \<open>A queue that refuses goes on refusing until it has been read empty.\<close>

lemma drain_refuses:
  "inv q \<Longrightarrow> \<not> accepts q \<Longrightarrow> k < length (lst q) \<Longrightarrow> \<not> accepts (drain k q)"
proof (induction k)
  case (Suc k)
  then have d: "inv (drain k q)" "lst (drain k q) = drop k (lst q)" "\<not> accepts (drain k q)"
    "lst (drain (Suc k) q) = drop (Suc k) (lst q)"
    by (simp_all add: drain_list)
  then have "\<not> is_empty (drain k q)" using Suc.prems by (simp add: empty_iff)
  with d Suc.prems show ?case by (simp add: drain_Suc deq_accepts)
qed (simp add: drain_def)

end

lemma fifo_room: "fifo_wf f \<Longrightarrow> fifo_accepts f \<Longrightarrow> fifo_count f < 64"
  by (cases "f_status f") (auto simp: fifo_count_def fifo_accepts_def fifo_wf_def)

lemma fifo_write_ret: "fifo_accepts f \<Longrightarrow> fst (fifo_write_byte f b) = 0"
  by (simp add: fifo_write_byte_def fifo_accepts_def Let_def)

interpretation fifo_q: byte_queue fifo_write_byte fifo_read_byte fifo_is_empty fifo_accepts fifo_list fifo_wf 64
  by unfold_locales
    (simp_all add: fifo_write_wf fifo_read_wf fifo_empty_iff fifo_count_le fifo_write_list
      fifo_write_accepts fifo_write_refused fifo_read_refused fifo_read_list [symmetric]
      fifo_read_ret fifo_read_accepts fifo_write_ret fifo_room fifo_write_count del: One_nat_def)

section \<open>The string operations\<close>

lemma fifo_writen_feed: "fifo_writen f bs = (0, fifo_q.feed f bs)"
  by (induction bs arbitrary: f) (auto simp: split_def)

lemma fifo_readn_list:
  "fifo_wf f \<Longrightarrow> length (fifo_list f) = length bs \<Longrightarrow>
     \<exists>f'. fifo_readn f bs = (0, fifo_list f, f') \<and> fifo_wf f' \<and> fifo_list f' = []"
proof (induction bs arbitrary: f)
  case (Cons b bs)
  let ?f = "snd (snd (fifo_read_byte f b))"
  have ne: "\<not> fifo_is_empty f" using Cons.prems fifo_empty_iff [of f] by (metis Zero_neq_Suc length_Cons list.size(3))
  note l = fifo_read_list [OF Cons.prems(1) ne, of b]
  have "length (fifo_list ?f) = length bs"
    using l Cons.prems(2) by (metis length_Cons nat.inject)
  then obtain f' where "fifo_readn ?f bs = (0, fifo_list ?f, f')" "fifo_wf f'" "fifo_list f' = []"
    using Cons.IH [OF fifo_read_wf [OF Cons.prems(1)]] by blast
  with l fifo_read_ret [OF ne, of b] show ?case by (auto simp: split_def Let_def)
qed (simp del: length_fifo_list)

section \<open>Properties\<close>

text \<open>C18. Writing a byte refines the bounded queue: a queue that accepts gets the byte at
  its end and returns 0, one that does not is unchanged and the call returns -1; the
  invariant of the struct is kept, and the queue stops accepting exactly at 64 bytes.\<close>

theorem fifo_write_refines:
  assumes "fifo_wf f"
  shows "case fifo_write_byte f b of (r, f') \<Rightarrow> fifo_wf f' \<and>
    (if fifo_accepts f
     then r = 0 \<and> fifo_list f' = fifo_list f @ [b] \<and> (fifo_accepts f' \<longleftrightarrow> length (fifo_list f') < 64)
     else r = - 1 \<and> f' = f)"
  using fifo_q.inv_enq [OF assms, of b] fifo_q.enq_list [OF assms, of b] fifo_q.enq_ret [of f b]
    fifo_q.enq_accepts [OF assms, of b] fifo_q.enq_refused [of f b]
  by (cases "fifo_write_byte f b") (simp del: length_fifo_list)

definition fifo_zero :: fifo_t where
  "fifo_zero = initialize_fifo \<lparr>f_buf = replicate 64 0, f_head = 0, f_tail = 0, f_status = FIFO_FULL\<rparr>"

lemma fifo_zero_wf: "fifo_wf fifo_zero"
  by (simp add: fifo_zero_def fifo_init_wf)

lemma fifo_zero_list: "fifo_list fifo_zero = []" "fifo_accepts fifo_zero"
  by (simp add: fifo_zero_def fifo_init_list) (simp add: fifo_zero_def initialize_fifo_def fifo_accepts_def)

theorem fifo_write_refines_witness:
  "fifo_wf fifo_zero \<and> fifo_accepts fifo_zero \<and>
   (case fifo_write_byte fifo_zero 65 of (r, f') \<Rightarrow> r = 0 \<and> fifo_list f' = [65])"
  using fifo_write_refines [OF fifo_zero_wf, of 65] fifo_zero_wf fifo_zero_list by (auto split: prod.splits)

text \<open>C19. Reading a byte refines the bounded queue: from a non-empty queue it returns 0 and
  the oldest byte and removes it, from an empty one it returns -1 and changes neither the
  queue nor the caller's byte.\<close>

theorem fifo_read_refines:
  assumes "fifo_wf f"
  shows "case fifo_read_byte f b of (r, b', f') \<Rightarrow> fifo_wf f' \<and>
    (case fifo_list f of [] \<Rightarrow> r = - 1 \<and> b' = b \<and> f' = f
     | x # xs \<Rightarrow> r = 0 \<and> b' = x \<and> fifo_list f' = xs)"
proof (cases "fifo_is_empty f")
  case True
  with assms show ?thesis
    using fifo_q.deq_refused [OF True, of b] fifo_q.empty_iff [OF assms] by simp
next
  case False
  then show ?thesis
    using fifo_q.deq_list [OF assms False, of b] fifo_q.deq_ret [OF False, of b] fifo_q.inv_deq [OF assms, of b]
    by (cases "fifo_read_byte f b") auto
qed

theorem fifo_read_refines_witness:
  "fifo_list (snd (fifo_write_byte fifo_zero 65)) = [65] \<and>
   fst (snd (fifo_read_byte (snd (fifo_write_byte fifo_zero 65)) 0)) = 65"
  using fifo_read_refines [OF fifo_write_wf [OF fifo_zero_wf, of 65], of 0]
  by (simp add: fifo_write_list fifo_zero_wf fifo_zero_list split: prod.splits)

text \<open>C36. What is written with \<open>fifo_writen\<close> into a freshly initialised queue is read back
  by \<open>fifo_readn\<close> byte for byte, in order, up to the whole capacity, and the queue is empty
  and accepting again.\<close>

theorem fifo_roundtrip:
  assumes "length (f_buf f) = 64" and "length bs \<le> 64" and "length out = length bs"
  shows "\<exists>f1 f2. fifo_writen (initialize_fifo f) bs = (0, f1) \<and> fifo_readn f1 out = (0, bs, f2) \<and>
    fifo_list f2 = [] \<and> fifo_accepts f2"
proof -
  let ?f = "initialize_fifo f"
  have wf: "fifo_wf ?f" and acc: "fifo_accepts ?f" and nil: "fifo_list ?f = []"
    using assms(1) by (simp_all add: fifo_init_wf fifo_init_list) (simp add: fifo_accepts_def initialize_fifo_def)
  have l: "fifo_list (fifo_q.feed ?f bs) = bs"
    using fifo_q.feed_list [OF wf acc, of bs] nil assms(2) by simp
  obtain f2 where f2: "fifo_readn (fifo_q.feed ?f bs) out = (0, bs, f2)" "fifo_wf f2" "fifo_list f2 = []"
    using fifo_readn_list [of "fifo_q.feed ?f bs" out] l assms(3) fifo_q.inv_feed [OF wf] by auto
  then have "fifo_accepts f2"
    using fifo_empty_iff [of f2] by (simp add: fifo_accepts_def fifo_is_empty_def)
  with f2 show ?thesis by (auto simp: fifo_writen_feed)
qed

theorem fifo_roundtrip_witness:
  "\<exists>f1 f2. fifo_writen (initialize_fifo fifo_zero) [1, 2, 3] = (0, f1) \<and>
     fifo_readn f1 [0, 0, 0] = (0, [1, 2, 3], f2) \<and> fifo_list f2 = [] \<and> fifo_accepts f2"
  by (rule fifo_roundtrip) (simp_all add: fifo_zero_def initialize_fifo_def)

text \<open>\<open>fifo_writen\<close> never reports a full queue: \<open>char\<close> is unsigned, so its test
  \<open>< 0\<close> of the byte write's result cannot hold. It always returns 0, and the bytes that do
  not fit are lost.\<close>

theorem fifo_writen_drops_silently:
  assumes "fifo_wf f"
  shows "fst (fifo_writen f bs) = 0 \<and> fifo_list (snd (fifo_writen f bs)) =
    fifo_list f @ (if fifo_accepts f then take (64 - length (fifo_list f)) bs else [])"
  using fifo_q.feed_list [OF assms] fifo_q.feed_refused [of f bs] by (simp add: fifo_writen_feed)

theorem fifo_writen_drops_silently_witness:
  "fst (fifo_writen fifo_zero (replicate 65 7)) = 0 \<and>
   fifo_list (snd (fifo_writen fifo_zero (replicate 65 7))) = replicate 64 7"
  using fifo_writen_drops_silently [OF fifo_zero_wf, of "replicate 65 7"]
  by (simp add: fifo_zero_list del: length_fifo_list)

text \<open>A full queue stays closed until it has been read empty: after \<open>k\<close> reads, for
  any \<open>k\<close> below 64, there are \<open>k\<close> free slots and every write is still refused, because
  \<open>fifo_read_byte\<close> changes the status only when the queue becomes empty.\<close>

theorem full_is_sticky:
  assumes "fifo_wf f" and "\<not> fifo_accepts f" and "length (fifo_list f) = 64" and "k < 64"
  shows "length (fifo_list (((\<lambda>f. snd (snd (fifo_read_byte f 0))) ^^ k) f)) = 64 - k \<and>
    fifo_write_byte (((\<lambda>f. snd (snd (fifo_read_byte f 0))) ^^ k) f) b =
      (- 1, ((\<lambda>f. snd (snd (fifo_read_byte f 0))) ^^ k) f)"
  using fifo_q.drain_list [OF assms(1), of k] fifo_q.drain_refuses [OF assms(1,2), of k] assms(3,4)
    fifo_q.enq_refused
  unfolding fifo_q.drain_def by (metis length_drop)

theorem full_is_sticky_witness:
  "fifo_write_byte (((\<lambda>f. snd (snd (fifo_read_byte f 0))) ^^ 63)
      (fifo_zero\<lparr>f_status := FIFO_FULL\<rparr>)) 1 =
    (- 1, ((\<lambda>f. snd (snd (fifo_read_byte f 0))) ^^ 63) (fifo_zero\<lparr>f_status := FIFO_FULL\<rparr>))"
proof -
  let ?f = "fifo_zero\<lparr>f_status := FIFO_FULL\<rparr>"
  have "fifo_wf ?f" "\<not> fifo_accepts ?f" "length (fifo_list ?f) = 64"
    by (simp_all add: fifo_zero_def initialize_fifo_def fifo_wf_def fifo_accepts_def fifo_count_def)
  from conjunct2 [OF full_is_sticky [OF this, of 63 1]] show ?thesis by simp
qed

end
