(* ===== verification/Utils.thy ===== *)
theory Utils
  imports Prelude
begin

text \<open>
  The computations of src/utils.c and the hexadecimal output of src/uart.c. A function that
  only writes to a serial port is modelled by the bytes it writes, in order.
\<close>

section \<open>src/utils.c\<close>

definition bind_args :: "u8 \<Rightarrow> u8 \<Rightarrow> u8 \<Rightarrow> u8 \<Rightarrow> u32" where
  "bind_args arg0 arg1 arg2 arg3 =
    push_bit 24 (ucast arg0) OR push_bit 16 (ucast arg1) OR push_bit 8 (ucast arg2) OR ucast arg3"

text \<open>The position is counted in 32 bits and returned as an \<open>int8_t\<close>.\<close>

fun byte_in_arr_from :: "u32 \<Rightarrow> u8 \<Rightarrow> u8 list \<Rightarrow> int" where
  "byte_in_arr_from i byte [] = - 1"
| "byte_in_arr_from i byte (ch # buf) =
     (if byte = ch then sint (ucast i :: u8) else byte_in_arr_from (i + 1) byte buf)"

definition byte_in_arr :: "u8 \<Rightarrow> u8 list \<Rightarrow> int" where
  "byte_in_arr byte buf = byte_in_arr_from 0 byte buf"

section \<open>src/uart.c: hexadecimal output\<close>

definition hex_digit :: "u8 \<Rightarrow> u8" where
  "hex_digit n = (if n < 10 then 48 + n else 65 + n - 10)"

definition uart_write_hex :: "u8 \<Rightarrow> u8 list" where
  "uart_write_hex n =
    (let d1 = hex_digit (drop_bit 4 n AND 15);
         n = push_bit 4 n;
         d2 = hex_digit (drop_bit 4 n AND 15)
     in [d1, d2])"

definition uart_write_32 :: "u32 \<Rightarrow> u8 list" where
  "uart_write_32 val = uart_write_hex (ucast (drop_bit 24 val)) @ uart_write_hex (ucast (drop_bit 16 val)) @
     uart_write_hex (ucast (drop_bit 8 val)) @ uart_write_hex (ucast val)"

text \<open>A NUL-terminated string: everything before the first 0.\<close>

definition uart_write_str :: "u8 list \<Rightarrow> u8 list" where
  "uart_write_str buf = takeWhile (\<lambda>b. b \<noteq> 0) buf"

text \<open>
  \<open>uart_write_strn\<close> skips a byte that is not ASCII with \<open>continue\<close>, which skips the
  \<open>buf++\<close> as well: the remaining rounds look at the same byte.
\<close>

fun uart_write_strn :: "u8 list \<Rightarrow> nat \<Rightarrow> u8 list" where
  "uart_write_strn buf 0 = []"
| "uart_write_strn [] (Suc n) = []"
| "uart_write_strn (b # buf) (Suc n) =
     (if \<not> b < 128 then uart_write_strn (b # buf) n else b # uart_write_strn buf n)"

section \<open>Lemmas\<close>

lemma bind_args_le32: "bind_args a b c d = le32 d c b a"
  by (simp add: bind_args_def le32_def ac_simps)

end
