(* ===== verification/C_String.thy ===== *)
theory C_String
  imports Prelude
begin

text \<open>
  NUL-terminated strings in byte buffers and the functions of the C library the OBD and ELM code
  calls on them. A buffer is the list of its bytes; its string is what comes before the first NUL.
\<close>

definition cstr :: "string \<Rightarrow> u8 list" where
  "cstr s = map of_char s"

definition c_str :: "u8 list \<Rightarrow> u8 list" where
  "c_str buf = takeWhile (\<lambda>b. b \<noteq> 0) buf"

definition c_strlen :: "u8 list \<Rightarrow> nat" where
  "c_strlen buf = length (c_str buf)"

text \<open>\<open>strstr\<close>: the position of the first occurrence.\<close>

fun find_sub :: "u8 list \<Rightarrow> u8 list \<Rightarrow> nat option" where
  "find_sub s [] = (if s = [] then Some 0 else None)"
| "find_sub s (h # hs) =
     (if take (length s) (h # hs) = s then Some 0 else map_option Suc (find_sub s hs))"

definition c_strstr :: "u8 list \<Rightarrow> u8 list \<Rightarrow> nat option" where
  "c_strstr hay needle = find_sub needle (c_str hay)"

definition c_isspace :: "u8 \<Rightarrow> bool" where
  "c_isspace b \<longleftrightarrow> b = 32 \<or> 9 \<le> b \<and> b \<le> 13"

definition c_isxdigit :: "u8 \<Rightarrow> bool" where
  "c_isxdigit b \<longleftrightarrow> 48 \<le> b \<and> b \<le> 57 \<or> 65 \<le> b \<and> b \<le> 70 \<or> 97 \<le> b \<and> b \<le> 102"

definition c_isprint :: "u8 \<Rightarrow> bool" where
  "c_isprint b \<longleftrightarrow> 32 \<le> b \<and> b \<le> 126"

definition hex_val :: "u8 \<Rightarrow> int" where
  "hex_val b = (if b \<le> 57 then uint b - 48 else if b \<le> 70 then uint b - 55 else uint b - 87)"

text \<open>\<open>strtol(s, 0, 16)\<close> on strings without a \<open>0x\<close> prefix, the only ones the code converts: white
  space, an optional sign, and digits.\<close>

definition hex_digits :: "u8 list \<Rightarrow> int" where
  "hex_digits s = foldl (\<lambda>n b. 16 * n + hex_val b) 0 (takeWhile c_isxdigit s)"

definition c_strtol16 :: "u8 list \<Rightarrow> int" where
  "c_strtol16 buf =
    (case dropWhile c_isspace (c_str buf) of
       [] \<Rightarrow> 0
     | b # s \<Rightarrow> if b = 45 then - hex_digits s else if b = 43 then hex_digits s else hex_digits (b # s))"

text \<open>Numbers printed: \<open>%d\<close> and \<open>%02lX\<close>.\<close>

fun dec_nat :: "nat \<Rightarrow> u8 list" where
  "dec_nat n = (if n < 10 then [48 + of_nat n] else dec_nat (n div 10) @ [48 + of_nat (n mod 10)])"

declare dec_nat.simps [simp del]

definition dec_int :: "int \<Rightarrow> u8 list" where
  "dec_int i = (if i < 0 then 45 # dec_nat (nat (- i)) else dec_nat (nat i))"

definition hex_char :: "nat \<Rightarrow> u8" where
  "hex_char d = (if d < 10 then 48 + of_nat d else 55 + of_nat d)"

fun hex_nat :: "nat \<Rightarrow> u8 list" where
  "hex_nat n = (if n < 16 then [hex_char n] else hex_nat (n div 16) @ [hex_char (n mod 16)])"

declare hex_nat.simps [simp del]

definition hex_02 :: "nat \<Rightarrow> u8 list" where
  "hex_02 n = (if n < 16 then 48 # hex_nat n else hex_nat n)"

section \<open>Lemmas\<close>

lemma c_str_append: "0 \<notin> set s \<Longrightarrow> c_str (s @ 0 # rest) = s"
  by (induction s) (simp_all add: c_str_def)

lemma c_str_no_zero: "0 \<notin> set (c_str buf)"
  by (auto simp: c_str_def dest: set_takeWhileD)

lemma c_str_split: "\<exists>rest. buf = c_str buf @ rest \<and> (rest = [] \<or> hd rest = 0)"
proof (induction buf)
  case Nil
  then show ?case by (simp add: c_str_def)
next
  case (Cons b buf)
  then show ?case by (cases "b = 0") (auto simp: c_str_def)
qed

lemma hex_val_range: "c_isxdigit b \<Longrightarrow> 0 \<le> hex_val b \<and> hex_val b < 16"
  by (auto simp: c_isxdigit_def hex_val_def word_le_def)

lemma c_strlen_le: "c_strlen s \<le> length s"
  by (simp add: c_strlen_def c_str_def length_takeWhile_le)

lemma hex_char_table:
  "list_all (\<lambda>d. c_isxdigit (hex_char d) \<and> hex_val (hex_char d) = int d \<and> \<not> c_isspace (hex_char d) \<and>
     hex_char d \<notin> {0, 43, 45, 62, 79}) [0..<16]"
  by code_simp

lemma hex_char_props:
  "d < 16 \<Longrightarrow> c_isxdigit (hex_char d) \<and> hex_val (hex_char d) = int d \<and> \<not> c_isspace (hex_char d) \<and>
     hex_char d \<notin> {0, 43, 45, 62, 79}"
  by (rule bspec [OF hex_char_table [unfolded list_all_iff]]) simp

end
