(* ===== verification/Elm.thy ===== *)
theory Elm
  imports Fifo Utils C_String
begin

text \<open>
  src/elm.c: commands to the ELM327 over the UART, and its answers out of the FIFO that the receive
  interrupt fills. The world of the driver is the FIFO, the bytes sent so far and an environment \<open>'e\<close>
  that says, at each poll of the FIFO's status, which bytes the interrupt has stored since the last
  poll (\<open>Elm_Isr\<close> has interrupts inside the FIFO's read as well and shows that the results are the same). The poll loop has no
  bound: a device that stays silent makes the operation \<open>None\<close>.

  A caller's buffer is a list \<open>mem\<close>: the array and what lies behind it in memory. A store outside that
  list has no result (\<open>None\<close>).
\<close>

record 'e elm_world =
  ew_fifo :: fifo_t
  ew_tx :: "u8 list"
  ew_env :: 'e

definition ELM_RESET :: "u8 list" where "ELM_RESET = cstr ''ATZ'' @ [13]"
definition ECHO_OFF :: "u8 list" where "ECHO_OFF = cstr ''ATE0'' @ [13]"
definition SEARCH_BUS :: "u8 list" where "SEARCH_BUS = cstr ''ATSP0'' @ [13]"
definition ELM_OK :: "u8 list" where "ELM_OK = cstr ''OK''"
definition ELM_BUF_SIZE :: nat where "ELM_BUF_SIZE = 128"

text \<open>\<open>BUF_SIZE\<close> as src/elm.c sees it, from utils.h.\<close>

definition ELM_READ_SIZE :: nat where "ELM_READ_SIZE = 32"

definition elm_response_complete :: "u8 list \<Rightarrow> bool" where
  "elm_response_complete mem \<longleftrightarrow> c_strstr mem [62] \<noteq> None"

definition elm_write :: "u8 list \<Rightarrow> 'e elm_world \<Rightarrow> int \<times> 'e elm_world" where
  "elm_write buf w = (0, w\<lparr>ew_tx := ew_tx w @ uart_write_str buf\<rparr>)"

text \<open>The interrupt stores the bytes that arrived.\<close>

definition elm_poll :: "('e \<Rightarrow> u8 list \<times> 'e) \<Rightarrow> 'e elm_world \<Rightarrow> 'e elm_world" where
  "elm_poll rx w =
    (let (bs, e) = rx (ew_env w)
     in w\<lparr>ew_fifo := fold (\<lambda>b f. snd (fifo_write_byte f b)) bs (ew_fifo w), ew_env := e\<rparr>)"

text \<open>The loop of \<open>elm_read\<close>: \<open>len\<close> bytes left, \<open>cur\<close> the position, \<open>ret\<close> the 8-bit count. Both stores of a
  round, at \<open>cur\<close> and behind it, have to lie inside the list.\<close>

partial_function (option) elm_read_loop ::
  "('e \<Rightarrow> u8 list \<times> 'e) \<Rightarrow> nat \<Rightarrow> nat \<Rightarrow> u8 \<Rightarrow> u8 \<Rightarrow> u8 list \<Rightarrow> 'e elm_world \<Rightarrow>
    (u8 \<times> u8 list \<times> 'e elm_world) option" where
  "elm_read_loop rx len cur ret ch mem w =
    (if len = 0 then Some (ret, mem, w)
     else do {
       w \<leftarrow> Some (elm_poll rx w);
       if f_status (ew_fifo w) = FIFO_EMPTY then elm_read_loop rx len cur ret ch mem w
       else do {
         (_, ch, f) \<leftarrow> Some (fifo_read_byte (ew_fifo w) ch);
         mem \<leftarrow> (if Suc cur < length mem then Some (mem[cur := ch]) else None);
         mem \<leftarrow> Some (mem[Suc cur := 0]);
         if elm_response_complete mem then Some (ret + 1, mem, w\<lparr>ew_fifo := f\<rparr>)
         else elm_read_loop rx (len - 1) (Suc cur) (ret + 1) ch mem (w\<lparr>ew_fifo := f\<rparr>)
       }
     })"

definition elm_read ::
  "('e \<Rightarrow> u8 list \<times> 'e) \<Rightarrow> u8 list \<Rightarrow> nat \<Rightarrow> 'e elm_world \<Rightarrow> (int \<times> u8 list \<times> 'e elm_world) option" where
  "elm_read rx mem len w =
    do {
      (ret, mem, w) \<leftarrow> elm_read_loop rx len 0 0 0 (replicate len 0 @ drop len mem) w;
      Some (uint ret, mem, w)
    }"

definition elm_command ::
  "('e \<Rightarrow> u8 list \<times> 'e) \<Rightarrow> u8 list \<Rightarrow> u8 list \<Rightarrow> nat \<Rightarrow> 'e elm_world \<Rightarrow> (int \<times> u8 list \<times> 'e elm_world) option" where
  "elm_command rx cmd mem sz w =
    (let (r, w) = elm_write cmd w
     in if r < 0 then Some (- 1, mem, w) else elm_read rx mem sz w)"

definition initialize_elm ::
  "('e \<Rightarrow> u8 list \<times> 'e) \<Rightarrow> u8 list \<Rightarrow> 'e elm_world \<Rightarrow> (int \<times> 'e elm_world) option" where
  "initialize_elm rx mem w =
    do {
      (r, mem, w) \<leftarrow> elm_command rx ELM_RESET mem ELM_READ_SIZE w;
      if r < 0 then Some (- 1, w)
      else do {
        (r, mem, w) \<leftarrow> elm_command rx ECHO_OFF mem ELM_READ_SIZE w;
        if r < 0 \<and> c_strstr mem ELM_OK = None then Some (- 1, w)
        else do {
          (r, mem, w) \<leftarrow> elm_command rx SEARCH_BUS mem ELM_READ_SIZE w;
          if r < 0 \<and> c_strstr mem ELM_OK = None then Some (- 1, w)
          else Some (0, w)
        }
      }
    }"

section \<open>What the loop reads\<close>

text \<open>An environment given as a finite script: the bytes that arrive before each poll.\<close>

fun script_rx :: "u8 list list \<Rightarrow> u8 list \<times> u8 list list" where
  "script_rx [] = ([], [])"
| "script_rx (bs # cs) = (bs, cs)"

lemma find_sub_char: "find_sub [c] s \<noteq> None \<longleftrightarrow> c \<in> set s"
  by (induction s) auto

lemma elm_complete_iff: "elm_response_complete mem \<longleftrightarrow> 62 \<in> set (c_str mem)"
  unfolding elm_response_complete_def c_strstr_def by (rule find_sub_char)

text \<open>The memory after some bytes were stored: they are the string of the buffer.\<close>

definition elm_mem :: "u8 list \<Rightarrow> u8 list \<Rightarrow> bool" where
  "elm_mem s mem \<longleftrightarrow> (\<exists>rest. mem = s @ 0 # rest)"

lemma elm_mem_str: "elm_mem s mem \<Longrightarrow> 0 \<notin> set s \<Longrightarrow> c_str mem = s"
  by (auto simp: elm_mem_def c_str_append)

lemma elm_mem_step:
  assumes "elm_mem s mem" and "Suc (length s) < length mem"
  shows "elm_mem (s @ [b]) (mem[length s := b, Suc (length s) := 0])"
proof -
  obtain rest where mem: "mem = s @ 0 # rest" using assms(1) by (auto simp: elm_mem_def)
  with assms(2) obtain r rest' where rest: "rest = r # rest'" by (cases rest) auto
  show ?thesis by (simp add: elm_mem_def mem rest list_update_append)
qed

text \<open>What the driver has still to read: the bytes in the FIFO and the bytes of the script. No byte is
  lost as long as the FIFO has room for what arrives before each poll; the driver takes one byte after
  each poll that finds one, so \<open>rx_fits\<close> counts the bytes it holds.\<close>

fun rx_fits :: "nat \<Rightarrow> u8 list list \<Rightarrow> bool" where
  "rx_fits k [] \<longleftrightarrow> k < 64"
| "rx_fits k (bs # cs) \<longleftrightarrow> k + length bs < 64 \<and> rx_fits (k + length bs - 1) cs"

definition elm_pending :: "u8 list list elm_world \<Rightarrow> u8 list" where
  "elm_pending w = fifo_list (ew_fifo w) @ concat (ew_env w)"

definition elm_room :: "nat \<Rightarrow> u8 list list elm_world \<Rightarrow> bool" where
  "elm_room k w \<longleftrightarrow> fifo_wf (ew_fifo w) \<and> fifo_accepts (ew_fifo w) \<and> rx_fits (length (fifo_list (ew_fifo w)) - k) (ew_env w)"

definition elm_ready :: "u8 list list elm_world \<Rightarrow> bool" where
  "elm_ready w \<longleftrightarrow> elm_room 0 w"

lemma rx_fits_small: "k + length (concat cs) < 64 \<Longrightarrow> rx_fits k cs"
  by (induction cs arbitrary: k) auto

lemma elm_pending_tx [simp]: "elm_pending (w\<lparr>ew_tx := t\<rparr>) = elm_pending w"
  by (simp add: elm_pending_def)

lemma elm_ready_tx [simp]: "elm_ready (w\<lparr>ew_tx := t\<rparr>) = elm_ready w"
  by (simp add: elm_ready_def elm_room_def)

lemma elm_poll_feed:
  "elm_poll script_rx w = w\<lparr>ew_fifo := fifo_q.feed (ew_fifo w) (fst (script_rx (ew_env w))),
     ew_env := snd (script_rx (ew_env w))\<rparr>"
  by (simp add: elm_poll_def fifo_q.feed_def foldl_conv_fold split: prod.split)

lemma script_split: "fst (script_rx cs) @ concat (snd (script_rx cs)) = concat cs"
  by (cases cs) auto

lemma elm_poll_room:
  assumes "elm_ready w"
  shows "elm_room 1 (elm_poll script_rx w)" and "elm_pending (elm_poll script_rx w) = elm_pending w"
    and "ew_tx (elm_poll script_rx w) = ew_tx w"
proof -
  have wf: "fifo_wf (ew_fifo w)" and acc: "fifo_accepts (ew_fifo w)"
    and room: "rx_fits (length (fifo_list (ew_fifo w))) (ew_env w)"
    using assms by (auto simp: elm_ready_def elm_room_def)
  let ?bs = "fst (script_rx (ew_env w))"
  have len: "length (fifo_list (ew_fifo w)) + length ?bs < 64"
    and rest: "rx_fits (length (fifo_list (ew_fifo w)) + length ?bs - 1) (snd (script_rx (ew_env w)))"
    using room by (cases "ew_env w"; simp)+
  note f = fifo_q.feed_fits [OF wf acc len] fifo_q.inv_feed [OF wf, of ?bs]
  show "elm_pending (elm_poll script_rx w) = elm_pending w"
    using f script_split [of "ew_env w"] by (simp add: elm_pending_def elm_poll_feed)
  show "elm_room 1 (elm_poll script_rx w)"
    using f rest by (simp add: elm_room_def elm_poll_feed)
  show "ew_tx (elm_poll script_rx w) = ew_tx w" by (simp add: elm_poll_feed)
qed

text \<open>One byte: the loop polls until it is there, takes it, and ends on the prompt.\<close>

lemma elm_read_byte:
  assumes "elm_ready w" and "elm_pending w = b # tail" and "0 < len" and "Suc cur < length mem"
  shows "\<exists>w'. elm_read_loop script_rx len cur ret ch mem w =
      (let mem = mem[cur := b, Suc cur := 0]
       in if elm_response_complete mem then Some (ret + 1, mem, w')
          else elm_read_loop script_rx (len - 1) (Suc cur) (ret + 1) b mem w') \<and>
    elm_ready w' \<and> elm_pending w' = tail \<and> ew_tx w' = ew_tx w"
  using assms
proof (induction "length (ew_env w)" arbitrary: w rule: less_induct)
  case less
  let ?w = "elm_poll script_rx w"
  note p = elm_poll_room [OF less.prems(1)]
  have wf: "fifo_wf (ew_fifo ?w)" using p(1) by (simp add: elm_room_def)
  show ?case
  proof (cases "f_status (ew_fifo ?w) = FIFO_EMPTY")
    case True
    then have nil: "fifo_list (ew_fifo ?w) = []" using fifo_empty_iff [OF wf] by (simp add: fifo_is_empty_def)
    then have "concat (ew_env ?w) \<noteq> []" using p(2) less.prems(2) by (simp add: elm_pending_def)
    then have shorter: "length (ew_env ?w) < length (ew_env w)"
      by (cases "ew_env w") (simp_all add: elm_poll_feed)
    have step: "elm_read_loop script_rx len cur ret ch mem w = elm_read_loop script_rx len cur ret ch mem ?w"
      using True less.prems(3) by (subst elm_read_loop.simps) simp
    have "elm_ready ?w" using p(1) nil by (simp add: elm_ready_def elm_room_def)
    from less.hyps [OF shorter this] p(2,3) less.prems(2-4) show ?thesis by (simp add: step)
  next
    case False
    then have ne: "\<not> fifo_is_empty (ew_fifo ?w)" by (simp add: fifo_is_empty_def)
    obtain r c f where r: "fifo_read_byte (ew_fifo ?w) ch = (r, c, f)"
      by (cases "fifo_read_byte (ew_fifo ?w) ch") auto
    have l: "fifo_list (ew_fifo ?w) = c # fifo_list f" using fifo_read_list [OF wf ne, of ch] r by simp
    from l have c: "c = b" and fl: "fifo_list f @ concat (ew_env ?w) = tail"
      using p(2) less.prems(2) by (auto simp: elm_pending_def)
    have "fifo_wf f" using fifo_read_wf [OF wf, of ch] r by simp
    moreover have "fifo_accepts f"
      using fifo_read_accepts [OF wf ne, of ch] r p(1) by (simp add: elm_room_def)
    moreover have "rx_fits (length (fifo_list f)) (ew_env ?w)" using p(1) l by (simp add: elm_room_def)
    ultimately have "elm_ready (?w\<lparr>ew_fifo := f\<rparr>)" "elm_pending (?w\<lparr>ew_fifo := f\<rparr>) = tail"
      using fl by (simp_all add: elm_ready_def elm_room_def elm_pending_def)
    then show ?thesis
      using less.prems(3,4) False p(3) r c
      by (intro exI [where x = "?w\<lparr>ew_fifo := f\<rparr>"]) (subst elm_read_loop.simps, simp add: Let_def)
  qed
qed

lemma elm_mem_start: "0 < len \<Longrightarrow> elm_mem [] (replicate len 0 @ xs)"
  by (cases len) (auto simp: elm_mem_def)

text \<open>What a reading loop promises, however the bytes get into the queue: it stops when the buffer is full,
  and inside its memory, as long as the device is ready (no byte will be lost) it takes over the next byte that is pending.\<close>

locale elm_reader =
  fixes loop :: "nat \<Rightarrow> nat \<Rightarrow> u8 \<Rightarrow> u8 \<Rightarrow> u8 list \<Rightarrow> 'w \<Rightarrow> (u8 \<times> u8 list \<times> 'w) option"
    and ready :: "'w \<Rightarrow> bool"
    and pending :: "'w \<Rightarrow> u8 list"
    and sent :: "'w \<Rightarrow> u8 list"
  assumes full: "loop 0 cur ret ch mem w = Some (ret, mem, w)"
    and byte: "\<lbrakk>ready w; pending w = b # tail; 0 < len; Suc cur < length mem\<rbrakk> \<Longrightarrow> \<exists>w'. loop len cur ret ch mem w =
      (let mem = mem[cur := b, Suc cur := 0]
       in if elm_response_complete mem then Some (ret + 1, mem, w') else loop (len - 1) (Suc cur) (ret + 1) b mem w') \<and>
      ready w' \<and> pending w' = tail \<and> sent w' = sent w"
begin

text \<open>The loop takes over bytes that are neither the prompt nor NUL.\<close>

lemma read_run:
  assumes "ready w" and "pending w = v @ tail" and "length v \<le> len"
    and "length s + len < length mem" and "elm_mem s mem" and "0 \<notin> set (s @ v)" and "62 \<notin> set (s @ v)"
  shows "\<exists>ch' mem' w'. loop len (length s) ret ch mem w =
      loop (len - length v) (length (s @ v)) (ret + of_nat (length v)) ch' mem' w' \<and>
    elm_mem (s @ v) mem' \<and> length mem' = length mem \<and>
    drop (Suc (length s + length v)) mem' = drop (Suc (length s + length v)) mem \<and>
    ready w' \<and> pending w' = tail \<and> sent w' = sent w"
  using assms
proof (induction v arbitrary: w s len ret ch mem)
  case Nil
  then show ?case by auto
next
  case (Cons b v)
  let ?m = "mem[length s := b, Suc (length s) := 0]"
  have sb: "0 \<notin> set (s @ [b])" "62 \<notin> set (s @ [b])" using Cons.prems(6,7) by auto
  have em: "elm_mem (s @ [b]) ?m" using elm_mem_step [OF Cons.prems(5)] Cons.prems(3,4) by simp
  have nc: "\<not> elm_response_complete ?m"
    using sb elm_mem_str [OF em sb(1)] by (simp add: elm_complete_iff)
  from byte [OF Cons.prems(1), of b "v @ tail" len "length s" mem ret ch] Cons.prems(2-4) nc
  obtain w1 where w1: "loop len (length s) ret ch mem w = loop (len - 1) (Suc (length s)) (ret + 1) b ?m w1"
    "ready w1" "pending w1 = v @ tail" "sent w1 = sent w"
    by (auto simp: Let_def)
  have h: "length v \<le> len - 1" "length (s @ [b]) + (len - 1) < length ?m"
    using Cons.prems(3,4) by auto
  have "0 \<notin> set ((s @ [b]) @ v)" "62 \<notin> set ((s @ [b]) @ v)" using Cons.prems(6,7) by auto
  from Cons.IH [OF w1(2,3) h em this, of "ret + 1" b] w1(1,4) show ?case
    by (auto simp: algebra_simps)
qed

lemma read_answer:
  assumes "ready w" and "pending w = u @ 62 # tail" and "0 \<notin> set u" and "62 \<notin> set u"
    and "length u < len" and "len < length mem" and "length u < 255"
  shows "\<exists>mem' w'. loop len 0 0 0 (replicate len 0 @ drop len mem) w = Some (of_nat (length u) + 1, mem', w') \<and>
    uint (of_nat (length u) + 1 :: u8) = int (length u) + 1 \<and> c_str mem' = u @ [62] \<and> length mem' = length mem \<and>
    ready w' \<and> pending w' = tail \<and> sent w' = sent w"
proof -
  let ?m = "replicate len 0 @ drop len mem"
  have em: "elm_mem [] ?m" using assms(5) by (intro elm_mem_start) simp
  have lm: "length ?m = length mem" using assms(6) by simp
  have h: "length u \<le> len" "length ([] :: u8 list) + len < length ?m" "0 \<notin> set ([] @ u)" "62 \<notin> set ([] @ u)"
    using assms(3-6) lm by auto
  from read_run [OF assms(1,2) h(1,2) em h(3,4), of 0 0]
  obtain ch1 mem1 w1 where 1: "loop len 0 0 0 ?m w = loop (len - length u) (length u) (of_nat (length u)) ch1 mem1 w1"
    and em1: "elm_mem u mem1" and l1: "length mem1 = length mem"
    and w1: "ready w1" "pending w1 = 62 # tail" "sent w1 = sent w"
    using lm by auto
  let ?m2 = "mem1[length u := 62, Suc (length u) := 0]"
  have em2: "elm_mem (u @ [62]) ?m2" using elm_mem_step [OF em1] assms(5,6) l1 by simp
  have str: "c_str ?m2 = u @ [62]" by (rule elm_mem_str [OF em2]) (use assms(3) in auto)
  then have "elm_response_complete ?m2" by (simp add: elm_complete_iff)
  with byte [OF w1(1,2), of "len - length u" "length u" mem1 "of_nat (length u)" ch1] assms(5,6) l1
  obtain w2 where 2: "loop (len - length u) (length u) (of_nat (length u)) ch1 mem1 w1 = Some (of_nat (length u) + 1, ?m2, w2)"
    and w2: "ready w2" "pending w2 = tail" "sent w2 = sent w1"
    by (auto simp: Let_def)
  have "uint (of_nat (length u) + 1 :: u8) = int (length u) + 1"
    using assms(7) by (simp add: uint_word_ariths unsigned_of_nat take_bit_eq_mod uint_nat [symmetric])
  with 1 2 str w2 w1(3) l1 show ?thesis by simp
qed

end

interpretation polled: elm_reader "elm_read_loop script_rx" elm_ready elm_pending ew_tx
  by unfold_locales (simp add: elm_read_loop.simps, rule elm_read_byte)

lemma elm_read_answer:
  assumes "elm_ready w" and "elm_pending w = u @ 62 # tail" and "0 \<notin> set u" and "62 \<notin> set u"
    and "length u < len" and "len < length mem" and "length u < 255"
  shows "\<exists>mem' w'. elm_read script_rx mem len w = Some (int (length u) + 1, mem', w') \<and>
    c_str mem' = u @ [62] \<and> length mem' = length mem \<and>
    elm_ready w' \<and> elm_pending w' = tail \<and> ew_tx w' = ew_tx w"
  using polled.read_answer [OF assms] by (auto simp: elm_read_def)

lemma initialize_elm_run:
  assumes "elm_ready w" and "elm_pending w = u @ 62 # v @ 62 # x @ 62 # tail"
    and "0 \<notin> set (u @ v @ x)" and "62 \<notin> set (u @ v @ x)"
    and "length u < 32" and "length v < 32" and "length x < 32" and "32 < length mem"
  shows "\<exists>w'. initialize_elm script_rx mem w = Some (0, w') \<and> elm_ready w' \<and> elm_pending w' = tail \<and>
    ew_tx w' = ew_tx w @ ELM_RESET @ ECHO_OFF @ SEARCH_BUS"
proof -
  have tx: "uart_write_str ELM_RESET = ELM_RESET" "uart_write_str ECHO_OFF = ECHO_OFF"
    "uart_write_str SEARCH_BUS = SEARCH_BUS"
    by (simp_all add: ELM_RESET_def ECHO_OFF_def SEARCH_BUS_def uart_write_str_def cstr_def of_char_def)
  have sz: "ELM_READ_SIZE = 32" by (simp add: ELM_READ_SIZE_def)
  note l = assms(8)
  obtain m1 w1 where 1: "elm_command script_rx ELM_RESET mem 32 w = Some (int (length u) + 1, m1, w1)"
    "length m1 = length mem" "elm_ready w1" "elm_pending w1 = v @ 62 # x @ 62 # tail" "ew_tx w1 = ew_tx w @ ELM_RESET"
    using elm_read_answer [of "snd (elm_write ELM_RESET w)" u "v @ 62 # x @ 62 # tail" 32 mem] assms l tx
    by (auto simp: elm_command_def elm_write_def)
  obtain m2 w2 where 2: "elm_command script_rx ECHO_OFF m1 32 w1 = Some (int (length v) + 1, m2, w2)"
    "length m2 = length mem" "elm_ready w2" "elm_pending w2 = x @ 62 # tail" "ew_tx w2 = ew_tx w1 @ ECHO_OFF"
    using elm_read_answer [of "snd (elm_write ECHO_OFF w1)" v "x @ 62 # tail" 32 m1] assms l tx 1
    by (auto simp: elm_command_def elm_write_def)
  obtain m3 w3 where 3: "elm_command script_rx SEARCH_BUS m2 32 w2 = Some (int (length x) + 1, m3, w3)"
    "elm_ready w3" "elm_pending w3 = tail" "ew_tx w3 = ew_tx w2 @ SEARCH_BUS"
    using elm_read_answer [of "snd (elm_write SEARCH_BUS w2)" x tail 32 m2] assms l tx 2
    by (auto simp: elm_command_def elm_write_def)
  from 1 2 3 show ?thesis by (simp add: initialize_elm_def sz)
qed

section \<open>Properties\<close>

text \<open>C27. \<open>elm_command\<close> sends the command and reads the device's answer whole: however the receive
  interrupt spreads the answer \<open>u >\<close> over the polls, if the FIFO never overflows and the
  answer fits in the buffer, the call returns with the string \<open>u >\<close> in the buffer, the count of its bytes,
  and everything after the prompt still pending.\<close>

theorem elm_command_answer:
  assumes "elm_ready w" and "elm_pending w = u @ 62 # tail" and "0 \<notin> set u" and "62 \<notin> set u"
    and "length u < len" and "len < length mem" and "length u < 255"
  shows "\<exists>mem' w'. elm_command script_rx cmd mem len w = Some (int (length u) + 1, mem', w') \<and>
    c_str mem' = u @ [62] \<and> length mem' = length mem \<and>
    elm_ready w' \<and> elm_pending w' = tail \<and> ew_tx w' = ew_tx w @ uart_write_str cmd"
proof -
  let ?w = "w\<lparr>ew_tx := ew_tx w @ uart_write_str cmd\<rparr>"
  have "elm_ready ?w" "elm_pending ?w = u @ 62 # tail"
    using assms(1,2) by simp_all
  from elm_read_answer [OF this assms(3-7)] show ?thesis
    by (simp add: elm_command_def elm_write_def)
qed

definition demo_fifo :: fifo_t where
  "demo_fifo = \<lparr>f_buf = replicate 64 0, f_head = 0, f_tail = 0, f_status = FIFO_EMPTY\<rparr>"

definition demo_elm :: "u8 list list \<Rightarrow> u8 list list elm_world" where
  "demo_elm cs = \<lparr>ew_fifo = demo_fifo, ew_tx = [], ew_env = cs\<rparr>"

lemma demo_elm_ready: "length (concat cs) < 64 \<Longrightarrow> elm_ready (demo_elm cs) \<and> elm_pending (demo_elm cs) = concat cs"
  by (simp add: demo_elm_def demo_fifo_def elm_ready_def elm_room_def elm_pending_def fifo_wf_def fifo_accepts_def
      fifo_list_def fifo_count_def rx_fits_small)

theorem elm_command_answer_witness:
  "\<exists>mem' w'. elm_command script_rx ECHO_OFF (replicate 128 7) 32 (demo_elm [[], [79, 75], [], [13, 62, 1]]) =
      Some (int (length [79, 75, 13 :: u8]) + 1, mem', w') \<and>
    c_str mem' = [79, 75, 13] @ [62] \<and> length mem' = length (replicate 128 (7 :: u8)) \<and>
    elm_ready w' \<and> elm_pending w' = [1] \<and>
    ew_tx w' = ew_tx (demo_elm [[], [79, 75], [], [13, 62, 1]]) @ uart_write_str ECHO_OFF"
  using demo_elm_ready [of "[[], [79, 75], [], [13, 62, 1]]"]
  by (intro elm_command_answer) simp_all

text \<open>An answer that fills the caller's buffer without a prompt ends the read with a NUL written
  one byte past the buffer (\<open>*cur = 0\<close> after \<open>cur++\<close>); nothing behind that byte changes.\<close>

theorem elm_command_overrun:
  assumes "elm_ready w" and "elm_pending w = u @ tail" and "0 \<notin> set u" and "62 \<notin> set u"
    and "u \<noteq> []" and "length u = len" and "len < length mem" and "len < 256"
  shows "\<exists>mem' w'. elm_command script_rx cmd mem len w = Some (int len, mem', w') \<and>
    take len mem' = u \<and> mem' ! len = 0 \<and> drop (Suc len) mem' = drop (Suc len) mem"
proof -
  let ?w = "w\<lparr>ew_tx := ew_tx w @ uart_write_str cmd\<rparr>" and ?m = "replicate len 0 @ drop len mem"
  have w: "elm_ready ?w" "elm_pending ?w = u @ tail"
    using assms(1,2) by simp_all
  have em: "elm_mem [] ?m" using assms(5,6) by (intro elm_mem_start) auto
  have h: "length u \<le> len" "length ([] :: u8 list) + len < length ?m" "0 \<notin> set ([] @ u)" "62 \<notin> set ([] @ u)"
    using assms(3-7) by auto
  from polled.read_run [OF w h(1,2) em h(3,4), of 0 0] assms(6)
  obtain mem' w' where 1: "elm_read_loop script_rx len 0 0 0 ?m ?w = Some (of_nat len, mem', w')"
    and m: "elm_mem u mem'" "drop (Suc len) mem' = drop (Suc len) ?m"
    by (auto simp: elm_read_loop.simps [of _ 0])
  have "uint (of_nat len :: u8) = int len" using assms(8) by (simp add: unsigned_of_nat take_bit_eq_mod uint_nat [symmetric])
  then have "elm_command script_rx cmd mem len w = Some (int len, mem', w')"
    using 1 by (simp add: elm_command_def elm_write_def elm_read_def)
  moreover have "drop (Suc len) ?m = drop (Suc len) mem" by (simp add: Suc_diff_le)
  ultimately show ?thesis using m assms(6) by (auto simp: elm_mem_def)
qed

theorem elm_command_overrun_witness:
  "\<exists>mem' w'. elm_command script_rx [65, 13] [1, 1, 9, 9] 2 (demo_elm [[65], [], [66, 67]]) = Some (int 2, mem', w') \<and>
    take 2 mem' = [65, 66] \<and> mem' ! 2 = 0 \<and> drop (Suc 2) mem' = drop (Suc 2) [1, 1, 9, 9 :: u8]"
  using demo_elm_ready [of "[[65], [], [66, 67]]"]
  by (intro elm_command_overrun) simp_all

text \<open>\<open>initialize_elm\<close> sends its three commands, waits for three prompts and reports success
  whatever the answers say: the test for \<open>OK\<close> is only made when \<open>elm_command\<close> returned an error,
  which it never does.\<close>

theorem initialize_elm_accepts_any:
  assumes "elm_ready w" and "elm_pending w = u @ 62 # v @ 62 # x @ 62 # tail"
    and "0 \<notin> set (u @ v @ x)" and "62 \<notin> set (u @ v @ x)"
    and "length u < 32" and "length v < 32" and "length x < 32" and "32 < length mem"
  shows "\<exists>w'. initialize_elm script_rx mem w = Some (0, w') \<and> elm_pending w' = tail \<and>
    ew_tx w' = ew_tx w @ ELM_RESET @ ECHO_OFF @ SEARCH_BUS"
  using initialize_elm_run [OF assms] by blast

theorem initialize_elm_accepts_any_witness:
  "\<exists>w'. initialize_elm script_rx (replicate 128 7) (demo_elm [[63, 62], [63], [62], [], [63, 62]]) = Some (0, w') \<and>
    elm_pending w' = [] \<and>
    ew_tx w' = ew_tx (demo_elm [[63, 62], [63], [62], [], [63, 62]]) @ ELM_RESET @ ECHO_OFF @ SEARCH_BUS"
  using demo_elm_ready [of "[[63, 62], [63], [62], [], [63, 62]]"]
  by (intro initialize_elm_accepts_any [where u = "[63]" and v = "[63]" and x = "[63]"]) simp_all

end
