(* ===== verification/Fifo_Isr.thy ===== *)
theory Fifo_Isr
  imports Fifo
begin

text \<open>
  The receive interrupt of src/main.c (\<open>ISR(USART1_RX_vect)\<close>) writes the queue while
  \<open>elm_read\<close> reads it, and nothing in the code disables interrupts around the read.
  \<open>fifo_read_byte\<close> is therefore cut here into its statements: \<open>reader_step\<close> runs the next
  one, and the interrupt handler, which the hardware runs to completion, may come between any
  two of them. \<open>sh_got\<close> and \<open>sh_acc\<close> are ghost logs of the bytes delivered and accepted.
\<close>

datatype reader_pc = Check | Fetch | Inc | Wrap | Cmp | SetEmpty | Done

record shared =
  sh_q :: fifo_t
  sh_pc :: reader_pc
  sh_byte :: u8
  sh_ret :: u8
  sh_got :: "u8 list"
  sh_acc :: "u8 list"

fun reader_at :: "reader_pc \<Rightarrow> shared \<Rightarrow> shared" where
  "reader_at Check s =
     (if f_status (sh_q s) \<noteq> FIFO_EMPTY then s\<lparr>sh_pc := Fetch\<rparr> else s\<lparr>sh_pc := Done, sh_ret := - 1\<rparr>)"
| "reader_at Fetch s =
     (let b = f_buf (sh_q s) ! unat (f_tail (sh_q s)) in s\<lparr>sh_byte := b, sh_got := sh_got s @ [b], sh_pc := Inc\<rparr>)"
| "reader_at Inc s = s\<lparr>sh_q := (sh_q s)\<lparr>f_tail := f_tail (sh_q s) + 1\<rparr>, sh_pc := Wrap\<rparr>"
| "reader_at Wrap s =
     (if f_tail (sh_q s) = FIFO_SIZE then s\<lparr>sh_q := (sh_q s)\<lparr>f_tail := 0\<rparr>, sh_pc := Cmp\<rparr> else s\<lparr>sh_pc := Cmp\<rparr>)"
| "reader_at Cmp s =
     (if f_tail (sh_q s) = f_head (sh_q s) then s\<lparr>sh_pc := SetEmpty\<rparr> else s\<lparr>sh_pc := Done, sh_ret := 0\<rparr>)"
| "reader_at SetEmpty s = s\<lparr>sh_q := (sh_q s)\<lparr>f_status := FIFO_EMPTY\<rparr>, sh_pc := Done, sh_ret := 0\<rparr>"
| "reader_at Done s = s"

definition reader_step :: "shared \<Rightarrow> shared" where
  "reader_step s = reader_at (sh_pc s) s"

text \<open>The handler \<open>fifo_write_byte(&fifo, &UDR1)\<close>. When the queue does not accept, the code does not read \<open>UDR1\<close>,
  so the byte stays in the port and the interrupt pending; the step then changes nothing, and the same byte may
  come again with the next one. \<open>sh_acc\<close> has the accepted bytes only.\<close>

definition usart1_rx_isr :: "u8 \<Rightarrow> shared \<Rightarrow> shared" where
  "usart1_rx_isr udr1 s = s\<lparr>sh_q := snd (fifo_write_byte (sh_q s) udr1),
     sh_acc := (if fifo_accepts (sh_q s) then sh_acc s @ [udr1] else sh_acc s)\<rparr>"

text \<open>
  \<open>en p\<close>: interrupts are enabled while the reader stands before statement \<open>p\<close>. The code
  as written is \<open>en = (\<lambda>_. True)\<close>.
\<close>

inductive shared_step :: "(reader_pc \<Rightarrow> bool) \<Rightarrow> shared \<Rightarrow> shared \<Rightarrow> bool" for en where
  run: "sh_pc s \<noteq> Done \<Longrightarrow> shared_step en s (reader_step s)"
| again: "sh_pc s = Done \<Longrightarrow> shared_step en s (s\<lparr>sh_pc := Check\<rparr>)"
| irq: "en (sh_pc s) \<Longrightarrow> shared_step en s (usart1_rx_isr b s)"

definition shared_init :: "fifo_t \<Rightarrow> shared" where
  "shared_init f = \<lparr>sh_q = initialize_fifo f, sh_pc = Check, sh_byte = 0, sh_ret = 0, sh_got = [], sh_acc = []\<rparr>"

inductive shared_reach :: "(reader_pc \<Rightarrow> bool) \<Rightarrow> fifo_t \<Rightarrow> shared \<Rightarrow> bool" for en f where
  start: "shared_reach en f (shared_init f)"
| step: "shared_reach en f s \<Longrightarrow> shared_step en s t \<Longrightarrow> shared_reach en f t"

inductive_cases shared_stepE: "shared_step en s t"
inductive_simps shared_reach_init: "shared_reach en f (shared_init f)"

section \<open>The statements together are the function\<close>

lemma reader_six:
  "sh_pc s = Check \<Longrightarrow> (reader_step ^^ 6) s =
     s\<lparr>sh_q := snd (snd (fifo_read_byte (sh_q s) (sh_byte s))), sh_pc := Done,
       sh_byte := fst (snd (fifo_read_byte (sh_q s) (sh_byte s))), sh_ret := fst (fifo_read_byte (sh_q s) (sh_byte s)),
       sh_got := (if fifo_is_empty (sh_q s) then sh_got s else sh_got s @ [fst (snd (fifo_read_byte (sh_q s) (sh_byte s)))])\<rparr>"
  by (simp add: numeral_eq_Suc reader_step_def fifo_read_byte_def fifo_is_empty_def Let_def)

section \<open>Memory safety under every interleaving\<close>

definition shared_safe :: "shared \<Rightarrow> bool" where
  "shared_safe s \<longleftrightarrow> length (f_buf (sh_q s)) = 64 \<and> f_head (sh_q s) < 64 \<and> f_tail (sh_q s) \<le> 64 \<and>
     (f_tail (sh_q s) = 64 \<longrightarrow> sh_pc s = Wrap)"

lemma fifo_write_fields:
  "length (f_buf (snd (fifo_write_byte f b))) = length (f_buf f)"
  "f_tail (snd (fifo_write_byte f b)) = f_tail f"
  "f_head f < 64 \<Longrightarrow> f_head (snd (fifo_write_byte f b)) < 64"
  using next_index_lt [of "f_head f"] by (auto simp: fifo_write_byte_def Let_def)

lemma shared_safe_init: "length (f_buf f) = 64 \<Longrightarrow> shared_safe (shared_init f)"
  by (simp add: shared_safe_def shared_init_def initialize_fifo_def)

lemma tail_inc: "t < 64 \<Longrightarrow> t + 1 \<le> 64" for t :: u8
  by (simp add: inc_le)

lemma shared_safe_reader: "shared_safe s \<Longrightarrow> shared_safe (reader_at (sh_pc s) s)"
  by (cases "sh_pc s") (auto simp: shared_safe_def Let_def FIFO_SIZE_def intro: tail_inc order_le_neq_trans)

lemma shared_safe_step: "shared_step en s t \<Longrightarrow> shared_safe s \<Longrightarrow> shared_safe t"
proof (induction rule: shared_step.induct)
  case (run s)
  then show ?case by (simp add: reader_step_def shared_safe_reader)
next
  case (again s)
  then show ?case by (simp add: shared_safe_def)
next
  case (irq s b)
  then show ?case by (auto simp: shared_safe_def usart1_rx_isr_def fifo_write_fields)
qed

lemma shared_reach_safe:
  "shared_reach en f s \<Longrightarrow> length (f_buf f) = 64 \<Longrightarrow> shared_safe s"
  by (induction rule: shared_reach.induct) (auto intro: shared_safe_init shared_safe_step)

section \<open>With the interrupt held off during a read\<close>

definition between_reads :: "reader_pc \<Rightarrow> bool" where
  "between_reads p \<longleftrightarrow> p = Check \<or> p = Done"

definition shared_ok :: "shared \<Rightarrow> bool" where
  "shared_ok s \<longleftrightarrow> fifo_wf (sh_q s) \<and> sh_acc s = sh_got s @ fifo_list (sh_q s)"

definition guarded_inv :: "shared \<Rightarrow> bool" where
  "guarded_inv s \<longleftrightarrow> (if between_reads (sh_pc s) then shared_ok s
     else \<exists>s0 k. sh_pc s0 = Check \<and> shared_ok s0 \<and> s = (reader_step ^^ k) s0)"

lemma reader_done: "sh_pc s = Done \<Longrightarrow> (reader_step ^^ n) s = s"
  by (induction n) (simp_all add: reader_step_def)

lemma reader_done_six:
  assumes "sh_pc s0 = Check" and "sh_pc ((reader_step ^^ k) s0) = Done"
  shows "(reader_step ^^ k) s0 = (reader_step ^^ 6) s0"
proof (cases "k \<le> 6")
  case True
  then have "(reader_step ^^ 6) s0 = (reader_step ^^ (6 - k)) ((reader_step ^^ k) s0)"
    by (metis funpow_add comp_apply le_add_diff_inverse2)
  with assms(2) show ?thesis by (simp only: reader_done)
next
  case False
  then have "(reader_step ^^ k) s0 = (reader_step ^^ (k - 6)) ((reader_step ^^ 6) s0)"
    by (metis funpow_add comp_apply le_add_diff_inverse2 nat_le_linear)
  moreover have "sh_pc ((reader_step ^^ 6) s0) = Done" using assms(1) by (simp add: reader_six)
  ultimately show ?thesis by (simp only: reader_done)
qed

lemma reader_six_ok:
  assumes "sh_pc s = Check" and "shared_ok s"
  shows "shared_ok ((reader_step ^^ 6) s)"
  using fifo_q.deq_list [of "sh_q s" "sh_byte s"] fifo_q.inv_deq [of "sh_q s" "sh_byte s"]
    fifo_q.deq_refused [of "sh_q s" "sh_byte s"] assms
  by (auto simp: reader_six shared_ok_def)

lemma reader_not_check: "sh_pc s \<noteq> Check \<Longrightarrow> sh_pc (reader_at (sh_pc s) s) \<noteq> Check"
  by (cases "sh_pc s") (auto simp: Let_def)

lemma reader_step_not_check: "sh_pc (reader_step s) \<noteq> Check"
  by (cases "sh_pc s") (auto simp: Let_def reader_step_def)

lemma guarded_reader:
  assumes "guarded_inv s" and "sh_pc s \<noteq> Done"
  shows "guarded_inv (reader_step s)"
proof -
  obtain s0 k where s0: "sh_pc s0 = Check" "shared_ok s0" "s = (reader_step ^^ k) s0"
  proof (cases "sh_pc s = Check")
    case True
    with assms show ?thesis
      by (intro that [of s 0]) (auto simp: guarded_inv_def between_reads_def)
  next
    case False
    with assms that show ?thesis by (auto simp: guarded_inv_def between_reads_def)
  qed
  then have t: "reader_step s = (reader_step ^^ Suc k) s0" by simp
  show ?thesis
  proof (cases "sh_pc (reader_step s) = Done")
    case True
    with t reader_done_six [OF s0(1), of "Suc k"] reader_six_ok [OF s0(1,2)] show ?thesis
      by (simp add: guarded_inv_def between_reads_def del: funpow.simps)
  next
    case False
    with s0 t show ?thesis
      using reader_step_not_check [of s] unfolding guarded_inv_def between_reads_def by metis
  qed
qed

lemma guarded_step: "shared_step between_reads s t \<Longrightarrow> guarded_inv s \<Longrightarrow> guarded_inv t"
proof (induction rule: shared_step.induct)
  case (run s)
  then show ?case by (simp add: guarded_reader)
next
  case (again s)
  then show ?case by (auto simp: guarded_inv_def between_reads_def shared_ok_def)
next
  case (irq s b)
  then have "shared_ok s" by (simp add: guarded_inv_def)
  then have "shared_ok (usart1_rx_isr b s)"
    using fifo_q.enq_list [of "sh_q s" b] fifo_q.enq_refused [of "sh_q s" b]
    by (auto simp: shared_ok_def usart1_rx_isr_def fifo_write_wf)
  with irq show ?case by (simp add: guarded_inv_def usart1_rx_isr_def)
qed

lemma guarded_reach:
  "shared_reach between_reads f s \<Longrightarrow> length (f_buf f) = 64 \<Longrightarrow> guarded_inv s"
proof (induction rule: shared_reach.induct)
  case start
  then show ?case
    by (simp add: guarded_inv_def shared_init_def between_reads_def shared_ok_def fifo_init_wf fifo_init_list)
next
  case (step s t)
  then show ?case by (blast intro: guarded_step)
qed

lemma reach_reader: "shared_reach en f s \<Longrightarrow> shared_reach en f ((reader_step ^^ n) s)"
proof (induction n)
  case (Suc n)
  show ?case
  proof (cases "sh_pc ((reader_step ^^ n) s) = Done")
    case True
    with Suc reader_done [of "(reader_step ^^ n) s" 1] show ?thesis by simp
  next
    case False
    with Suc show ?thesis by (auto intro: shared_reach.step shared_step.run)
  qed
qed simp

section \<open>A read under any interrupts\<close>

text \<open>The statements in the order of the program text: a step of the reader goes forward, the interrupt
  leaves it where it is.\<close>

primrec pc_rank :: "reader_pc \<Rightarrow> nat" where
  "pc_rank Check = 0"
| "pc_rank Fetch = 1"
| "pc_rank Inc = 2"
| "pc_rank Wrap = 3"
| "pc_rank Cmp = 4"
| "pc_rank SetEmpty = 5"
| "pc_rank Done = 6"

lemma pc_rank_inj: "pc_rank p = pc_rank q \<Longrightarrow> p = q"
  by (cases p; cases q) simp_all

instantiation reader_pc :: linorder
begin

definition less_eq_reader_pc :: "reader_pc \<Rightarrow> reader_pc \<Rightarrow> bool" where
  "less_eq_reader_pc p q \<longleftrightarrow> pc_rank p \<le> pc_rank q"

definition less_reader_pc :: "reader_pc \<Rightarrow> reader_pc \<Rightarrow> bool" where
  "less_reader_pc p q \<longleftrightarrow> pc_rank p < pc_rank q"

instance
  by standard (auto simp: less_eq_reader_pc_def less_reader_pc_def intro: pc_rank_inj)

end

lemma pc_le_Done [simp]: "p \<le> Done"
  by (cases p) (simp_all add: less_eq_reader_pc_def)

lemma Check_le_pc [simp]: "Check \<le> p"
  by (simp add: less_eq_reader_pc_def)

lemma reader_step_forward: "sh_pc s \<noteq> Done \<Longrightarrow> sh_pc s < sh_pc (reader_step s)"
  by (cases "sh_pc s") (simp_all add: reader_step_def less_reader_pc_def Let_def)

lemma isr_pc [simp]: "sh_pc (usart1_rx_isr b s) = sh_pc s"
  by (simp add: usart1_rx_isr_def)

text \<open>What happens during one call: the reader's own statements and interrupts, in any order.\<close>

datatype read_event = Own | Irq u8

fun read_events :: "read_event list \<Rightarrow> shared \<Rightarrow> shared" where
  "read_events [] s = s"
| "read_events (Own # es) s = read_events es (reader_step s)"
| "read_events (Irq b # es) s = read_events es (usart1_rx_isr b s)"

lemma read_events_reach: "shared_reach (\<lambda>_. True) f s \<Longrightarrow> shared_reach (\<lambda>_. True) f (read_events es s)"
proof (induction es s rule: read_events.induct)
  case (2 es s)
  then show ?case using reach_reader [of "\<lambda>_. True" f s 1] by simp
next
  case (3 b es s)
  then show ?case by (auto intro: shared_reach.step shared_step.irq)
qed simp

lemma read_events_rank: "min 6 (pc_rank (sh_pc s) + length (filter ((=) Own) es)) \<le> pc_rank (sh_pc (read_events es s))"
proof (induction es s rule: read_events.induct)
  case (1 s)
  then show ?case by simp
next
  case (2 es s)
  have "pc_rank (sh_pc s) = 6 \<or> Suc (pc_rank (sh_pc s)) \<le> pc_rank (sh_pc (reader_step s))"
    using reader_step_forward [of s] by (cases "sh_pc s = Done") (auto simp: less_reader_pc_def)
  moreover have "sh_pc s = Done \<Longrightarrow> reader_step s = s" by (simp add: reader_step_def)
  moreover have "pc_rank (sh_pc s) = 6 \<Longrightarrow> sh_pc s = Done" by (cases "sh_pc s") simp_all
  ultimately show ?case using 2 by auto
next
  case (3 b es s)
  then show ?case by simp
qed

text \<open>What the call has delivered so far: nothing up to the statement that fetches, then one byte.\<close>

definition read_so_far :: "shared \<Rightarrow> shared \<Rightarrow> bool" where
  "read_so_far s0 s \<longleftrightarrow>
    (if sh_pc s \<le> Fetch then sh_got s = sh_got s0
     else if sh_pc s < Done then sh_got s = sh_got s0 @ [sh_byte s]
     else sh_ret s = 0 \<and> sh_got s = sh_got s0 @ [sh_byte s] \<or> sh_ret s = - 1 \<and> sh_got s = sh_got s0)"

lemma read_so_far_step: "read_so_far s0 s \<Longrightarrow> read_so_far s0 (reader_step s)"
  by (cases "sh_pc s") (auto simp: read_so_far_def reader_step_def less_eq_reader_pc_def less_reader_pc_def Let_def)

lemma read_so_far_isr: "read_so_far s0 s \<Longrightarrow> read_so_far s0 (usart1_rx_isr b s)"
  by (simp add: read_so_far_def usart1_rx_isr_def)

lemma read_events_so_far: "read_so_far s0 s \<Longrightarrow> read_so_far s0 (read_events es s)"
  by (induction es s rule: read_events.induct) (simp_all add: read_so_far_step read_so_far_isr)

section \<open>Properties\<close>

text \<open>C20. Whatever the interleaving of the interrupt with the statements of
  \<open>fifo_read_byte\<close>, neither side ever indexes outside the buffer: the head is below 64 at
  every statement, and the tail is below 64 whenever it is used as an index.\<close>

theorem isr_memory_safe:
  assumes "shared_reach en f s" and "length (f_buf f) = 64"
  shows "length (f_buf (sh_q s)) = 64 \<and> unat (f_head (sh_q s)) < 64 \<and>
    (sh_pc s = Fetch \<longrightarrow> unat (f_tail (sh_q s)) < 64)"
proof -
  have "shared_safe s" using assms by (rule shared_reach_safe)
  then show ?thesis
    by (auto simp: shared_safe_def u8_lt_64 [symmetric] order_le_less)
qed

theorem isr_memory_safe_witness:
  "unat (f_head (sh_q (usart1_rx_isr 7 (shared_init fifo_zero)))) < 64"
proof -
  have "shared_reach (\<lambda>_. True) fifo_zero (usart1_rx_isr 7 (shared_init fifo_zero))"
    by (rule shared_reach.step [OF shared_reach.start shared_step.irq]) simp
  from isr_memory_safe [OF this] show ?thesis by (simp add: fifo_zero_def initialize_fifo_def)
qed

text \<open>C21. If the interrupt were held off while a byte is read, no byte would be lost or
  reordered: between two reads the struct is well formed and the bytes accepted from the UART
  are exactly the bytes delivered followed by the bytes in the queue.\<close>

theorem guarded_no_loss:
  assumes "shared_reach between_reads f s" and "length (f_buf f) = 64" and "between_reads (sh_pc s)"
  shows "fifo_wf (sh_q s) \<and> sh_acc s = sh_got s @ fifo_list (sh_q s)"
  using guarded_reach [OF assms(1,2)] assms(3) by (simp add: guarded_inv_def shared_ok_def)

theorem guarded_no_loss_witness:
  "sh_acc (usart1_rx_isr 7 (shared_init fifo_zero)) = [7] \<and>
   fifo_list (sh_q (usart1_rx_isr 7 (shared_init fifo_zero))) = [7]"
proof -
  have "shared_reach between_reads fifo_zero (usart1_rx_isr 7 (shared_init fifo_zero))"
    by (rule shared_reach.step [OF shared_reach.start shared_step.irq])
      (simp add: between_reads_def shared_init_def)
  from guarded_no_loss [OF this] show ?thesis
    by (auto simp: between_reads_def shared_init_def usart1_rx_isr_def fifo_zero_def
        initialize_fifo_def fifo_accepts_def)
qed

text \<open>C22. A read returns whatever the interrupt does: after six of its own statements, with any number of
  interrupts before, between and after them, the call is over; it has delivered exactly one byte and returned 0, or
  none and returned -1.\<close>

theorem read_returns:
  assumes "sh_pc s = Check" and "6 \<le> length (filter ((=) Own) es)" and "s' = read_events es s"
  shows "sh_pc s' = Done \<and> (sh_ret s' = 0 \<and> sh_got s' = sh_got s @ [sh_byte s'] \<or> sh_ret s' = - 1 \<and> sh_got s' = sh_got s)"
proof -
  have "pc_rank (sh_pc s') = 6" using read_events_rank [of s es] assms by (cases "sh_pc s'") simp_all
  then have d: "sh_pc s' = Done" by (cases "sh_pc s'") simp_all
  have "read_so_far s s" using assms(1) by (simp add: read_so_far_def)
  with read_events_so_far [of s s es] d assms(3) show ?thesis
    by (auto simp: read_so_far_def less_eq_reader_pc_def)
qed

theorem read_returns_witness:
  "sh_got (read_events [Own, Irq 62, Own, Own, Own, Own, Irq 63, Own] (usart1_rx_isr 65 (shared_init fifo_zero))) = [65]"
proof -
  have "sh_pc (usart1_rx_isr 65 (shared_init fifo_zero)) = Check" by (simp add: shared_init_def)
  from read_returns [OF this, of "[Own, Irq 62, Own, Own, Own, Own, Irq 63, Own]"] show ?thesis
    by (simp add: reader_step_def usart1_rx_isr_def shared_init_def fifo_zero_def initialize_fifo_def
        fifo_write_byte_def fifo_accepts_def FIFO_SIZE_def Let_def)
qed

text \<open>As the code is written a byte can get stuck: the interrupt may store a byte after
  the reader has found the queue empty and before it writes \<open>FIFO_EMPTY\<close>. The reader is then
  at rest, the byte is in the buffer (the head is past the tail), the status says empty, and
  reading returns -1 although the byte was accepted and never delivered.\<close>

theorem isr_stuck_byte:
  "\<exists>s. shared_reach (\<lambda>_. True) fifo_zero s \<and> sh_pc s = Done \<and> sh_acc s = [65, 62] \<and> sh_got s = [65] \<and>
     f_head (sh_q s) = f_tail (sh_q s) + 1 \<and> fst (fifo_read_byte (sh_q s) 0) = - 1"
proof -
  define s1 where "s1 = usart1_rx_isr 65 (shared_init fifo_zero)"
  define s2 where "s2 = reader_step (reader_step (reader_step (reader_step (reader_step s1))))"
  define s3 where "s3 = reader_step (usart1_rx_isr 62 s2)"
  have run: "shared_reach (\<lambda>_. True) fifo_zero t \<Longrightarrow> shared_reach (\<lambda>_. True) fifo_zero (reader_step t)"
    and irq: "shared_reach (\<lambda>_. True) fifo_zero t \<Longrightarrow> shared_reach (\<lambda>_. True) fifo_zero (usart1_rx_isr b t)"
    for t b
    using reach_reader [of "\<lambda>_. True" fifo_zero t 1] by (auto intro: shared_reach.step shared_step.irq)
  have "shared_reach (\<lambda>_. True) fifo_zero s3"
    unfolding s3_def s2_def s1_def by (intro run irq shared_reach.start)
  moreover have "s1 = \<lparr>sh_q = \<lparr>f_buf = (replicate 64 0)[0 := 65], f_head = 1, f_tail = 0, f_status = FIFO_READY\<rparr>,
      sh_pc = Check, sh_byte = 0, sh_ret = 0, sh_got = [], sh_acc = [65]\<rparr>"
    by (simp add: s1_def usart1_rx_isr_def shared_init_def fifo_zero_def initialize_fifo_def
        fifo_write_byte_def fifo_accepts_def FIFO_SIZE_def)
  then have "s2 = \<lparr>sh_q = \<lparr>f_buf = (replicate 64 0)[0 := 65], f_head = 1, f_tail = 1, f_status = FIFO_READY\<rparr>,
      sh_pc = SetEmpty, sh_byte = 65, sh_ret = 0, sh_got = [65], sh_acc = [65]\<rparr>"
    by (simp add: s2_def reader_step_def FIFO_SIZE_def)
  then have "s3 = \<lparr>sh_q = \<lparr>f_buf = (replicate 64 0)[0 := 65, 1 := 62], f_head = 2, f_tail = 1,
      f_status = FIFO_EMPTY\<rparr>, sh_pc = Done, sh_byte = 65, sh_ret = 0, sh_got = [65], sh_acc = [65, 62]\<rparr>"
    by (simp add: s3_def reader_step_def usart1_rx_isr_def fifo_write_byte_def fifo_accepts_def FIFO_SIZE_def)
  ultimately show ?thesis
    by (intro exI [of _ s3]) (simp add: fifo_read_byte_def)
qed

end
