(* ===== verification/Fifo_Linear.thy ===== *)
theory Fifo_Linear
  imports Fifo_Isr
begin

text \<open>
  When an interrupt inside \<open>fifo_read_byte\<close> does no harm: apart from two windows the call behaves as if it
  ran at one moment, with the bytes of the interrupts before it and after it. The two windows are the
  moment between the comparison that finds the queue empty and the assignment of \<open>FIFO_EMPTY\<close>, and a queue
  that the interrupts fill after the tail was advanced; both lose bytes.
\<close>

section \<open>Interrupts that do no harm\<close>

text \<open>The bytes of the interrupts of a call, in order.\<close>

fun irq_bytes :: "read_event list \<Rightarrow> u8 list" where
  "irq_bytes [] = []"
| "irq_bytes (Own # es) = irq_bytes es"
| "irq_bytes (Irq b # es) = b # irq_bytes es"

text \<open>The queue once the rest of the call has run.\<close>

definition committed :: "shared \<Rightarrow> fifo_t" where
  "committed s = sh_q ((reader_step ^^ 3) s)"

text \<open>After the tail was advanced an interrupt must leave a place free (or find the queue full, which refuses
  the byte); it must not come before the assignment of \<open>FIFO_EMPTY\<close>.\<close>

definition irq_ok :: "shared \<Rightarrow> bool" where
  "irq_ok s \<longleftrightarrow> sh_pc s \<noteq> SetEmpty \<and>
     (sh_pc s \<in> {Wrap, Cmp} \<and> fifo_accepts (sh_q s) \<longrightarrow> fifo_count (committed s) < 63)"

fun calm :: "read_event list \<Rightarrow> shared \<Rightarrow> bool" where
  "calm [] s \<longleftrightarrow> True"
| "calm (Own # es) s \<longleftrightarrow> calm es (reader_step s)"
| "calm (Irq b # es) s \<longleftrightarrow> irq_ok s \<and> calm es (usart1_rx_isr b s)"

section \<open>The simulation\<close>

definition mid_read :: "shared \<Rightarrow> bool" where
  "mid_read s \<longleftrightarrow> Inc < sh_pc s \<and> sh_pc s < Done \<and> length (f_buf (sh_q s)) = 64 \<and> f_head (sh_q s) < 64 \<and>
     f_tail (sh_q s) \<le> 64 \<and> (f_tail (sh_q s) = 64 \<longrightarrow> sh_pc s = Wrap) \<and> f_status (sh_q s) \<noteq> FIFO_EMPTY \<and>
     (sh_pc s = SetEmpty \<longrightarrow> f_tail (sh_q s) = f_head (sh_q s))"

text \<open>The tail as it will be, and the queue of a read that has advanced it.\<close>

definition wrapped_tail :: "shared \<Rightarrow> u8" where
  "wrapped_tail s = (if sh_pc s = Wrap \<and> f_tail (sh_q s) = FIFO_SIZE then 0 else f_tail (sh_q s))"

lemma committed_mid:
  assumes "mid_read s"
  shows "committed s = (sh_q s)\<lparr>f_tail := wrapped_tail s,
    f_status := (if wrapped_tail s = f_head (sh_q s) then FIFO_EMPTY else f_status (sh_q s))\<rparr>"
  using assms by (cases "sh_pc s")
    (simp_all add: mid_read_def committed_def wrapped_tail_def numeral_3_eq_3 reader_step_def less_reader_pc_def)

lemma reader_step_mid:
  assumes "mid_read s"
  shows "mid_read (reader_step s) \<and> committed (reader_step s) = committed s \<and> sh_byte (reader_step s) = sh_byte s \<and>
      f_status (sh_q (reader_step s)) = f_status (sh_q s) \<or>
    sh_pc (reader_step s) = Done \<and> sh_q (reader_step s) = committed s \<and> sh_ret (reader_step s) = 0 \<and>
      sh_byte (reader_step s) = sh_byte s"
proof (cases "sh_pc s")
  case Wrap
  have "f_tail (sh_q s) \<noteq> 64 \<Longrightarrow> f_tail (sh_q s) < 64" using assms by (simp add: mid_read_def order_le_less)
  with Wrap assms show ?thesis
    by (auto simp: mid_read_def committed_def numeral_3_eq_3 reader_step_def less_reader_pc_def FIFO_SIZE_def)
next
  case Cmp
  with assms show ?thesis
    by (auto simp: mid_read_def committed_def numeral_3_eq_3 reader_step_def less_reader_pc_def)
next
  case SetEmpty
  with assms show ?thesis
    by (auto simp: mid_read_def committed_def numeral_3_eq_3 reader_step_def less_reader_pc_def)
qed (use assms in \<open>simp_all add: mid_read_def less_reader_pc_def\<close>)

lemma isr_mid_full:
  assumes "mid_read s" and "\<not> fifo_accepts (sh_q s)"
  shows "sh_q (usart1_rx_isr b s) = sh_q s" and "mid_read (usart1_rx_isr b s)"
    and "committed (usart1_rx_isr b s) = committed s"
proof -
  show q: "sh_q (usart1_rx_isr b s) = sh_q s" using assms(2) by (simp add: usart1_rx_isr_def fifo_write_refused)
  then show m: "mid_read (usart1_rx_isr b s)" using assms(1) by (simp add: mid_read_def)
  from q show "committed (usart1_rx_isr b s) = committed s"
    by (simp add: committed_mid [OF m] committed_mid [OF assms(1)] wrapped_tail_def)
qed

text \<open>With a place to spare the byte goes where it would go after the read.\<close>

lemma isr_mid_ready:
  assumes m: "mid_read s" and acc: "fifo_accepts (sh_q s)" and ok: "irq_ok s" and wf: "fifo_wf (committed s)"
  shows "mid_read (usart1_rx_isr b s)" and "fifo_accepts (sh_q (usart1_rx_isr b s))"
    and "committed (usart1_rx_isr b s) = snd (fifo_write_byte (committed s) b)"
proof -
  let ?q = "sh_q s" and ?t = "wrapped_tail s"
  define h where "h = (if f_head ?q + 1 = FIFO_SIZE then 0 else f_head ?q + 1)"
  have st: "f_status ?q = FIFO_READY" using m acc by (cases "f_status ?q") (auto simp: mid_read_def fifo_accepts_def)
  have pc: "sh_pc s = Wrap \<or> sh_pc s = Cmp" using m ok by (cases "sh_pc s") (auto simp: mid_read_def irq_ok_def less_reader_pc_def)
  have b: "f_head ?q < 64" "?t < 64" using m wf by (auto simp: mid_read_def fifo_wf_def committed_mid [OF m])
  have cnt: "fifo_count (committed s) < 63" using ok pc acc by (auto simp: irq_ok_def)
  have h64: "h < 64" unfolding h_def by (rule next_index_lt [OF b(1)])
  have ht: "h \<noteq> ?t"
  proof
    assume "h = ?t"
    then have t: "unat ?t = (unat (f_head ?q) + 1) mod 64" unfolding h_def using next_index [OF b(1)] by simp
    have u: "unat (f_head ?q) < 64" using b(1) by (simp add: u8_lt_64)
    have ring: "unat ?t \<noteq> unat (f_head ?q) \<and> (unat (f_head ?q) + 64 - unat ?t) mod 64 = 63"
      using u t by (cases "unat (f_head ?q) = 63") simp_all
    then have "f_head ?q \<noteq> ?t" by auto
    then have "fifo_count (committed s) = (unat (f_head ?q) + 64 - unat ?t) mod 64"
      using st by (simp add: fifo_count_def committed_mid [OF m])
    also have "\<dots> = 63" using ring by simp
    finally show False using cnt by simp
  qed
  have hq: "h \<noteq> f_tail ?q"
  proof (cases "f_tail ?q = 64")
    case True
    with h64 show ?thesis by auto
  next
    case False
    with ht pc show ?thesis by (auto simp: wrapped_tail_def FIFO_SIZE_def)
  qed
  have q': "sh_q (usart1_rx_isr b s) = ?q\<lparr>f_buf := (f_buf ?q)[unat (f_head ?q) := b], f_head := h, f_status := FIFO_READY\<rparr>"
    using st hq by (simp add: usart1_rx_isr_def fifo_write_byte_def h_def)
  then show m': "mid_read (usart1_rx_isr b s)" using m pc h64 by (auto simp: mid_read_def)
  show "fifo_accepts (sh_q (usart1_rx_isr b s))" by (simp add: q' fifo_accepts_def)
  have "snd (fifo_write_byte (committed s) b) =
      ?q\<lparr>f_buf := (f_buf ?q)[unat (f_head ?q) := b], f_head := h, f_tail := ?t, f_status := FIFO_READY\<rparr>"
    using st ht by (simp add: fifo_write_byte_def committed_mid [OF m] h_def)
  moreover have "wrapped_tail (usart1_rx_isr b s) = ?t" by (simp add: wrapped_tail_def q')
  ultimately show "committed (usart1_rx_isr b s) = snd (fifo_write_byte (committed s) b)"
    using ht by (simp add: committed_mid [OF m'] q')
qed

text \<open>A call that began on the queue \<open>q0\<close> with \<open>x\<close> in its variable, after the interrupts \<open>bs\<close>: up to the
  increment of the tail it has only looked; from then on it has read the queue as it was after \<open>bs1\<close>, and
  the other bytes came afterwards.\<close>

definition read_at :: "fifo_t \<Rightarrow> u8 \<Rightarrow> u8 list \<Rightarrow> u8 list \<Rightarrow> u8 \<times> u8 \<times> fifo_t" where
  "read_at q0 x bs1 bs2 = (let (r, b, q) = fifo_read_byte (fifo_q.feed q0 bs1) x in (r, b, fifo_q.feed q bs2))"

definition linear :: "fifo_t \<Rightarrow> u8 \<Rightarrow> u8 list \<Rightarrow> shared \<Rightarrow> bool" where
  "linear q0 x bs s \<longleftrightarrow>
    (if sh_pc s \<le> Inc then
       sh_q s = fifo_q.feed q0 bs \<and> (sh_pc s \<noteq> Check \<longrightarrow> \<not> fifo_is_empty (sh_q s)) \<and>
       sh_byte s = (if sh_pc s = Inc then hd (fifo_list (sh_q s)) else x)
     else if sh_pc s < Done then
       mid_read s \<and> (\<exists>bs1 bs2. bs = bs1 @ bs2 \<and> read_at q0 x bs1 bs2 = (0, sh_byte s, committed s) \<and>
         (\<not> fifo_accepts (sh_q s) \<longrightarrow> bs2 = [] \<and> \<not> fifo_accepts (fifo_q.feed q0 bs1)))
     else (\<exists>bs1 bs2. bs = bs1 @ bs2 \<and> read_at q0 x bs1 bs2 = (sh_ret s, sh_byte s, sh_q s)))"

lemma linear_look:
  assumes "linear q0 x bs s" and p: "sh_pc s \<le> Inc"
  shows "sh_q s = fifo_q.feed q0 bs \<and> (sh_pc s \<noteq> Check \<longrightarrow> \<not> fifo_is_empty (sh_q s)) \<and>
    sh_byte s = (if sh_pc s = Inc then hd (fifo_list (sh_q s)) else x)"
  using assms(1) unfolding linear_def if_P [OF p] .

lemma linear_midI:
  "\<lbrakk>mid_read s; read_at q0 x bs1 bs2 = (0, sh_byte s, committed s);
    \<not> fifo_accepts (sh_q s) \<Longrightarrow> bs2 = [] \<and> \<not> fifo_accepts (fifo_q.feed q0 bs1)\<rbrakk> \<Longrightarrow> linear q0 x (bs1 @ bs2) s"
  by (auto simp: linear_def mid_read_def)

lemma linear_DoneI: "sh_pc s = Done \<Longrightarrow> read_at q0 x bs1 bs2 = (sh_ret s, sh_byte s, sh_q s) \<Longrightarrow> linear q0 x (bs1 @ bs2) s"
  by (auto simp: linear_def less_eq_reader_pc_def)

lemma linear_midE:
  assumes "linear q0 x bs s" and "Inc < sh_pc s" and "sh_pc s < Done"
  obtains bs1 bs2 where "mid_read s" "bs = bs1 @ bs2" "read_at q0 x bs1 bs2 = (0, sh_byte s, committed s)"
    "\<not> fifo_accepts (sh_q s) \<Longrightarrow> bs2 = [] \<and> \<not> fifo_accepts (fifo_q.feed q0 bs1)"
proof -
  have "\<not> sh_pc s \<le> Inc" using assms(2) by (simp add: not_le)
  with assms(1,3) that show thesis unfolding linear_def by auto
qed

lemma linear_DoneE:
  assumes "linear q0 x bs s" and "sh_pc s = Done"
  obtains bs1 bs2 where "bs = bs1 @ bs2" "read_at q0 x bs1 bs2 = (sh_ret s, sh_byte s, sh_q s)"
  using assms by (auto simp: linear_def less_eq_reader_pc_def)

lemma read_at_wf: "fifo_wf q0 \<Longrightarrow> fifo_wf (snd (snd (read_at q0 x bs1 bs2)))"
  by (auto simp: read_at_def fifo_q.inv_feed split: prod.split intro!: fifo_q.inv_feed)
    (metis fifo_q.inv_feed fifo_read_wf snd_conv)

lemma read_at_snoc: "read_at q0 x bs1 (bs2 @ [b]) =
    (let (r, c, q) = read_at q0 x bs1 bs2 in (r, c, snd (fifo_write_byte q b)))"
  by (simp add: read_at_def fifo_q.feed_append split: prod.split)

lemma fifo_read_hd: "fifo_wf q \<Longrightarrow> \<not> fifo_is_empty q \<Longrightarrow> fst (snd (fifo_read_byte q x)) = hd (fifo_list q)"
  using fifo_q.deq_list [of q x] by (metis list.sel(1))

lemma linear_mid:
  assumes l: "linear q0 x bs s" and pc: "Inc < sh_pc s" "sh_pc s < Done"
  shows "linear q0 x bs (reader_step s)"
proof -
  from linear_midE [OF l pc] obtain bs1 bs2 where b: "mid_read s" "bs = bs1 @ bs2"
    "read_at q0 x bs1 bs2 = (0, sh_byte s, committed s)"
    "\<not> fifo_accepts (sh_q s) \<Longrightarrow> bs2 = [] \<and> \<not> fifo_accepts (fifo_q.feed q0 bs1)" by metis
  from reader_step_mid [OF b(1)] b(3,4) show ?thesis unfolding b(2)
    by (auto simp: fifo_accepts_def intro: linear_midI linear_DoneI)
qed

lemma linear_step:
  assumes wf: "fifo_wf q0" and l: "linear q0 x bs s"
  shows "linear q0 x bs (reader_step s)"
proof (cases "sh_pc s")
  case Check
  with l have q: "sh_q s = fifo_q.feed q0 bs" "sh_byte s = x" by (simp_all add: linear_def)
  show ?thesis
  proof (cases "f_status (sh_q s) = FIFO_EMPTY")
    case True
    then have "read_at q0 x bs [] = (- 1, x, sh_q s)" using q by (simp add: read_at_def fifo_read_byte_def)
    with Check True q show ?thesis
      using linear_DoneI [of "reader_step s" q0 x bs "[]"] by (simp add: reader_step_def)
  next
    case False
    with Check q show ?thesis
      by (simp add: linear_def reader_step_def less_eq_reader_pc_def fifo_is_empty_def)
  qed
next
  case Fetch
  with linear_look [OF l] have q: "sh_q s = fifo_q.feed q0 bs" "\<not> fifo_is_empty (sh_q s)"
    unfolding Fetch by (auto simp: less_eq_reader_pc_def)
  have "f_buf (sh_q s) ! unat (f_tail (sh_q s)) = hd (fifo_list (sh_q s))"
    using fifo_read_hd [OF fifo_q.inv_feed [OF wf] q(2) [unfolded q(1)], of x] q
    by (simp add: fifo_read_byte_def fifo_is_empty_def Let_def)
  with Fetch q show ?thesis by (simp add: linear_def reader_step_def less_eq_reader_pc_def Let_def)
next
  case Inc
  with linear_look [OF l] have q: "sh_q s = fifo_q.feed q0 bs" "\<not> fifo_is_empty (sh_q s)" "sh_byte s = hd (fifo_list (sh_q s))"
    unfolding Inc by auto
  let ?s = "reader_step s"
  have qwf: "fifo_wf (sh_q s)" unfolding q(1) by (rule fifo_q.inv_feed [OF wf])
  have m: "mid_read ?s"
    using Inc q(2) qwf tail_inc [of "f_tail (sh_q s)"]
    by (auto simp: mid_read_def reader_step_def less_reader_pc_def fifo_wf_def fifo_is_empty_def)
  have st: "f_status (sh_q ?s) = f_status (sh_q s)" "sh_byte ?s = sh_byte s" using Inc by (simp_all add: reader_step_def)
  have "committed ?s = snd (snd (fifo_read_byte (sh_q s) x))"
    unfolding committed_mid [OF m] using Inc q(2)
    by (simp add: wrapped_tail_def reader_step_def fifo_read_byte_def fifo_is_empty_def Let_def)
  moreover have "fst (fifo_read_byte (sh_q s) x) = 0" using q(2) by (rule fifo_read_ret)
  ultimately have "read_at q0 x bs [] = (0, sh_byte s, committed ?s)"
    using fifo_read_hd [OF qwf q(2), of x] q by (cases "fifo_read_byte (sh_q s) x") (simp add: read_at_def)
  with linear_midI [OF m, of q0 x bs "[]"] st q(1) show ?thesis by (simp add: fifo_accepts_def)
next
  case Done
  with l show ?thesis by (simp add: reader_step_def)
qed (use linear_mid [OF l] in \<open>simp_all add: less_reader_pc_def\<close>)

lemma linear_isr:
  assumes wf: "fifo_wf q0" and l: "linear q0 x bs s" and ok: "irq_ok s"
  shows "linear q0 x (bs @ [b]) (usart1_rx_isr b s)"
proof -
  let ?s = "usart1_rx_isr b s"
  have pcs: "sh_pc ?s = sh_pc s" "sh_byte ?s = sh_byte s" "sh_ret ?s = sh_ret s"
    and q': "sh_q ?s = snd (fifo_write_byte (sh_q s) b)"
    by (simp_all add: usart1_rx_isr_def)
  consider "sh_pc s \<le> Inc" | "Inc < sh_pc s" "sh_pc s < Done" | "sh_pc s = Done"
    using pc_le_Done [of "sh_pc s"] by (meson not_le order_le_less)
  then show ?thesis
  proof cases
    case 1
    then have q: "sh_q s = fifo_q.feed q0 bs" "sh_pc s \<noteq> Check \<longrightarrow> \<not> fifo_is_empty (sh_q s)"
      "sh_byte s = (if sh_pc s = Inc then hd (fifo_list (sh_q s)) else x)"
      using linear_look [OF l] by auto
    have qwf: "fifo_wf (sh_q s)" unfolding q(1) by (rule fifo_q.inv_feed [OF wf])
    have fd: "sh_q ?s = fifo_q.feed q0 (bs @ [b])" by (simp add: q' q(1) fifo_q.feed_append)
    have keep: "fifo_list (sh_q ?s) = fifo_list (sh_q s) \<or> fifo_list (sh_q ?s) = fifo_list (sh_q s) @ [b]"
      unfolding q' by (cases "fifo_accepts (sh_q s)") (simp_all add: fifo_write_refused fifo_write_list [OF qwf])
    have "sh_pc s \<noteq> Check \<longrightarrow> \<not> fifo_is_empty (sh_q ?s) \<and> hd (fifo_list (sh_q ?s)) = hd (fifo_list (sh_q s))"
      using q(2) keep fifo_empty_iff [OF qwf] fifo_empty_iff [OF fifo_write_wf [OF qwf, of b]] unfolding q' by auto
    with 1 q(3) fd pcs show ?thesis by (auto simp: linear_def)
  next
    case 2
    from linear_midE [OF l 2] obtain bs1 bs2 where m: "mid_read s" and r: "bs = bs1 @ bs2"
      "read_at q0 x bs1 bs2 = (0, sh_byte s, committed s)"
      "\<not> fifo_accepts (sh_q s) \<Longrightarrow> bs2 = [] \<and> \<not> fifo_accepts (fifo_q.feed q0 bs1)" by metis
    have cwf: "fifo_wf (committed s)" using read_at_wf [OF wf, of x bs1 bs2] r(2) by simp
    show ?thesis
    proof (cases "fifo_accepts (sh_q s)")
      case True
      note i = isr_mid_ready [OF m True ok cwf, of b]
      have "read_at q0 x bs1 (bs2 @ [b]) = (0, sh_byte s, committed ?s)" by (simp add: read_at_snoc r(2) i(3))
      from linear_midI [OF i(1), of q0 x bs1 "bs2 @ [b]"] this i(2) r(1) pcs show ?thesis by simp
    next
      case False
      note i = isr_mid_full [OF m False, of b]
      from r(3) [OF False] have n: "bs2 = []" "\<not> fifo_accepts (fifo_q.feed q0 bs1)" by auto
      then have fd: "fifo_q.feed q0 (bs1 @ [b]) = fifo_q.feed q0 bs1" by (simp add: fifo_q.feed_append fifo_write_refused)
      then have "read_at q0 x (bs1 @ [b]) [] = (0, sh_byte s, committed ?s)" using r(2) n(1) i(3) by (simp add: read_at_def)
      from linear_midI [OF i(2), of q0 x "bs1 @ [b]" "[]"] this n fd r(1) pcs show ?thesis by simp
    qed
  next
    case 3
    from linear_DoneE [OF l 3] obtain bs1 bs2 where r: "bs = bs1 @ bs2" "read_at q0 x bs1 bs2 = (sh_ret s, sh_byte s, sh_q s)" .
    then have "read_at q0 x bs1 (bs2 @ [b]) = (sh_ret s, sh_byte s, sh_q ?s)" by (simp add: read_at_snoc q')
    with linear_DoneI [of ?s q0 x bs1 "bs2 @ [b]"] 3 r(1) pcs show ?thesis by simp
  qed
qed

lemma linear_events:
  assumes wf: "fifo_wf q0"
  shows "linear q0 x bs s \<Longrightarrow> calm es s \<Longrightarrow> linear q0 x (bs @ irq_bytes es) (read_events es s)"
proof (induction es s arbitrary: bs rule: read_events.induct)
  case (2 es s)
  then show ?case using linear_step [OF wf] by simp
next
  case (3 b es s)
  then show ?case using linear_isr [OF wf, of x bs s b] by fastforce
qed simp

section \<open>Properties\<close>

text \<open>C14. An interrupted read is a read. If each interrupt inside a call of \<open>fifo_read_byte\<close> is harmless (\<open>calm\<close>), the
  call returns, delivers and leaves in the queue exactly what the uninterrupted call does between the interrupts that came
  before some moment of it and those that came after.\<close>

theorem read_linearizes:
  assumes "fifo_wf (sh_q s)" and "sh_pc s = Check" and "6 \<le> length (filter ((=) Own) es)" and "calm es s"
    and "s' = read_events es s"
  shows "\<exists>bs1 bs2. irq_bytes es = bs1 @ bs2 \<and>
    (let (r, b, q) = fifo_read_byte (snd (fifo_writen (sh_q s) bs1)) (sh_byte s)
     in sh_ret s' = r \<and> sh_byte s' = b \<and> sh_q s' = snd (fifo_writen q bs2))"
proof -
  have "pc_rank (sh_pc s') = 6" using read_events_rank [of s es] assms(2,3,5) by (cases "sh_pc s'") simp_all
  then have d: "sh_pc s' = Done" by (cases "sh_pc s'") simp_all
  have "linear (sh_q s) (sh_byte s) [] s" using assms(2) by (simp add: linear_def)
  from linear_events [OF assms(1) this assms(4)] have "linear (sh_q s) (sh_byte s) (irq_bytes es) s'" by (simp add: assms(5))
  then obtain bs1 bs2 where "irq_bytes es = bs1 @ bs2" "read_at (sh_q s) (sh_byte s) bs1 bs2 = (sh_ret s', sh_byte s', sh_q s')"
    using d by (rule linear_DoneE)
  then show ?thesis
    by (intro exI [of _ bs1] exI [of _ bs2]) (auto simp: read_at_def fifo_writen_feed split: prod.splits)
qed

theorem read_linearizes_witness:
  "\<exists>s s' bs1 bs2. s' = read_events [Own, Irq 62, Own, Own, Own, Irq 63, Own, Own] s \<and> [62, 63] = bs1 @ bs2 \<and>
    (let (r, b, q) = fifo_read_byte (snd (fifo_writen (sh_q s) bs1)) (sh_byte s)
     in sh_ret s' = r \<and> sh_byte s' = b \<and> sh_q s' = snd (fifo_writen q bs2)) \<and>
    fifo_list (sh_q s) = [65] \<and> sh_byte s' = 65 \<and> fifo_list (sh_q s') = [62, 63]"
proof -
  let ?s = "usart1_rx_isr 65 (shared_init fifo_zero)" and ?es = "[Own, Irq 62, Own, Own, Own, Irq 63, Own, Own]"
  have q: "?s = \<lparr>sh_q = \<lparr>f_buf = (replicate 64 0)[0 := 65], f_head = 1, f_tail = 0, f_status = FIFO_READY\<rparr>, sh_pc = Check,
      sh_byte = 0, sh_ret = 0, sh_got = [], sh_acc = [65]\<rparr>"
    by (simp add: shared_init_def usart1_rx_isr_def fifo_zero_def initialize_fifo_def fifo_write_byte_def fifo_accepts_def FIFO_SIZE_def)
  have wf: "fifo_wf (sh_q ?s)" and s: "sh_pc ?s = Check" and ok: "6 \<le> length (filter ((=) Own) ?es)"
    unfolding q by (simp_all add: fifo_wf_def)
  have calm: "calm ?es ?s" unfolding q by code_simp
  have l: "fifo_list (sh_q ?s) = [65]" "sh_byte (read_events ?es ?s) = 65" "fifo_list (sh_q (read_events ?es ?s)) = [62, 63]"
    unfolding q by code_simp+
  from read_linearizes [OF wf s ok calm refl] l show ?thesis
    by (intro exI [of _ ?s] exI [of _ "read_events ?es ?s"]) simp
qed

section \<open>The second window\<close>

text \<open>With 63 bytes in the queue two interrupts between the increment and the comparison fill it; the comparison
  then takes the full queue for an empty one, and all 64 bytes are gone.\<close>

theorem fifo_overrun_loses:
  assumes "fifo_wf (sh_q s)" and "sh_pc s = Check" and "fifo_accepts (sh_q s)" and "fifo_count (sh_q s) = 63"
    and "s' = read_events [Own, Own, Own, Own, Irq a, Irq b, Own, Own] s"
  shows "sh_pc s' = Done \<and> sh_acc s' = sh_acc s @ [a, b] \<and> sh_got s' = sh_got s @ [sh_byte s'] \<and> fifo_list (sh_q s') = []"
proof -
  let ?q = "sh_q s" and ?next = "\<lambda>h :: u8. if h + 1 = FIFO_SIZE then 0 else h + 1"
  have st: "f_status ?q = FIFO_READY" "f_head ?q \<noteq> f_tail ?q"
    using assms(1,3,4) by (cases "f_status ?q"; auto simp: fifo_accepts_def fifo_count_def fifo_wf_def)+
  have b: "f_head ?q < 64" "f_tail ?q < 64" using assms(1) by (simp_all add: fifo_wf_def)
  have c: "(unat (f_head ?q) + 64 - unat (f_tail ?q)) mod 64 = 63" using assms(4) st by (simp add: fifo_count_def)
  have ring: "(h + 64 - t) mod 64 = 63 \<Longrightarrow> h < 64 \<Longrightarrow> t < 64 \<Longrightarrow> (h + 1) mod 64 = t" for h t :: nat
    by (cases "t \<le> h") (auto simp: mod64_if split: if_splits)
  have h: "?next (f_head ?q) = f_tail ?q"
    using ring [OF c] b next_index [OF b(1)] by (simp add: word_unat_eq_iff u8_lt_64)
  have nt: "?next (f_tail ?q) \<noteq> f_tail ?q"
  proof
    assume e: "?next (f_tail ?q) = f_tail ?q"
    have "(unat (f_tail ?q) + 1) mod 64 = unat (f_tail ?q)" using next_index [OF b(2)] unfolding e by simp
    moreover have "unat (f_tail ?q) < 64" using b(2) by (simp add: u8_lt_64)
    ultimately show False by (cases "unat (f_tail ?q) = 63") simp_all
  qed
  have 1: "(reader_step ^^ 4) s = s\<lparr>sh_q := ?q\<lparr>f_tail := ?next (f_tail ?q)\<rparr>, sh_pc := Cmp,
      sh_byte := f_buf ?q ! unat (f_tail ?q), sh_got := sh_got s @ [f_buf ?q ! unat (f_tail ?q)]\<rparr>"
    using assms(2) st(1) by (simp add: numeral_eq_Suc reader_step_def Let_def)
  define c where "c = (reader_step ^^ 4) s"
  have c: "sh_pc c = Cmp" "sh_q c = ?q\<lparr>f_tail := ?next (f_tail ?q)\<rparr>" "sh_acc c = sh_acc s" "sh_got c = sh_got s @ [sh_byte c]"
    unfolding c_def 1 by simp_all
  define c2 where "c2 = usart1_rx_isr b (usart1_rx_isr a c)"
  have "f_status (sh_q (usart1_rx_isr a c)) = FIFO_READY" "f_head (sh_q (usart1_rx_isr a c)) = f_tail ?q"
    using st(1) h nt by (simp_all add: usart1_rx_isr_def fifo_write_byte_def c(2) Let_def)
  then have c2: "sh_pc c2 = Cmp" "f_head (sh_q c2) = f_tail (sh_q c2)" "sh_acc c2 = sh_acc s @ [a, b]" "sh_got c2 = sh_got c"
      "sh_byte c2 = sh_byte c"
    using st(1) by (simp_all add: c2_def c usart1_rx_isr_def fifo_write_byte_def fifo_accepts_def Let_def)
  have "s' = reader_step (reader_step c2)" by (simp add: assms(5) c2_def c_def numeral_eq_Suc)
  with c2 c(4) show ?thesis by (simp add: reader_step_def fifo_list_def fifo_count_def)
qed

theorem fifo_overrun_loses_witness:
  "let s = \<lparr>sh_q = \<lparr>f_buf = replicate 64 7, f_head = 63, f_tail = 0, f_status = FIFO_READY\<rparr>, sh_pc = Check, sh_byte = 0,
       sh_ret = 0, sh_got = [], sh_acc = []\<rparr>;
     s' = read_events [Own, Own, Own, Own, Irq 1, Irq 2, Own, Own] s
   in fifo_count (sh_q s) = 63 \<and> sh_pc s' = Done \<and> sh_acc s' = [1, 2] \<and> fifo_list (sh_q s') = []"
proof -
  let ?s = "\<lparr>sh_q = \<lparr>f_buf = replicate 64 7, f_head = 63, f_tail = 0, f_status = FIFO_READY\<rparr>, sh_pc = Check, sh_byte = 0,
       sh_ret = 0, sh_got = [], sh_acc = []\<rparr>"
  have c: "fifo_wf (sh_q ?s)" "sh_pc ?s = Check" "fifo_accepts (sh_q ?s)" "fifo_count (sh_q ?s) = 63"
    by (simp_all add: fifo_wf_def fifo_accepts_def fifo_count_def)
  from fifo_overrun_loses [OF c refl, of 1 2] c(4) show ?thesis by (simp add: Let_def)
qed

end
