(* ===== verification/Elm_Isr.thy ===== *)
theory Elm_Isr
  imports Elm Fifo_Linear
begin

text \<open>
  \<open>elm_read\<close> of src/elm.c at the grain of \<open>Fifo_Isr\<close>: the receive interrupt comes between two polls of the
  status and also between the statements of \<open>fifo_read_byte\<close>. \<open>Elm\<close> has the same functions with the
  interrupt at the polls only. The environment gives, for each poll, the bytes that arrive before it and
  what happens until the next one.
\<close>

section \<open>The loop\<close>

text \<open>A call of \<open>fifo_read_byte\<close> with the events \<open>es\<close>; it runs to its end.\<close>

definition read_call :: "fifo_t \<Rightarrow> u8 \<Rightarrow> read_event list \<Rightarrow> shared" where
  "read_call f ch es = read_events (es @ replicate 6 Own)
     \<lparr>sh_q = f, sh_pc = Check, sh_byte = ch, sh_ret = 0, sh_got = [], sh_acc = []\<rparr>"

text \<open>When the status says empty no call is made, and of the events only the interrupts happen.\<close>

partial_function (option) elm_isr_loop ::
  "('e \<Rightarrow> (u8 list \<times> read_event list) \<times> 'e) \<Rightarrow> nat \<Rightarrow> nat \<Rightarrow> u8 \<Rightarrow> u8 \<Rightarrow> u8 list \<Rightarrow> 'e elm_world \<Rightarrow>
    (u8 \<times> u8 list \<times> 'e elm_world) option" where
  "elm_isr_loop rx len cur ret ch mem w =
    (if len = 0 then Some (ret, mem, w)
     else do {
       ((bs, es), e) \<leftarrow> Some (rx (ew_env w));
       f \<leftarrow> Some (snd (fifo_writen (ew_fifo w) bs));
       if f_status f = FIFO_EMPTY
       then elm_isr_loop rx len cur ret ch mem (w\<lparr>ew_fifo := snd (fifo_writen f (irq_bytes es)), ew_env := e\<rparr>)
       else do {
         s \<leftarrow> Some (read_call f ch es);
         w \<leftarrow> Some (w\<lparr>ew_fifo := sh_q s, ew_env := e\<rparr>);
         mem \<leftarrow> (if Suc cur < length mem then Some (mem[cur := sh_byte s]) else None);
         mem \<leftarrow> Some (mem[Suc cur := 0]);
         if elm_response_complete mem then Some (ret + 1, mem, w)
         else elm_isr_loop rx (len - 1) (Suc cur) (ret + 1) (sh_byte s) mem w
       }
     })"

definition elm_isr_read ::
  "('e \<Rightarrow> (u8 list \<times> read_event list) \<times> 'e) \<Rightarrow> u8 list \<Rightarrow> nat \<Rightarrow> 'e elm_world \<Rightarrow> (int \<times> u8 list \<times> 'e elm_world) option" where
  "elm_isr_read rx mem len w =
    do {
      (ret, mem, w) \<leftarrow> elm_isr_loop rx len 0 0 0 (replicate len 0 @ drop len mem) w;
      Some (uint ret, mem, w)
    }"

definition elm_isr_command ::
  "('e \<Rightarrow> (u8 list \<times> read_event list) \<times> 'e) \<Rightarrow> u8 list \<Rightarrow> u8 list \<Rightarrow> nat \<Rightarrow> 'e elm_world \<Rightarrow>
    (int \<times> u8 list \<times> 'e elm_world) option" where
  "elm_isr_command rx cmd mem sz w =
    (let (r, w) = elm_write cmd w
     in if r < 0 then Some (- 1, mem, w) else elm_isr_read rx mem sz w)"

section \<open>Interrupts that stay out of the window\<close>

text \<open>No interrupt comes between the fifth and the sixth statement of a call, the comparison and the
  assignment of \<open>FIFO_EMPTY\<close>; \<open>k\<close> statements have run.\<close>

fun window_free :: "nat \<Rightarrow> read_event list \<Rightarrow> bool" where
  "window_free k [] \<longleftrightarrow> True"
| "window_free k (Own # es) \<longleftrightarrow> window_free (Suc k) es"
| "window_free k (Irq b # es) \<longleftrightarrow> k \<noteq> 5 \<and> window_free k es"

definition reader_pos :: "nat \<Rightarrow> shared \<Rightarrow> bool" where
  "reader_pos k s \<longleftrightarrow> (if k < 5 then pc_rank (sh_pc s) = k else if k = 5 then 5 \<le> pc_rank (sh_pc s) else sh_pc s = Done)"

lemma reader_pos_step:
  assumes "reader_pos k s" and "sh_pc s = Check \<Longrightarrow> \<not> fifo_is_empty (sh_q s)"
  shows "reader_pos (Suc k) (reader_step s)"
proof (cases "sh_pc s")
  case Check
  with assms show ?thesis by (auto simp: reader_pos_def reader_step_def fifo_is_empty_def split: if_splits)
qed (use assms(1) in \<open>auto simp: reader_pos_def reader_step_def Let_def split: if_splits\<close>)

lemma reader_pos_window: "reader_pos k s \<Longrightarrow> sh_pc s = SetEmpty \<Longrightarrow> k = 5"
  by (auto simp: reader_pos_def split: if_splits)

text \<open>With room in the queue a linearised read takes the first byte and keeps the rest in order.\<close>

lemma read_at_fits:
  assumes wf: "fifo_wf q0" and acc: "fifo_accepts q0" and fits: "length (fifo_list q0) + length (bs1 @ bs2) < 64"
    and ne: "fifo_list q0 \<noteq> []"
  obtains q where "read_at q0 x bs1 bs2 = (0, hd (fifo_list q0), q)" "fifo_wf q" "fifo_accepts q"
    "fifo_list q = tl (fifo_list q0) @ bs1 @ bs2"
proof -
  let ?f = "fifo_q.feed q0 bs1"
  have f: "fifo_wf ?f" "fifo_accepts ?f" "fifo_list ?f = fifo_list q0 @ bs1"
    using fifo_q.feed_fits [OF wf acc, of bs1] fits fifo_q.inv_feed [OF wf] by simp_all
  have nf: "\<not> fifo_is_empty ?f" using fifo_empty_iff [OF f(1)] f(3) ne by simp
  obtain r b q where r: "fifo_read_byte ?f x = (r, b, q)" by (cases "fifo_read_byte ?f x") auto
  have l: "r = 0" "fifo_list ?f = b # fifo_list q" "fifo_wf q" "fifo_accepts q"
    using fifo_read_ret [OF nf, of x] fifo_q.deq_list [OF f(1) nf, of x] fifo_read_wf [OF f(1), of x]
      fifo_q.deq_accepts [OF f(1) nf, of x] f(2) r by simp_all
  have q: "b = hd (fifo_list q0)" "fifo_list q = tl (fifo_list q0) @ bs1"
    using l(2) f(3) ne by (cases "fifo_list q0"; simp)+
  have len: "length (fifo_list q) + length bs2 < 64" using arg_cong [OF q(2), of length] fits by simp
  from that [of "fifo_q.feed q bs2"] fifo_q.feed_fits [OF l(3,4) len] fifo_q.inv_feed [OF l(3)] l(1) q r
  show thesis by (simp add: read_at_def)
qed

lemma calm_fits:
  assumes wf: "fifo_wf q0" and acc: "fifo_accepts q0" and ne: "fifo_list q0 \<noteq> []"
  shows "\<lbrakk>linear q0 x bs s; reader_pos k s; window_free k es; length (fifo_list q0) + length (bs @ irq_bytes es) < 64\<rbrakk> \<Longrightarrow>
    calm es s"
proof (induction es arbitrary: bs s k)
  case (Cons e es)
  show ?case
  proof (cases e)
    case Own
    have "\<not> fifo_is_empty (sh_q s)" if "sh_pc s = Check"
    proof -
      have q: "sh_q s = fifo_q.feed q0 bs" using linear_look [OF Cons.prems(1)] that by simp
      have "fifo_list (sh_q s) = fifo_list q0 @ bs"
        using fifo_q.feed_fits [OF wf acc, of bs] Cons.prems(4) unfolding q by simp
      with ne fifo_empty_iff [OF fifo_q.inv_feed [OF wf]] q show ?thesis by simp
    qed
    from Cons.IH [OF linear_step [OF wf Cons.prems(1)] reader_pos_step [OF Cons.prems(2) this]] Cons.prems(3,4)
    show ?thesis by (simp add: Own)
  next
    case (Irq b)
    have ok: "irq_ok s"
      unfolding irq_ok_def
    proof (intro conjI impI)
      show "sh_pc s \<noteq> SetEmpty" using reader_pos_window [OF Cons.prems(2)] Cons.prems(3) Irq by auto
      assume "sh_pc s \<in> {Wrap, Cmp} \<and> fifo_accepts (sh_q s)"
      then have pc: "Inc < sh_pc s" "sh_pc s < Done" by (auto simp: less_reader_pc_def)
      from linear_midE [OF Cons.prems(1) pc] obtain bs1 bs2 where r: "bs = bs1 @ bs2" "read_at q0 x bs1 bs2 = (0, sh_byte s, committed s)"
        by metis
      have "length (fifo_list q0) + length (bs1 @ bs2) < 64" using Cons.prems(4) r(1) by simp
      from read_at_fits [OF wf acc this ne, of x] r(2) have "fifo_list (committed s) = tl (fifo_list q0) @ bs1 @ bs2" by auto
      then have "fifo_count (committed s) = length (fifo_list q0) - 1 + length bs"
        using arg_cong [of _ _ length] length_fifo_list by (metis length_append length_tl r(1))
      with Cons.prems(4) ne show "fifo_count (committed s) < 63" by (cases "fifo_list q0") (auto simp: Irq)
    qed
    have "reader_pos k (usart1_rx_isr b s)" using Cons.prems(2) by (simp add: reader_pos_def)
    from Cons.IH [OF linear_isr [OF wf Cons.prems(1) ok, of b] this] Cons.prems(3,4) ok show ?thesis by (simp add: Irq)
  qed
qed simp

lemma window_free_own: "window_free k (es @ replicate n Own) = window_free k es"
proof (induction k es rule: window_free.induct)
  case (1 k)
  show ?case by (induction n arbitrary: k) simp_all
qed simp_all

lemma irq_bytes_own: "irq_bytes (es @ replicate n Own) = irq_bytes es"
  by (induction es rule: irq_bytes.induct) (simp, induction n, simp_all)

text \<open>A call on a queue that is not empty.\<close>

lemma read_call_fits:
  assumes wf: "fifo_wf f" and acc: "fifo_accepts f" and ne: "fifo_list f \<noteq> []" and win: "window_free 0 es"
    and fits: "length (fifo_list f) + length (irq_bytes es) < 64"
  shows "sh_byte (read_call f ch es) = hd (fifo_list f)" and "fifo_wf (sh_q (read_call f ch es))"
    and "fifo_accepts (sh_q (read_call f ch es))" and "fifo_list (sh_q (read_call f ch es)) = tl (fifo_list f) @ irq_bytes es"
proof -
  let ?s = "\<lparr>sh_q = f, sh_pc = Check, sh_byte = ch, sh_ret = 0, sh_got = [], sh_acc = []\<rparr>" and ?es = "es @ replicate 6 Own"
  have l: "linear f ch [] ?s" "reader_pos 0 ?s" by (simp_all add: linear_def reader_pos_def)
  have calm: "calm ?es ?s"
    using calm_fits [OF wf acc ne l, of ?es] win fits by (simp add: window_free_own irq_bytes_own)
  have "pc_rank (sh_pc (read_call f ch es)) = 6"
    using read_events_rank [of ?s ?es] by (cases "sh_pc (read_call f ch es)") (simp_all add: read_call_def)
  then have d: "sh_pc (read_call f ch es) = Done" by (cases "sh_pc (read_call f ch es)") simp_all
  from linear_events [OF wf l(1) calm] have "linear f ch (irq_bytes es) (read_call f ch es)"
    by (simp add: read_call_def irq_bytes_own)
  from linear_DoneE [OF this d] obtain bs1 bs2 where b: "irq_bytes es = bs1 @ bs2"
    "read_at f ch bs1 bs2 = (sh_ret (read_call f ch es), sh_byte (read_call f ch es), sh_q (read_call f ch es))" .
  have "length (fifo_list f) + length (bs1 @ bs2) < 64" using fits b(1) by simp
  from read_at_fits [OF wf acc this ne, of ch] b
  show "sh_byte (read_call f ch es) = hd (fifo_list f)" "fifo_wf (sh_q (read_call f ch es))"
    "fifo_accepts (sh_q (read_call f ch es))" "fifo_list (sh_q (read_call f ch es)) = tl (fifo_list f) @ irq_bytes es"
    by auto
qed

section \<open>What the loop reads\<close>

type_synonym poll_script = "(u8 list \<times> read_event list) list"

fun script_irq :: "poll_script \<Rightarrow> (u8 list \<times> read_event list) \<times> poll_script" where
  "script_irq [] = (([], []), [])"
| "script_irq (p # ps) = (p, ps)"

text \<open>The bytes of a script, and that none of them meets a full queue: \<open>k\<close> bytes are in the queue.\<close>

definition script_bytes :: "poll_script \<Rightarrow> u8 list" where
  "script_bytes ps = concat (map (\<lambda>(bs, es). bs @ irq_bytes es) ps)"

fun irq_fits :: "nat \<Rightarrow> poll_script \<Rightarrow> bool" where
  "irq_fits k [] \<longleftrightarrow> k < 64"
| "irq_fits k ((bs, es) # ps) \<longleftrightarrow> k + length bs + length (irq_bytes es) < 64 \<and> window_free 0 es \<and>
     irq_fits (k + length bs - 1 + length (irq_bytes es)) ps"

definition elm_isr_ready :: "poll_script elm_world \<Rightarrow> bool" where
  "elm_isr_ready w \<longleftrightarrow> fifo_wf (ew_fifo w) \<and> fifo_accepts (ew_fifo w) \<and> irq_fits (length (fifo_list (ew_fifo w))) (ew_env w)"

definition elm_isr_pending :: "poll_script elm_world \<Rightarrow> u8 list" where
  "elm_isr_pending w = fifo_list (ew_fifo w) @ script_bytes (ew_env w)"

text \<open>The queue at a poll.\<close>

lemma poll_parts:
  assumes "elm_isr_ready w" and rx: "script_irq (ew_env w) = ((bs, es), e)"
  shows "fifo_wf (fifo_q.feed (ew_fifo w) bs)" and "fifo_accepts (fifo_q.feed (ew_fifo w) bs)"
    and "fifo_list (fifo_q.feed (ew_fifo w) bs) = fifo_list (ew_fifo w) @ bs"
    and "length (fifo_list (ew_fifo w)) + length bs + length (irq_bytes es) < 64" and "window_free 0 es"
    and "irq_fits (length (fifo_list (ew_fifo w)) + length bs - 1 + length (irq_bytes es)) e"
    and "script_bytes (ew_env w) = bs @ irq_bytes es @ script_bytes e"
proof -
  have r: "fifo_wf (ew_fifo w)" "fifo_accepts (ew_fifo w)" using assms(1) by (simp_all add: elm_isr_ready_def)
  show fits: "length (fifo_list (ew_fifo w)) + length bs + length (irq_bytes es) < 64" and "window_free 0 es"
      "irq_fits (length (fifo_list (ew_fifo w)) + length bs - 1 + length (irq_bytes es)) e"
    and "script_bytes (ew_env w) = bs @ irq_bytes es @ script_bytes e"
    using assms by (cases "ew_env w"; auto simp: elm_isr_ready_def script_bytes_def)+
  then show "fifo_wf (fifo_q.feed (ew_fifo w) bs)" "fifo_accepts (fifo_q.feed (ew_fifo w) bs)"
    "fifo_list (fifo_q.feed (ew_fifo w) bs) = fifo_list (ew_fifo w) @ bs"
    using fifo_q.feed_fits [OF r, of bs] fifo_q.inv_feed [OF r(1)] by simp_all
qed

lemma elm_isr_byte:
  assumes "elm_isr_ready w" and "elm_isr_pending w = b # tail" and "0 < len" and "Suc cur < length mem"
  shows "\<exists>w'. elm_isr_loop script_irq len cur ret ch mem w =
      (let mem = mem[cur := b, Suc cur := 0]
       in if elm_response_complete mem then Some (ret + 1, mem, w')
          else elm_isr_loop script_irq (len - 1) (Suc cur) (ret + 1) b mem w') \<and>
    elm_isr_ready w' \<and> elm_isr_pending w' = tail \<and> ew_tx w' = ew_tx w"
  using assms
proof (induction "length (ew_env w)" arbitrary: w rule: less_induct)
  case less
  obtain bs es e where rx: "script_irq (ew_env w) = ((bs, es), e)" by (cases "script_irq (ew_env w)") auto
  let ?f = "fifo_q.feed (ew_fifo w) bs"
  note parts = poll_parts [OF less.prems(1) rx]
  note f = parts(1-3) and fits = parts(4-6) and bytes = parts(7)
  have pend: "fifo_list ?f @ irq_bytes es @ script_bytes e = b # tail"
    using less.prems(2) by (simp add: elm_isr_pending_def bytes f(3))
  show ?case
  proof (cases "fifo_list ?f = []")
    case True
    let ?w = "w\<lparr>ew_fifo := fifo_q.feed ?f (irq_bytes es), ew_env := e\<rparr>"
    have em: "f_status ?f = FIFO_EMPTY" using True fifo_empty_iff [OF f(1)] by (simp add: fifo_is_empty_def)
    then have step: "elm_isr_loop script_irq len cur ret ch mem w = elm_isr_loop script_irq len cur ret ch mem ?w"
      using less.prems(3) rx by (subst elm_isr_loop.simps) (simp add: fifo_writen_feed)
    have g: "fifo_wf (ew_fifo ?w)" "fifo_accepts (ew_fifo ?w)" "fifo_list (ew_fifo ?w) = irq_bytes es"
      using fifo_q.feed_fits [OF f(1,2), of "irq_bytes es"] fits(1) fifo_q.inv_feed [OF f(1)] True f(3) by simp_all
    have z: "length (fifo_list (ew_fifo w)) + length bs = 0" using arg_cong [OF f(3), of length] True by simp
    have "irq_fits (length (irq_bytes es)) e" using fits(3) unfolding z by simp
    then have rd: "elm_isr_ready ?w" using g by (simp add: elm_isr_ready_def del: length_fifo_list)
    have pd: "elm_isr_pending ?w = b # tail" using pend True g(3) by (simp add: elm_isr_pending_def)
    have shorter: "length (ew_env ?w) < length (ew_env w)"
      using rx pend True by (cases "ew_env w") (auto simp: script_bytes_def)
    from less.hyps [OF shorter rd pd less.prems(3,4)] show ?thesis by (simp add: step)
  next
    case False
    let ?s = "read_call ?f ch es"
    let ?w = "w\<lparr>ew_fifo := sh_q ?s, ew_env := e\<rparr>"
    have ne: "f_status ?f \<noteq> FIFO_EMPTY" using False fifo_empty_iff [OF f(1)] by (simp add: fifo_is_empty_def)
    have "length (fifo_list ?f) + length (irq_bytes es) < 64" using fits(1) by (simp only: f(3) length_append)
    note c = read_call_fits [OF f(1,2) False fits(2) this, of ch]
    have b: "sh_byte ?s = b" "tl (fifo_list ?f) @ irq_bytes es @ script_bytes e = tail"
      using c(1) pend False by (cases "fifo_list ?f"; simp)+
    have "length (fifo_list (sh_q ?s)) = length (fifo_list (ew_fifo w)) + length bs - 1 + length (irq_bytes es)"
      using arg_cong [OF c(4), of length] arg_cong [OF f(3), of length] by (simp only: length_append length_tl)
    then have "elm_isr_ready ?w" "elm_isr_pending ?w = tail"
      using c(2-4) fits(3) b(2) by (simp_all add: elm_isr_ready_def elm_isr_pending_def del: length_fifo_list)
    then show ?thesis
      using less.prems(3,4) ne rx b(1)
      by (intro exI [where x = ?w]) (subst elm_isr_loop.simps, simp add: Let_def fifo_writen_feed)
  qed
qed

interpretation interrupted: elm_reader "elm_isr_loop script_irq" elm_isr_ready elm_isr_pending ew_tx
  by unfold_locales (simp add: elm_isr_loop.simps, rule elm_isr_byte)

section \<open>Interrupted runs are polled runs\<close>

text \<open>The script for \<open>Elm\<close>: what arrives during a call arrives at the next poll, after the bytes \<open>c\<close> that
  are still to be handed over.\<close>

fun defer_irqs :: "u8 list \<Rightarrow> poll_script \<Rightarrow> u8 list list" where
  "defer_irqs c [] = (if c = [] then [] else [c])"
| "defer_irqs c ((bs, es) # ps) = (c @ bs) # defer_irqs (irq_bytes es) ps"

lemma defer_script: "script_irq ps = ((bs, es), e) \<Longrightarrow> script_rx (defer_irqs c ps) = (c @ bs, defer_irqs (irq_bytes es) e)"
  by (cases ps) auto

lemma defer_fits: "irq_fits (k + length c) ps \<Longrightarrow> rx_fits k (defer_irqs c ps)"
  by (induction c ps arbitrary: k rule: defer_irqs.induct) (auto simp: add.assoc)

lemma defer_bytes: "concat (defer_irqs c ps) = c @ script_bytes ps"
  by (induction c ps rule: defer_irqs.induct) (auto simp: script_bytes_def)

text \<open>The world \<open>v\<close> of the polled loop against \<open>w\<close>: the queue lags behind by the bytes \<open>c\<close>.\<close>

definition polled_world :: "poll_script elm_world \<Rightarrow> u8 list list elm_world \<Rightarrow> bool" where
  "polled_world w v \<longleftrightarrow> elm_isr_ready w \<and> fifo_wf (ew_fifo v) \<and> fifo_accepts (ew_fifo v) \<and> ew_tx v = ew_tx w \<and>
     (\<exists>c. ew_env v = defer_irqs c (ew_env w) \<and> fifo_list (ew_fifo w) = fifo_list (ew_fifo v) @ c)"

lemma polled_world_facts:
  assumes "polled_world w v"
  shows "elm_ready v" and "elm_pending v = elm_isr_pending w" and "ew_tx v = ew_tx w"
proof -
  obtain c where c: "ew_env v = defer_irqs c (ew_env w)" "fifo_list (ew_fifo w) = fifo_list (ew_fifo v) @ c"
    using assms by (auto simp: polled_world_def)
  have "irq_fits (length (fifo_list (ew_fifo v)) + length c) (ew_env w)"
    using assms by (simp add: polled_world_def elm_isr_ready_def c(2) del: length_fifo_list)
  then have "rx_fits (length (fifo_list (ew_fifo v))) (ew_env v)" unfolding c(1) by (rule defer_fits)
  then show "elm_ready v" using assms by (simp add: polled_world_def elm_ready_def elm_room_def)
  show "elm_pending v = elm_isr_pending w" by (simp add: elm_pending_def elm_isr_pending_def c defer_bytes)
  show "ew_tx v = ew_tx w" using assms by (simp add: polled_world_def)
qed

text \<open>A poll of both.\<close>

lemma polled_poll:
  assumes p: "polled_world w v" and rx: "script_irq (ew_env w) = ((bs, es), e)"
  obtains G where "elm_poll script_rx v = v\<lparr>ew_fifo := G, ew_env := defer_irqs (irq_bytes es) e\<rparr>"
    "fifo_wf G" "fifo_accepts G" "fifo_list G = fifo_list (fifo_q.feed (ew_fifo w) bs)"
proof -
  obtain c where c: "ew_env v = defer_irqs c (ew_env w)" "fifo_list (ew_fifo w) = fifo_list (ew_fifo v) @ c"
    and v: "elm_isr_ready w" "fifo_wf (ew_fifo v)" "fifo_accepts (ew_fifo v)"
    using p by (auto simp: polled_world_def)
  note parts = poll_parts [OF v(1) rx]
  let ?G = "fifo_q.feed (ew_fifo v) (c @ bs)"
  have "length (fifo_list (ew_fifo v)) + length (c @ bs) < 64"
    using parts(4) arg_cong [OF c(2), of length] by (simp del: length_fifo_list)
  note f = fifo_q.feed_fits [OF v(2,3) this] fifo_q.inv_feed [OF v(2), of "c @ bs"]
  show thesis
    by (rule that [of ?G]) (use f parts(3) c defer_script [OF rx, of c] in \<open>simp_all add: elm_poll_feed\<close>)
qed

lemma polled_worldI:
  "\<lbrakk>elm_isr_ready w; fifo_wf (ew_fifo v); fifo_accepts (ew_fifo v); ew_tx v = ew_tx w;
    ew_env v = defer_irqs c (ew_env w); fifo_list (ew_fifo w) = fifo_list (ew_fifo v) @ c\<rbrakk> \<Longrightarrow> polled_world w v"
  by (auto simp: polled_world_def)

lemma polled_idle:
  assumes p: "polled_world w v" and rx: "script_irq (ew_env w) = ((bs, es), e)"
    and em: "fifo_list (fifo_q.feed (ew_fifo w) bs) = []"
  shows "polled_world (w\<lparr>ew_fifo := fifo_q.feed (fifo_q.feed (ew_fifo w) bs) (irq_bytes es), ew_env := e\<rparr>) (elm_poll script_rx v)"
proof -
  have r: "elm_isr_ready w" "ew_tx v = ew_tx w" using p by (simp_all add: polled_world_def)
  note parts = poll_parts [OF r(1) rx]
  let ?f = "fifo_q.feed (ew_fifo w) bs"
  obtain G where G: "elm_poll script_rx v = v\<lparr>ew_fifo := G, ew_env := defer_irqs (irq_bytes es) e\<rparr>"
    "fifo_wf G" "fifo_accepts G" "fifo_list G = []"
    using polled_poll [OF p rx] em by metis
  have z: "length (fifo_list (ew_fifo w)) + length bs = 0" using arg_cong [OF parts(3), of length] em by simp
  have "length (fifo_list ?f) + length (irq_bytes es) < 64" using parts(4) em by simp
  note g = fifo_q.feed_fits [OF parts(1,2) this] fifo_q.inv_feed [OF parts(1), of "irq_bytes es"]
  have "irq_fits (length (irq_bytes es)) e" using parts(6) unfolding z by simp
  then show ?thesis using g em G r(2)
    by (intro polled_worldI [of _ _ "irq_bytes es"]) (simp_all add: elm_isr_ready_def del: length_fifo_list)
qed

lemma polled_take:
  assumes p: "polled_world w v" and rx: "script_irq (ew_env w) = ((bs, es), e)"
    and ne: "fifo_list (fifo_q.feed (ew_fifo w) bs) \<noteq> []"
    and rd: "fifo_read_byte (ew_fifo (elm_poll script_rx v)) ch = (r, b, f)"
    and s: "s = read_call (fifo_q.feed (ew_fifo w) bs) ch es"
  shows "sh_byte s = b" and "polled_world (w\<lparr>ew_fifo := sh_q s, ew_env := e\<rparr>) ((elm_poll script_rx v)\<lparr>ew_fifo := f\<rparr>)"
proof -
  have r: "elm_isr_ready w" "ew_tx v = ew_tx w" using p by (simp_all add: polled_world_def)
  note parts = poll_parts [OF r(1) rx]
  let ?f = "fifo_q.feed (ew_fifo w) bs"
  obtain G where G: "elm_poll script_rx v = v\<lparr>ew_fifo := G, ew_env := defer_irqs (irq_bytes es) e\<rparr>"
    "fifo_wf G" "fifo_accepts G" "fifo_list G = fifo_list ?f"
    using polled_poll [OF p rx] by metis
  have rd: "fifo_read_byte G ch = (r, b, f)" using rd by (simp add: G(1))
  have nG: "\<not> fifo_is_empty G" using ne G(4) fifo_empty_iff [OF G(2)] by simp
  have l: "fifo_list ?f = b # fifo_list f" "fifo_wf f" "fifo_accepts f"
    using fifo_q.deq_list [OF G(2) nG, of ch] fifo_read_wf [OF G(2), of ch] fifo_q.deq_accepts [OF G(2) nG, of ch] rd G(3,4)
    by simp_all
  have "length (fifo_list ?f) + length (irq_bytes es) < 64" using parts(4) by (simp only: parts(3) length_append)
  note c = read_call_fits [OF parts(1,2) ne parts(5) this, of ch, folded s]
  show "sh_byte s = b" using c(1) l(1) by simp
  have q: "fifo_list (sh_q s) = fifo_list f @ irq_bytes es" using c(4) l(1) by simp
  have "length (fifo_list (sh_q s)) = length (fifo_list (ew_fifo w)) + length bs - 1 + length (irq_bytes es)"
    using arg_cong [OF c(4), of length] arg_cong [OF parts(3), of length] by (simp only: length_append length_tl)
  then have "elm_isr_ready (w\<lparr>ew_fifo := sh_q s, ew_env := e\<rparr>)"
    using c(2,3) parts(6) by (simp add: elm_isr_ready_def del: length_fifo_list)
  then show "polled_world (w\<lparr>ew_fifo := sh_q s, ew_env := e\<rparr>) ((elm_poll script_rx v)\<lparr>ew_fifo := f\<rparr>)"
    using q l(2,3) r(2) G(1) by (intro polled_worldI [of _ _ "irq_bytes es"]) simp_all
qed

lemma polled_status:
  assumes p: "polled_world w v" and rx: "script_irq (ew_env w) = ((bs, es), e)"
  shows "f_status (fifo_q.feed (ew_fifo w) bs) = FIFO_EMPTY \<longleftrightarrow> fifo_list (fifo_q.feed (ew_fifo w) bs) = []"
    and "f_status (ew_fifo (elm_poll script_rx v)) = FIFO_EMPTY \<longleftrightarrow> fifo_list (fifo_q.feed (ew_fifo w) bs) = []"
proof -
  have r: "elm_isr_ready w" using p by (simp add: polled_world_def)
  obtain G where G: "elm_poll script_rx v = v\<lparr>ew_fifo := G, ew_env := defer_irqs (irq_bytes es) e\<rparr>"
    "fifo_wf G" "fifo_list G = fifo_list (fifo_q.feed (ew_fifo w) bs)"
    using polled_poll [OF p rx] by metis
  show "f_status (fifo_q.feed (ew_fifo w) bs) = FIFO_EMPTY \<longleftrightarrow> fifo_list (fifo_q.feed (ew_fifo w) bs) = []"
    using fifo_empty_iff [OF poll_parts(1) [OF r rx]] by (simp add: fifo_is_empty_def)
  show "f_status (ew_fifo (elm_poll script_rx v)) = FIFO_EMPTY \<longleftrightarrow> fifo_list (fifo_q.feed (ew_fifo w) bs) = []"
    using fifo_empty_iff [OF G(2)] G(1,3) by (simp add: fifo_is_empty_def)
qed

text \<open>Each loop follows the other.\<close>

lemma elm_isr_loop_polled:
  "elm_isr_loop rx len cur ret ch mem w = Some y \<Longrightarrow> rx = script_irq \<Longrightarrow> polled_world w v \<Longrightarrow>
    \<exists>v'. elm_read_loop script_rx len cur ret ch mem v = Some (fst y, fst (snd y), v') \<and> polled_world (snd (snd y)) v'"
proof (induction rx len cur ret ch mem w y arbitrary: v rule: elm_isr_loop.raw_induct [rotated, consumes 1])
  case (1 loop rx len cur ret ch mem w y)
  note IH = 1(1) and run = 1(2) and rx = 1(3) and p = 1(4)
  obtain bs es e where sc: "script_irq (ew_env w) = ((bs, es), e)" by (cases "script_irq (ew_env w)") auto
  let ?f = "fifo_q.feed (ew_fifo w) bs"
  note em = polled_status [OF p sc]
  consider "len = 0" | "len \<noteq> 0" "fifo_list ?f = []" | "len \<noteq> 0" "fifo_list ?f \<noteq> []" by blast
  then show ?case
  proof cases
    case 1
    with run p show ?thesis by (auto simp: elm_read_loop.simps)
  next
    case 2
    with run sc em have "loop rx len cur ret ch mem (w\<lparr>ew_fifo := fifo_q.feed ?f (irq_bytes es), ew_env := e\<rparr>) = Some y"
      by (simp add: rx fifo_writen_feed)
    from IH [OF this rx polled_idle [OF p sc 2(2)]] 2 em show ?thesis by (subst elm_read_loop.simps) simp
  next
    case 3
    obtain r b f where rd: "fifo_read_byte (ew_fifo (elm_poll script_rx v)) ch = (r, b, f)"
      by (cases "fifo_read_byte (ew_fifo (elm_poll script_rx v)) ch") auto
    note t = polled_take [OF p sc 3(2) rd refl]
    let ?w = "w\<lparr>ew_fifo := sh_q (read_call ?f ch es), ew_env := e\<rparr>" and ?m = "mem[cur := b, Suc cur := 0]"
    have run: "Suc cur < length mem" "(if elm_response_complete ?m then Some (ret + 1, ?m, ?w) else loop rx (len - 1) (Suc cur) (ret + 1) b ?m ?w) = Some y"
      using run 3 sc em t(1) by (simp_all add: rx fifo_writen_feed split: if_splits)
    then show ?thesis
      using IH [OF _ rx t(2)] 3 em rd t(2) by (subst elm_read_loop.simps) (auto split: if_splits)
  qed
qed

lemma elm_read_loop_interrupted:
  "elm_read_loop rx len cur ret ch mem v = Some y \<Longrightarrow> rx = script_rx \<Longrightarrow> polled_world w v \<Longrightarrow>
    \<exists>w'. elm_isr_loop script_irq len cur ret ch mem w = Some (fst y, fst (snd y), w') \<and> polled_world w' (snd (snd y))"
proof (induction rx len cur ret ch mem v y arbitrary: w rule: elm_read_loop.raw_induct [rotated, consumes 1])
  case (1 loop rx len cur ret ch mem v y)
  note IH = 1(1) and run = 1(2) and rx = 1(3) and p = 1(4)
  obtain bs es e where sc: "script_irq (ew_env w) = ((bs, es), e)" by (cases "script_irq (ew_env w)") auto
  let ?f = "fifo_q.feed (ew_fifo w) bs"
  note em = polled_status [OF p sc]
  consider "len = 0" | "len \<noteq> 0" "fifo_list ?f = []" | "len \<noteq> 0" "fifo_list ?f \<noteq> []" by blast
  then show ?case
  proof cases
    case 1
    with run p show ?thesis by (auto simp: elm_isr_loop.simps)
  next
    case 2
    with run em have "loop rx len cur ret ch mem (elm_poll script_rx v) = Some y" by (simp add: rx)
    from IH [OF this rx polled_idle [OF p sc 2(2)]] 2 em sc show ?thesis
      by (subst elm_isr_loop.simps) (simp add: fifo_writen_feed)
  next
    case 3
    obtain r b f where rd: "fifo_read_byte (ew_fifo (elm_poll script_rx v)) ch = (r, b, f)"
      by (cases "fifo_read_byte (ew_fifo (elm_poll script_rx v)) ch") auto
    note t = polled_take [OF p sc 3(2) rd refl]
    let ?v = "(elm_poll script_rx v)\<lparr>ew_fifo := f\<rparr>" and ?m = "mem[cur := b, Suc cur := 0]"
    have run: "Suc cur < length mem" "(if elm_response_complete ?m then Some (ret + 1, ?m, ?v) else loop rx (len - 1) (Suc cur) (ret + 1) b ?m ?v) = Some y"
      using run 3 em rd by (simp_all add: rx split: if_splits)
    then show ?thesis
      using IH [OF _ rx t(2)] 3 em sc t by (subst elm_isr_loop.simps) (auto simp: fifo_writen_feed split: if_splits)
  qed
qed

lemma polled_start: "elm_isr_ready w \<Longrightarrow> polled_world w \<lparr>ew_fifo = ew_fifo w, ew_tx = ew_tx w, ew_env = defer_irqs [] (ew_env w)\<rparr>"
  by (rule polled_worldI [where c = "[]"]) (simp_all add: elm_isr_ready_def)

section \<open>Properties\<close>

text \<open>C15. An answer read under interrupts. Wherever the receive interrupt comes, between the polls or between the statements
  of the FIFO's read (but not in the one place where the queue is just being marked empty), if the FIFO does not overflow
  and the answer fits in the buffer, \<open>elm_command\<close> returns with the whole answer up to the prompt, the count of its bytes,
  and everything after the prompt still pending.\<close>

theorem elm_isr_answer:
  assumes "elm_isr_ready w" and "elm_isr_pending w = u @ 62 # tail" and "0 \<notin> set u" and "62 \<notin> set u"
    and "length u < len" and "len < length mem" and "length u < 255"
  shows "\<exists>mem' w'. elm_isr_command script_irq cmd mem len w = Some (int (length u) + 1, mem', w') \<and>
    c_str mem' = u @ [62] \<and> length mem' = length mem \<and>
    elm_isr_ready w' \<and> elm_isr_pending w' = tail \<and> ew_tx w' = ew_tx w @ uart_write_str cmd"
proof -
  let ?w = "w\<lparr>ew_tx := ew_tx w @ uart_write_str cmd\<rparr>"
  have "elm_isr_ready ?w" "elm_isr_pending ?w = u @ 62 # tail"
    using assms(1,2) by (simp_all add: elm_isr_ready_def elm_isr_pending_def)
  from interrupted.read_answer [OF this assms(3-7)] show ?thesis
    by (auto simp: elm_isr_command_def elm_write_def elm_isr_read_def)
qed

text \<open>\<open>O\<close> arrives before a poll, \<open>K\<close> while it is taken out, the prompt and a byte more during the next reads.\<close>

definition demo_polls :: poll_script where
  "demo_polls = [([], [Irq 79]), ([], [Own, Own, Irq 75, Own, Own]), ([], [Own, Irq 13, Own, Irq 62]), ([], [Irq 1, Own])]"

theorem elm_isr_answer_witness:
  "\<exists>mem' w'. elm_isr_command script_irq ECHO_OFF (replicate 128 7) 32 \<lparr>ew_fifo = demo_fifo, ew_tx = [], ew_env = demo_polls\<rparr> =
      Some (4, mem', w') \<and> c_str mem' = [79, 75, 13, 62] \<and> elm_isr_pending w' = [1]"
proof -
  let ?w = "\<lparr>ew_fifo = demo_fifo, ew_tx = [], ew_env = demo_polls\<rparr> :: poll_script elm_world"
  have w: "elm_isr_ready ?w" "elm_isr_pending ?w = [79, 75, 13] @ 62 # [1]"
    by (simp_all add: elm_isr_ready_def elm_isr_pending_def demo_fifo_def demo_polls_def fifo_wf_def fifo_accepts_def
        fifo_list_def fifo_count_def script_bytes_def)
  from elm_isr_answer [OF w, of 32 "replicate 128 7" ECHO_OFF] show ?thesis by auto
qed

text \<open>C16. Why \<open>Elm\<close> may let bytes arrive at the polls only. A command under interrupts and the same command of \<open>Elm\<close>, to which the
  bytes of a call are handed over at the next poll, both return or both wait for ever; if they return, it is with the same
  value and the same buffer, and the same bytes are sent and still pending.\<close>

theorem elm_isr_polled:
  assumes "elm_isr_ready w" and "v = \<lparr>ew_fifo = ew_fifo w, ew_tx = ew_tx w, ew_env = defer_irqs [] (ew_env w)\<rparr>"
  shows "rel_option (\<lambda>(r, mem', w') (r', mem'', v'). r' = r \<and> mem'' = mem' \<and> ew_tx v' = ew_tx w' \<and>
      elm_ready v' \<and> elm_pending v' = elm_isr_pending w')
    (elm_isr_command script_irq cmd mem len w) (elm_command script_rx cmd mem len v)"
proof -
  let ?t = "ew_tx w @ uart_write_str cmd" and ?m = "replicate len 0 @ drop len mem"
  have "elm_isr_ready (w\<lparr>ew_tx := ?t\<rparr>)" using assms(1) by (simp add: elm_isr_ready_def)
  then have p: "polled_world (w\<lparr>ew_tx := ?t\<rparr>) (v\<lparr>ew_tx := ?t\<rparr>)" using polled_start by (fastforce simp: assms(2))
  have d: "elm_isr_command script_irq cmd mem len w =
      map_option (\<lambda>(r, mem, w). (uint r, mem, w)) (elm_isr_loop script_irq len 0 0 0 ?m (w\<lparr>ew_tx := ?t\<rparr>))"
    "elm_command script_rx cmd mem len v =
      map_option (\<lambda>(r, mem, w). (uint r, mem, w)) (elm_read_loop script_rx len 0 0 0 ?m (v\<lparr>ew_tx := ?t\<rparr>))"
    by (auto simp: elm_isr_command_def elm_isr_read_def elm_command_def elm_read_def elm_write_def assms(2) map_conv_bind_option
        intro!: Option.bind_cong)
  show ?thesis
  proof (cases "elm_isr_loop script_irq len 0 0 0 ?m (w\<lparr>ew_tx := ?t\<rparr>)")
    case None
    then show ?thesis
      using elm_read_loop_interrupted [OF _ refl p, of len 0 0 0 ?m] unfolding d
      by (cases "elm_read_loop script_rx len 0 0 0 ?m (v\<lparr>ew_tx := ?t\<rparr>)") auto
  next
    case (Some y)
    from elm_isr_loop_polled [OF this refl p] show ?thesis
      unfolding d by (auto simp: Some polled_world_facts split: prod.split)
  qed
qed

theorem elm_isr_polled_witness:
  "let w = \<lparr>ew_fifo = demo_fifo, ew_tx = [], ew_env = demo_polls\<rparr>;
     v = \<lparr>ew_fifo = demo_fifo, ew_tx = [], ew_env = [[], [79], [75], [13, 62], [1]]\<rparr>
   in rel_option (\<lambda>(r, mem', w') (r', mem'', v'). r' = r \<and> mem'' = mem' \<and> ew_tx v' = ew_tx w' \<and>
      elm_ready v' \<and> elm_pending v' = elm_isr_pending w')
    (elm_isr_command script_irq ECHO_OFF [1, 1, 1, 1, 1, 1, 1] 6 w) (elm_command script_rx ECHO_OFF [1, 1, 1, 1, 1, 1, 1] 6 v)"
proof -
  let ?w = "\<lparr>ew_fifo = demo_fifo, ew_tx = [], ew_env = demo_polls\<rparr> :: poll_script elm_world"
  have "elm_isr_ready ?w"
    by (simp add: elm_isr_ready_def demo_fifo_def demo_polls_def fifo_wf_def fifo_accepts_def fifo_list_def fifo_count_def)
  moreover have "defer_irqs [] demo_polls = [[], [79], [75], [13, 62], [1]]" by (simp add: demo_polls_def)
  ultimately show ?thesis
    using elm_isr_polled [of ?w _ ECHO_OFF "[1, 1, 1, 1, 1, 1, 1]" 6] by (simp add: Let_def)
qed

end
