(* ===== verification/Pins.thy ===== *)
theory Pins
  imports Prelude
begin

text \<open>
  src/pins.c and src/include/pins.h: the map from physical pin numbers to port registers, one
  table per board (the build selects ATMEGA1284, src/include/debug.h), and the operations on
  it. A pointer to a port or direction register is the port's letter, NULL is \<open>None\<close>; the
  registers are the two functions of the record \<open>gpio\<close>. The debug messages the functions
  print on an error are not modelled.
\<close>

section \<open>Registers and tables\<close>

datatype port = PORTA | PORTB | PORTC | PORTD | PORTE | PORTF | PORTG | PORTH | PORTJ | PORTK | PORTL

datatype ddr_status = ATMEL_INPUT | ATMEL_OUTPUT | ATMEL_DIR_INVAL

datatype pull_status = ATMEL_PULL_ENA | ATMEL_PULL_DIS | ATMEL_PULL_INVAL

record gpio =
  port_out :: "port \<Rightarrow> u8"
  port_ddr :: "port \<Rightarrow> u8"

record pin =
  port_reg :: "port option"
  port_num :: u8
  pin_dir :: ddr_status
  pull_up :: pull_status
  dir_reg :: "port option"

definition PINDEF :: "port option \<Rightarrow> u8 \<Rightarrow> ddr_status \<Rightarrow> pull_status \<Rightarrow> port option \<Rightarrow> pin" where
  "PINDEF portreg portnum pindir pullup dirreg =
    \<lparr>port_reg = portreg, port_num = portnum, pin_dir = pindir, pull_up = pullup, dir_reg = dirreg\<rparr>"

definition atmega328_pins :: "pin list" where
  "atmega328_pins =
    [PINDEF None 0 ATMEL_DIR_INVAL ATMEL_PULL_INVAL None,
     PINDEF None 0 ATMEL_DIR_INVAL ATMEL_PULL_INVAL None,
     PINDEF (Some PORTD) 0 ATMEL_INPUT ATMEL_PULL_DIS (Some PORTD),
     PINDEF (Some PORTD) 1 ATMEL_OUTPUT ATMEL_PULL_DIS (Some PORTD),
     PINDEF (Some PORTD) 2 ATMEL_OUTPUT ATMEL_PULL_DIS (Some PORTD),
     PINDEF (Some PORTD) 3 ATMEL_OUTPUT ATMEL_PULL_DIS (Some PORTD),
     PINDEF (Some PORTD) 4 ATMEL_OUTPUT ATMEL_PULL_DIS (Some PORTD),
     PINDEF None 0 ATMEL_DIR_INVAL ATMEL_PULL_INVAL None,
     PINDEF None 0 ATMEL_DIR_INVAL ATMEL_PULL_INVAL None,
     PINDEF None 0 ATMEL_DIR_INVAL ATMEL_PULL_INVAL None,
     PINDEF (Some PORTB) 7 ATMEL_OUTPUT ATMEL_PULL_DIS (Some PORTB),
     PINDEF (Some PORTD) 5 ATMEL_OUTPUT ATMEL_PULL_DIS (Some PORTD),
     PINDEF (Some PORTD) 6 ATMEL_OUTPUT ATMEL_PULL_DIS (Some PORTD),
     PINDEF (Some PORTD) 7 ATMEL_OUTPUT ATMEL_PULL_DIS (Some PORTD),
     PINDEF (Some PORTB) 0 ATMEL_OUTPUT ATMEL_PULL_DIS (Some PORTB),
     PINDEF (Some PORTB) 1 ATMEL_OUTPUT ATMEL_PULL_DIS (Some PORTB),
     PINDEF (Some PORTB) 2 ATMEL_OUTPUT ATMEL_PULL_DIS (Some PORTB),
     PINDEF (Some PORTB) 3 ATMEL_OUTPUT ATMEL_PULL_DIS (Some PORTB),
     PINDEF (Some PORTB) 4 ATMEL_INPUT ATMEL_PULL_ENA (Some PORTB),
     PINDEF (Some PORTB) 5 ATMEL_OUTPUT ATMEL_PULL_DIS (Some PORTB),
     PINDEF None 0 ATMEL_DIR_INVAL ATMEL_PULL_INVAL None,
     PINDEF None 0 ATMEL_DIR_INVAL ATMEL_PULL_INVAL None,
     PINDEF None 0 ATMEL_DIR_INVAL ATMEL_PULL_INVAL None,
     PINDEF (Some PORTC) 0 ATMEL_OUTPUT ATMEL_PULL_DIS (Some PORTC),
     PINDEF (Some PORTC) 1 ATMEL_OUTPUT ATMEL_PULL_DIS (Some PORTC),
     PINDEF (Some PORTC) 2 ATMEL_OUTPUT ATMEL_PULL_DIS (Some PORTC),
     PINDEF (Some PORTC) 3 ATMEL_OUTPUT ATMEL_PULL_DIS (Some PORTC),
     PINDEF (Some PORTC) 4 ATMEL_OUTPUT ATMEL_PULL_DIS (Some PORTC),
     PINDEF (Some PORTC) 5 ATMEL_OUTPUT ATMEL_PULL_DIS (Some PORTC)]"

definition atmega2560_pins_lo :: "pin list" where
  "atmega2560_pins_lo =
    [PINDEF None 0 ATMEL_DIR_INVAL ATMEL_PULL_INVAL None,
     PINDEF (Some PORTG) 5 ATMEL_OUTPUT ATMEL_PULL_DIS (Some PORTG),
     PINDEF (Some PORTE) 0 ATMEL_INPUT ATMEL_PULL_DIS (Some PORTE),
     PINDEF (Some PORTE) 1 ATMEL_OUTPUT ATMEL_PULL_DIS (Some PORTE),
     PINDEF (Some PORTE) 2 ATMEL_OUTPUT ATMEL_PULL_DIS (Some PORTE),
     PINDEF (Some PORTE) 3 ATMEL_OUTPUT ATMEL_PULL_DIS (Some PORTE),
     PINDEF (Some PORTE) 4 ATMEL_OUTPUT ATMEL_PULL_DIS (Some PORTE),
     PINDEF (Some PORTE) 5 ATMEL_OUTPUT ATMEL_PULL_DIS (Some PORTE),
     PINDEF (Some PORTE) 6 ATMEL_OUTPUT ATMEL_PULL_DIS (Some PORTE),
     PINDEF (Some PORTE) 7 ATMEL_OUTPUT ATMEL_PULL_DIS (Some PORTE),
     PINDEF None 0 ATMEL_DIR_INVAL ATMEL_PULL_INVAL None,
     PINDEF None 0 ATMEL_DIR_INVAL ATMEL_PULL_INVAL None,
     PINDEF (Some PORTH) 0 ATMEL_OUTPUT ATMEL_PULL_DIS (Some PORTH),
     PINDEF (Some PORTH) 1 ATMEL_OUTPUT ATMEL_PULL_DIS (Some PORTH),
     PINDEF (Some PORTH) 2 ATMEL_OUTPUT ATMEL_PULL_DIS (Some PORTH),
     PINDEF (Some PORTH) 3 ATMEL_OUTPUT ATMEL_PULL_DIS (Some PORTH),
     PINDEF (Some PORTH) 4 ATMEL_OUTPUT ATMEL_PULL_DIS (Some PORTH),
     PINDEF (Some PORTH) 5 ATMEL_OUTPUT ATMEL_PULL_DIS (Some PORTH),
     PINDEF (Some PORTH) 6 ATMEL_OUTPUT ATMEL_PULL_DIS (Some PORTH),
     PINDEF (Some PORTB) 0 ATMEL_OUTPUT ATMEL_PULL_DIS (Some PORTB),
     PINDEF (Some PORTB) 1 ATMEL_OUTPUT ATMEL_PULL_DIS (Some PORTB),
     PINDEF (Some PORTB) 2 ATMEL_OUTPUT ATMEL_PULL_DIS (Some PORTB),
     PINDEF (Some PORTB) 3 ATMEL_INPUT ATMEL_PULL_ENA (Some PORTB),
     PINDEF (Some PORTB) 4 ATMEL_OUTPUT ATMEL_PULL_DIS (Some PORTB),
     PINDEF (Some PORTB) 5 ATMEL_OUTPUT ATMEL_PULL_DIS (Some PORTB),
     PINDEF (Some PORTB) 6 ATMEL_OUTPUT ATMEL_PULL_DIS (Some PORTB),
     PINDEF (Some PORTB) 7 ATMEL_OUTPUT ATMEL_PULL_DIS (Some PORTB),
     PINDEF (Some PORTH) 7 ATMEL_OUTPUT ATMEL_PULL_DIS (Some PORTH),
     PINDEF (Some PORTG) 3 ATMEL_OUTPUT ATMEL_PULL_DIS (Some PORTG),
     PINDEF (Some PORTG) 4 ATMEL_OUTPUT ATMEL_PULL_DIS (Some PORTG),
     PINDEF None 0 ATMEL_DIR_INVAL ATMEL_PULL_INVAL None,
     PINDEF None 0 ATMEL_DIR_INVAL ATMEL_PULL_INVAL None,
     PINDEF None 0 ATMEL_DIR_INVAL ATMEL_PULL_INVAL None,
     PINDEF None 0 ATMEL_DIR_INVAL ATMEL_PULL_INVAL None,
     PINDEF None 0 ATMEL_DIR_INVAL ATMEL_PULL_INVAL None,
     PINDEF (Some PORTL) 0 ATMEL_OUTPUT ATMEL_PULL_DIS (Some PORTG),
     PINDEF (Some PORTL) 1 ATMEL_OUTPUT ATMEL_PULL_DIS (Some PORTL),
     PINDEF (Some PORTL) 2 ATMEL_OUTPUT ATMEL_PULL_DIS (Some PORTL),
     PINDEF (Some PORTL) 3 ATMEL_OUTPUT ATMEL_PULL_DIS (Some PORTL),
     PINDEF (Some PORTL) 4 ATMEL_OUTPUT ATMEL_PULL_DIS (Some PORTL),
     PINDEF (Some PORTL) 5 ATMEL_OUTPUT ATMEL_PULL_DIS (Some PORTL),
     PINDEF (Some PORTL) 6 ATMEL_OUTPUT ATMEL_PULL_DIS (Some PORTL),
     PINDEF (Some PORTL) 7 ATMEL_OUTPUT ATMEL_PULL_DIS (Some PORTL),
     PINDEF (Some PORTD) 0 ATMEL_OUTPUT ATMEL_PULL_DIS (Some PORTD),
     PINDEF (Some PORTD) 1 ATMEL_OUTPUT ATMEL_PULL_DIS (Some PORTD),
     PINDEF (Some PORTD) 2 ATMEL_INPUT ATMEL_PULL_DIS (Some PORTD),
     PINDEF (Some PORTD) 3 ATMEL_OUTPUT ATMEL_PULL_DIS (Some PORTD),
     PINDEF (Some PORTD) 4 ATMEL_OUTPUT ATMEL_PULL_DIS (Some PORTD),
     PINDEF (Some PORTD) 5 ATMEL_OUTPUT ATMEL_PULL_DIS (Some PORTD),
     PINDEF (Some PORTD) 6 ATMEL_OUTPUT ATMEL_PULL_DIS (Some PORTD),
     PINDEF (Some PORTD) 7 ATMEL_OUTPUT ATMEL_PULL_DIS (Some PORTD)]"

definition atmega2560_pins_hi :: "pin list" where
  "atmega2560_pins_hi =
    [PINDEF (Some PORTG) 0 ATMEL_OUTPUT ATMEL_PULL_DIS (Some PORTG),
     PINDEF (Some PORTG) 1 ATMEL_OUTPUT ATMEL_PULL_DIS (Some PORTG),
     PINDEF (Some PORTC) 0 ATMEL_OUTPUT ATMEL_PULL_DIS (Some PORTC),
     PINDEF (Some PORTC) 1 ATMEL_OUTPUT ATMEL_PULL_DIS (Some PORTC),
     PINDEF (Some PORTC) 2 ATMEL_OUTPUT ATMEL_PULL_DIS (Some PORTC),
     PINDEF (Some PORTC) 3 ATMEL_OUTPUT ATMEL_PULL_DIS (Some PORTC),
     PINDEF (Some PORTC) 4 ATMEL_OUTPUT ATMEL_PULL_DIS (Some PORTC),
     PINDEF (Some PORTC) 5 ATMEL_OUTPUT ATMEL_PULL_DIS (Some PORTC),
     PINDEF (Some PORTC) 6 ATMEL_OUTPUT ATMEL_PULL_DIS (Some PORTC),
     PINDEF (Some PORTC) 7 ATMEL_OUTPUT ATMEL_PULL_DIS (Some PORTC),
     PINDEF None 0 ATMEL_DIR_INVAL ATMEL_PULL_INVAL None,
     PINDEF None 0 ATMEL_DIR_INVAL ATMEL_PULL_INVAL None,
     PINDEF (Some PORTJ) 0 ATMEL_OUTPUT ATMEL_PULL_DIS (Some PORTJ),
     PINDEF (Some PORTJ) 1 ATMEL_OUTPUT ATMEL_PULL_DIS (Some PORTJ),
     PINDEF (Some PORTJ) 2 ATMEL_OUTPUT ATMEL_PULL_DIS (Some PORTJ),
     PINDEF (Some PORTJ) 3 ATMEL_OUTPUT ATMEL_PULL_DIS (Some PORTJ),
     PINDEF (Some PORTJ) 4 ATMEL_OUTPUT ATMEL_PULL_DIS (Some PORTJ),
     PINDEF (Some PORTJ) 5 ATMEL_OUTPUT ATMEL_PULL_DIS (Some PORTJ),
     PINDEF (Some PORTJ) 6 ATMEL_OUTPUT ATMEL_PULL_DIS (Some PORTJ),
     PINDEF (Some PORTG) 2 ATMEL_OUTPUT ATMEL_PULL_DIS (Some PORTG),
     PINDEF (Some PORTA) 7 ATMEL_OUTPUT ATMEL_PULL_DIS (Some PORTA),
     PINDEF (Some PORTA) 6 ATMEL_OUTPUT ATMEL_PULL_DIS (Some PORTA),
     PINDEF (Some PORTA) 5 ATMEL_OUTPUT ATMEL_PULL_DIS (Some PORTA),
     PINDEF (Some PORTA) 4 ATMEL_OUTPUT ATMEL_PULL_DIS (Some PORTA),
     PINDEF (Some PORTA) 3 ATMEL_OUTPUT ATMEL_PULL_DIS (Some PORTA),
     PINDEF (Some PORTA) 2 ATMEL_OUTPUT ATMEL_PULL_DIS (Some PORTA),
     PINDEF (Some PORTA) 1 ATMEL_OUTPUT ATMEL_PULL_DIS (Some PORTA),
     PINDEF (Some PORTA) 0 ATMEL_OUTPUT ATMEL_PULL_DIS (Some PORTA),
     PINDEF (Some PORTJ) 7 ATMEL_OUTPUT ATMEL_PULL_DIS (Some PORTJ),
     PINDEF None 0 ATMEL_DIR_INVAL ATMEL_PULL_INVAL None,
     PINDEF None 0 ATMEL_DIR_INVAL ATMEL_PULL_INVAL None,
     PINDEF (Some PORTK) 7 ATMEL_OUTPUT ATMEL_PULL_DIS (Some PORTK),
     PINDEF (Some PORTK) 6 ATMEL_OUTPUT ATMEL_PULL_DIS (Some PORTK),
     PINDEF (Some PORTK) 5 ATMEL_OUTPUT ATMEL_PULL_DIS (Some PORTK),
     PINDEF (Some PORTK) 4 ATMEL_OUTPUT ATMEL_PULL_DIS (Some PORTK),
     PINDEF (Some PORTK) 3 ATMEL_OUTPUT ATMEL_PULL_DIS (Some PORTK),
     PINDEF (Some PORTK) 2 ATMEL_OUTPUT ATMEL_PULL_DIS (Some PORTK),
     PINDEF (Some PORTK) 1 ATMEL_OUTPUT ATMEL_PULL_DIS (Some PORTK),
     PINDEF (Some PORTK) 0 ATMEL_OUTPUT ATMEL_PULL_DIS (Some PORTK),
     PINDEF (Some PORTF) 7 ATMEL_OUTPUT ATMEL_PULL_DIS (Some PORTF),
     PINDEF (Some PORTF) 6 ATMEL_OUTPUT ATMEL_PULL_DIS (Some PORTF),
     PINDEF (Some PORTF) 5 ATMEL_OUTPUT ATMEL_PULL_DIS (Some PORTF),
     PINDEF (Some PORTF) 4 ATMEL_OUTPUT ATMEL_PULL_DIS (Some PORTF),
     PINDEF (Some PORTF) 3 ATMEL_OUTPUT ATMEL_PULL_DIS (Some PORTF),
     PINDEF (Some PORTF) 2 ATMEL_OUTPUT ATMEL_PULL_DIS (Some PORTF),
     PINDEF (Some PORTF) 1 ATMEL_OUTPUT ATMEL_PULL_DIS (Some PORTF),
     PINDEF (Some PORTF) 0 ATMEL_OUTPUT ATMEL_PULL_DIS (Some PORTF),
     PINDEF None 0 ATMEL_DIR_INVAL ATMEL_PULL_INVAL None,
     PINDEF None 0 ATMEL_DIR_INVAL ATMEL_PULL_INVAL None,
     PINDEF None 0 ATMEL_DIR_INVAL ATMEL_PULL_INVAL None]"

definition atmega2560_pins :: "pin list" where
  "atmega2560_pins = atmega2560_pins_lo @ atmega2560_pins_hi"

definition atmega1284_pins :: "pin list" where
  "atmega1284_pins =
    [PINDEF None 0 ATMEL_DIR_INVAL ATMEL_PULL_INVAL None,
     PINDEF (Some PORTB) 0 ATMEL_OUTPUT ATMEL_PULL_DIS (Some PORTB),
     PINDEF (Some PORTB) 1 ATMEL_OUTPUT ATMEL_PULL_DIS (Some PORTB),
     PINDEF (Some PORTB) 2 ATMEL_OUTPUT ATMEL_PULL_DIS (Some PORTB),
     PINDEF (Some PORTB) 3 ATMEL_OUTPUT ATMEL_PULL_DIS (Some PORTB),
     PINDEF (Some PORTB) 4 ATMEL_OUTPUT ATMEL_PULL_DIS (Some PORTB),
     PINDEF (Some PORTB) 5 ATMEL_OUTPUT ATMEL_PULL_DIS (Some PORTB),
     PINDEF (Some PORTB) 6 ATMEL_INPUT ATMEL_PULL_ENA (Some PORTB),
     PINDEF (Some PORTB) 7 ATMEL_OUTPUT ATMEL_PULL_DIS (Some PORTB),
     PINDEF None 0 ATMEL_DIR_INVAL ATMEL_PULL_INVAL None,
     PINDEF None 0 ATMEL_DIR_INVAL ATMEL_PULL_INVAL None,
     PINDEF None 0 ATMEL_DIR_INVAL ATMEL_PULL_INVAL None,
     PINDEF None 0 ATMEL_DIR_INVAL ATMEL_PULL_INVAL None,
     PINDEF None 0 ATMEL_DIR_INVAL ATMEL_PULL_INVAL None,
     PINDEF (Some PORTD) 0 ATMEL_OUTPUT ATMEL_PULL_DIS (Some PORTD),
     PINDEF (Some PORTD) 1 ATMEL_OUTPUT ATMEL_PULL_DIS (Some PORTD),
     PINDEF (Some PORTD) 2 ATMEL_OUTPUT ATMEL_PULL_DIS (Some PORTD),
     PINDEF (Some PORTD) 3 ATMEL_OUTPUT ATMEL_PULL_DIS (Some PORTD),
     PINDEF (Some PORTD) 4 ATMEL_OUTPUT ATMEL_PULL_DIS (Some PORTD),
     PINDEF (Some PORTD) 5 ATMEL_OUTPUT ATMEL_PULL_DIS (Some PORTD),
     PINDEF (Some PORTD) 6 ATMEL_OUTPUT ATMEL_PULL_DIS (Some PORTD),
     PINDEF (Some PORTD) 7 ATMEL_OUTPUT ATMEL_PULL_DIS (Some PORTD),
     PINDEF (Some PORTC) 0 ATMEL_INPUT ATMEL_PULL_DIS (Some PORTC),
     PINDEF (Some PORTC) 1 ATMEL_INPUT ATMEL_PULL_DIS (Some PORTC),
     PINDEF (Some PORTC) 2 ATMEL_OUTPUT ATMEL_PULL_DIS (Some PORTC),
     PINDEF (Some PORTC) 3 ATMEL_OUTPUT ATMEL_PULL_DIS (Some PORTC),
     PINDEF (Some PORTC) 4 ATMEL_OUTPUT ATMEL_PULL_DIS (Some PORTC),
     PINDEF (Some PORTC) 5 ATMEL_OUTPUT ATMEL_PULL_DIS (Some PORTC),
     PINDEF (Some PORTC) 6 ATMEL_OUTPUT ATMEL_PULL_DIS (Some PORTC),
     PINDEF (Some PORTC) 7 ATMEL_OUTPUT ATMEL_PULL_DIS (Some PORTC),
     PINDEF None 0 ATMEL_DIR_INVAL ATMEL_PULL_INVAL None,
     PINDEF None 0 ATMEL_DIR_INVAL ATMEL_PULL_INVAL None,
     PINDEF None 0 ATMEL_DIR_INVAL ATMEL_PULL_INVAL None,
     PINDEF (Some PORTA) 7 ATMEL_OUTPUT ATMEL_PULL_DIS (Some PORTA),
     PINDEF (Some PORTA) 6 ATMEL_OUTPUT ATMEL_PULL_DIS (Some PORTA),
     PINDEF (Some PORTA) 5 ATMEL_OUTPUT ATMEL_PULL_DIS (Some PORTA),
     PINDEF (Some PORTA) 4 ATMEL_OUTPUT ATMEL_PULL_DIS (Some PORTA),
     PINDEF (Some PORTA) 3 ATMEL_OUTPUT ATMEL_PULL_DIS (Some PORTA),
     PINDEF (Some PORTA) 2 ATMEL_OUTPUT ATMEL_PULL_DIS (Some PORTA),
     PINDEF (Some PORTA) 1 ATMEL_OUTPUT ATMEL_PULL_DIS (Some PORTA),
     PINDEF (Some PORTA) 0 ATMEL_OUTPUT ATMEL_PULL_DIS (Some PORTA)]"

text \<open>The pin numbers of the board in use.\<close>

definition PIN_LCD_SS :: u8 where "PIN_LCD_SS = 4"
definition PIN_SS_SD :: u8 where "PIN_SS_SD = 5"
definition PIN_MOSI :: u8 where "PIN_MOSI = 6"
definition PIN_MISO :: u8 where "PIN_MISO = 7"
definition PIN_SCK :: u8 where "PIN_SCK = 8"

section \<open>Operations\<close>

definition bit_mask :: "u8 \<Rightarrow> u8" where
  "bit_mask n = push_bit (unat n) 1"

definition set_out :: "port \<Rightarrow> u8 \<Rightarrow> gpio \<Rightarrow> gpio" where
  "set_out r n g = g\<lparr>port_out := (port_out g)(r := port_out g r OR bit_mask n)\<rparr>"

definition clear_out :: "port \<Rightarrow> u8 \<Rightarrow> gpio \<Rightarrow> gpio" where
  "clear_out r n g = g\<lparr>port_out := (port_out g)(r := port_out g r AND NOT (bit_mask n))\<rparr>"

definition set_ddr :: "port \<Rightarrow> u8 \<Rightarrow> gpio \<Rightarrow> gpio" where
  "set_ddr r n g = g\<lparr>port_ddr := (port_ddr g)(r := port_ddr g r OR bit_mask n)\<rparr>"

definition clear_ddr :: "port \<Rightarrow> u8 \<Rightarrow> gpio \<Rightarrow> gpio" where
  "clear_ddr r n g = g\<lparr>port_ddr := (port_ddr g)(r := port_ddr g r AND NOT (bit_mask n))\<rparr>"

text \<open>The body of the loop of \<open>initialize_pins\<close>. No table has a NULL direction register next
  to a port register; the write through it is left out of the model as a no-op.\<close>

definition init_pin :: "pin \<Rightarrow> gpio \<Rightarrow> gpio" where
  "init_pin p g =
    (case (port_reg p, dir_reg p) of
       (Some r, Some d) \<Rightarrow>
         (if pin_dir p = ATMEL_OUTPUT then set_ddr d (port_num p) g
          else if pin_dir p = ATMEL_INPUT then
            (let g = clear_ddr d (port_num p) g
             in if pull_up p = ATMEL_PULL_ENA then set_out r (port_num p) g else g)
          else g)
     | _ \<Rightarrow> g)"

definition initialize_pins :: "pin list \<Rightarrow> gpio \<Rightarrow> gpio" where
  "initialize_pins pins g = fold init_pin pins g"

definition pin_high :: "pin list \<Rightarrow> u8 \<Rightarrow> gpio \<Rightarrow> int \<times> gpio" where
  "pin_high pins pin g =
    (if unat pin < length pins \<and> pin > 0 then
       (case port_reg (pins ! unat pin) of
          Some r \<Rightarrow>
            (if pin_dir (pins ! unat pin) = ATMEL_OUTPUT
             then (0, set_out r (port_num (pins ! unat pin)) g)
             else (- 1, g))
        | None \<Rightarrow> (- 1, g))
     else (- 1, g))"

definition pin_low :: "pin list \<Rightarrow> u8 \<Rightarrow> gpio \<Rightarrow> int \<times> gpio" where
  "pin_low pins pin g =
    (if unat pin < length pins \<and> pin > 0 then
       (case port_reg (pins ! unat pin) of
          Some r \<Rightarrow>
            (if pin_dir (pins ! unat pin) = ATMEL_OUTPUT
             then (0, clear_out r (port_num (pins ! unat pin)) g)
             else (- 1, g))
        | None \<Rightarrow> (- 1, g))
     else (- 1, g))"

text \<open>The pulse width is a delay, which has no effect on the registers.\<close>

definition pulse_pin :: "pin list \<Rightarrow> u8 \<Rightarrow> gpio \<Rightarrow> gpio" where
  "pulse_pin pins pin g = snd (pin_low pins pin (snd (pin_high pins pin g)))"

definition cycle_pins :: "pin list \<Rightarrow> gpio \<Rightarrow> gpio" where
  "cycle_pins pins g =
    fold (\<lambda>i g. if port_reg (pins ! i) \<noteq> None then pulse_pin pins (of_nat i) g else g)
      [0..<length pins] g"

section \<open>Bits of the registers\<close>

lemma bit_bit_mask: "bit (bit_mask n) k \<longleftrightarrow> k = unat n \<and> k < 8"
  by (auto simp: bit_mask_def bit_simps)

named_theorems gpio_bits \<open>bits of a port register after one operation\<close>

lemma set_out_bit [gpio_bits]:
  "bit (port_out (set_out r n g) r') k \<longleftrightarrow> bit (port_out g r') k \<or> (r' = r \<and> k = unat n \<and> k < 8)"
  "port_ddr (set_out r n g) = port_ddr g"
  by (auto simp: set_out_def bit_simps bit_bit_mask)

lemma clear_out_bit [gpio_bits]:
  "bit (port_out (clear_out r n g) r') k \<longleftrightarrow> bit (port_out g r') k \<and> \<not> (r' = r \<and> k = unat n)"
  "port_ddr (clear_out r n g) = port_ddr g"
  using bit_imp_le_length [of "port_out g r'" k] by (auto simp: clear_out_def bit_simps bit_bit_mask)

lemma set_ddr_bit [gpio_bits]:
  "bit (port_ddr (set_ddr r n g) r') k \<longleftrightarrow> bit (port_ddr g r') k \<or> (r' = r \<and> k = unat n \<and> k < 8)"
  "port_out (set_ddr r n g) = port_out g"
  by (auto simp: set_ddr_def bit_simps bit_bit_mask)

lemma clear_ddr_bit [gpio_bits]:
  "bit (port_ddr (clear_ddr r n g) r') k \<longleftrightarrow> bit (port_ddr g r') k \<and> \<not> (r' = r \<and> k = unat n)"
  "port_out (clear_ddr r n g) = port_out g"
  using bit_imp_le_length [of "port_ddr g r'" k] by (auto simp: clear_ddr_def bit_simps bit_bit_mask)

section \<open>Initialisation\<close>

text \<open>What a table must satisfy: the port and direction registers of a pin belong to the same
  port, the bit number is one of the port, a pin with a port has a direction, and no two pins
  share a bit.\<close>

definition pins_wf :: "pin list \<Rightarrow> bool" where
  "pins_wf ps \<longleftrightarrow> list_all (\<lambda>p. port_reg p = dir_reg p \<and> unat (port_num p) < 8 \<and>
       (port_reg p \<noteq> None \<longrightarrow> pin_dir p \<noteq> ATMEL_DIR_INVAL)) ps \<and>
     distinct (map (\<lambda>p. (port_reg p, port_num p)) (filter (\<lambda>p. port_reg p \<noteq> None) ps))"

definition pin_here :: "port \<Rightarrow> nat \<Rightarrow> pin \<Rightarrow> bool" where
  "pin_here r k p \<longleftrightarrow> port_reg p = Some r \<and> unat (port_num p) = k"

lemma init_pin_ddr_frame:
  "\<not> (dir_reg p = Some r \<and> port_reg p \<noteq> None \<and> unat (port_num p) = k) \<Longrightarrow>
     bit (port_ddr (init_pin p g) r) k \<longleftrightarrow> bit (port_ddr g r) k"
  by (auto simp: init_pin_def gpio_bits Let_def split: option.splits)

lemma init_pin_out_frame:
  "\<not> pin_here r k p \<Longrightarrow> bit (port_out (init_pin p g) r) k \<longleftrightarrow> bit (port_out g r) k"
  by (auto simp: init_pin_def gpio_bits pin_here_def Let_def split: option.splits)

lemma init_fold_ddr_frame:
  "\<forall>p \<in> set ps. \<not> (dir_reg p = Some r \<and> port_reg p \<noteq> None \<and> unat (port_num p) = k) \<Longrightarrow>
     bit (port_ddr (fold init_pin ps g) r) k \<longleftrightarrow> bit (port_ddr g r) k"
  by (induction ps arbitrary: g) (auto simp: init_pin_ddr_frame)

lemma init_fold_out_frame:
  "\<forall>p \<in> set ps. \<not> pin_here r k p \<Longrightarrow> bit (port_out (fold init_pin ps g) r) k \<longleftrightarrow> bit (port_out g r) k"
  by (induction ps arbitrary: g) (auto simp: init_pin_out_frame)

lemma pins_wf_rest:
  assumes "pins_wf (xs @ p # ys)" and "port_reg p = Some r"
  shows "\<forall>p' \<in> set ys. \<not> pin_here r (unat (port_num p)) p'"
proof
  fix p' assume p': "p' \<in> set ys"
  let ?f = "\<lambda>p. (port_reg p, port_num p)" and ?P = "\<lambda>p. port_reg p \<noteq> None"
  have "distinct (map ?f (filter ?P xs) @ map ?f (filter ?P (p # ys)))"
    using assms(1) by (simp only: pins_wf_def filter_append map_append)
  then have "distinct (map ?f (filter ?P (p # ys)))" by (simp only: distinct_append)
  with assms(2) have fresh: "?f p \<notin> set (map ?f (filter ?P ys))" by simp
  show "\<not> pin_here r (unat (port_num p)) p'"
  proof
    assume "pin_here r (unat (port_num p)) p'"
    with assms(2) have "?f p' = ?f p" "?P p'" by (simp_all add: pin_here_def word_unat_eq_iff)
    with p' have "p' \<in> set (filter ?P ys)" by simp
    then have "(port_reg p, port_num p) \<in> set (map ?f (filter ?P ys))"
      unfolding set_map by (rule rev_image_eqI) (simp only: \<open>?f p' = ?f p\<close>)
    with fresh show False by blast
  qed
qed

lemma init_fold_pin:
  assumes wf: "pins_wf ps" and p: "p \<in> set ps" "port_reg p = Some r"
  shows "bit (port_ddr (fold init_pin ps g) r) (unat (port_num p)) \<longleftrightarrow> pin_dir p = ATMEL_OUTPUT" (is ?A)
    and "pin_dir p = ATMEL_INPUT \<Longrightarrow> pull_up p = ATMEL_PULL_ENA \<Longrightarrow>
      bit (port_out (fold init_pin ps g) r) (unat (port_num p))" (is "_ \<Longrightarrow> _ \<Longrightarrow> ?B")
proof -
  obtain xs ys where ps: "ps = xs @ p # ys" using p(1) by (auto dest: split_list)
  have rest: "\<forall>p' \<in> set ys. \<not> pin_here r (unat (port_num p)) p'"
    using pins_wf_rest wf p(2) unfolding ps by blast
  have same: "dir_reg p' = port_reg p'" if "p' \<in> set ps" for p'
    using wf that by (auto simp: pins_wf_def list_all_iff)
  with rest have restd:
    "\<forall>p' \<in> set ys. \<not> (dir_reg p' = Some r \<and> port_reg p' \<noteq> None \<and> unat (port_num p') = unat (port_num p))"
    by (auto simp: pin_here_def ps)
  have n: "unat (port_num p) < 8" "pin_dir p \<noteq> ATMEL_DIR_INVAL"
    using wf p by (auto simp: pins_wf_def list_all_iff)
  have d: "dir_reg p = Some r" using same p by simp
  have f: "fold init_pin ps g = fold init_pin ys (init_pin p (fold init_pin xs g))"
    by (simp add: ps)
  show ?A
    unfolding f init_fold_ddr_frame [OF restd] using p d n
    by (cases "pin_dir p") (simp_all add: init_pin_def gpio_bits Let_def)
  assume "pin_dir p = ATMEL_INPUT" "pull_up p = ATMEL_PULL_ENA"
  then show ?B
    unfolding f init_fold_out_frame [OF rest] using p d n
    by (simp add: init_pin_def gpio_bits Let_def)
qed

lemma atmega1284_wf: "pins_wf atmega1284_pins"
  by (simp add: pins_wf_def atmega1284_pins_def PINDEF_def)

lemma atmega328_wf: "pins_wf atmega328_pins"
  by (simp add: pins_wf_def atmega328_pins_def PINDEF_def)

lemma length_atmega1284 [simp]: "length atmega1284_pins = 41"
  by (simp add: atmega1284_pins_def)

text \<open>The two slave-select pins of the board in use are bits 4 and 3 of port B.\<close>

lemma pin_low_sd: "pin_low atmega1284_pins PIN_SS_SD g = (0, clear_out PORTB 4 g)"
  and pin_high_sd: "pin_high atmega1284_pins PIN_SS_SD g = (0, set_out PORTB 4 g)"
  and pin_low_lcd: "pin_low atmega1284_pins PIN_LCD_SS g = (0, clear_out PORTB 3 g)"
  and pin_high_lcd: "pin_high atmega1284_pins PIN_LCD_SS g = (0, set_out PORTB 3 g)"
  by (simp_all add: pin_low_def pin_high_def PIN_SS_SD_def PIN_LCD_SS_def atmega1284_pins_def PINDEF_def)

section \<open>Properties\<close>

text \<open>C35. \<open>initialize_pins\<close> configures the board from its table: for every pin with a port, on
  the ATmega1284 and the ATmega328, the direction bit is set exactly when the table says output,
  and an input with an enabled pull-up has its port bit set; the direction and output bits of
  positions no pin of the table names are left alone.\<close>

theorem initialize_pins_configures:
  assumes "ps = atmega1284_pins \<or> ps = atmega328_pins" and "p \<in> set ps" and "port_reg p = Some r"
  shows "(bit (port_ddr (initialize_pins ps g) r) (unat (port_num p)) \<longleftrightarrow> pin_dir p = ATMEL_OUTPUT) \<and>
    (pin_dir p = ATMEL_INPUT \<and> pull_up p = ATMEL_PULL_ENA \<longrightarrow>
       bit (port_out (initialize_pins ps g) r) (unat (port_num p))) \<and>
    (\<forall>r' k. (\<forall>p' \<in> set ps. \<not> pin_here r' k p') \<longrightarrow>
       bit (port_ddr (initialize_pins ps g) r') k = bit (port_ddr g r') k \<and>
       bit (port_out (initialize_pins ps g) r') k = bit (port_out g r') k)"
proof -
  have wf: "pins_wf ps" using assms(1) atmega1284_wf atmega328_wf by auto
  then have "\<forall>p' \<in> set ps. dir_reg p' = port_reg p'" by (auto simp: pins_wf_def list_all_iff)
  then have "bit (port_ddr (fold init_pin ps g) r') k = bit (port_ddr g r') k"
    if "\<forall>p' \<in> set ps. \<not> pin_here r' k p'" for r' k
    using that by (intro init_fold_ddr_frame) (auto simp: pin_here_def)
  with init_fold_pin [OF wf assms(2,3)] init_fold_out_frame show ?thesis
    unfolding initialize_pins_def by blast
qed

theorem initialize_pins_configures_witness:
  "bit (port_ddr (initialize_pins atmega1284_pins \<lparr>port_out = (\<lambda>_. 0), port_ddr = (\<lambda>_. 0)\<rparr>) PORTB) 4"
proof -
  have "atmega1284_pins ! 5 \<in> set atmega1284_pins" by (rule nth_mem) simp
  from initialize_pins_configures [OF disjI1 [OF refl] this, of PORTB "\<lparr>port_out = (\<lambda>_. 0), port_ddr = (\<lambda>_. 0)\<rparr>"]
  show ?thesis by (simp add: atmega1284_pins_def PINDEF_def)
qed

definition pin_usable :: "pin list \<Rightarrow> u8 \<Rightarrow> bool" where
  "pin_usable ps n \<longleftrightarrow> 0 < n \<and> unat n < length ps \<and> port_reg (ps ! unat n) \<noteq> None \<and>
     pin_dir (ps ! unat n) = ATMEL_OUTPUT"

text \<open>\<open>pin_high\<close> and \<open>pin_low\<close> do what the README promises on every table: on a usable
  output pin they return 0 and set or clear exactly that pin's port bit, leaving every other bit
  and every direction as they were; on any other argument (0, past the table, a pin without a
  port, an input) they return -1 and change nothing.\<close>

theorem pin_ops_exact:
  "(case pin_high ps n g of (res, g') \<Rightarrow>
     (if pin_usable ps n
      then res = 0 \<and> port_ddr g' = port_ddr g \<and>
        (\<forall>r k. bit (port_out g' r) k \<longleftrightarrow> bit (port_out g r) k \<or> (pin_here r k (ps ! unat n) \<and> k < 8))
      else res = - 1 \<and> g' = g)) \<and>
   (case pin_low ps n g of (res, g') \<Rightarrow>
     (if pin_usable ps n
      then res = 0 \<and> port_ddr g' = port_ddr g \<and>
        (\<forall>r k. bit (port_out g' r) k \<longleftrightarrow> bit (port_out g r) k \<and> \<not> pin_here r k (ps ! unat n))
      else res = - 1 \<and> g' = g))"
  by (auto simp: pin_high_def pin_low_def pin_usable_def pin_here_def gpio_bits word_gt_0
      split: option.splits)

text \<open>On the ATmega2560 pin 35 is declared an output of port L but names the direction
  register of port G: initialisation leaves bit 0 of DDRL as it was, so the pin stays an input,
  and \<open>pin_high\<close> on it reports success.\<close>

theorem mega2560_pin35_stays_input:
  "pin_dir (atmega2560_pins ! 35) = ATMEL_OUTPUT \<and> port_reg (atmega2560_pins ! 35) = Some PORTL \<and>
   bit (port_ddr (initialize_pins atmega2560_pins g) PORTL) 0 = bit (port_ddr g PORTL) 0 \<and>
   fst (pin_high atmega2560_pins 35 g) = 0"
proof -
  have "bit (port_ddr (fold init_pin atmega2560_pins g) PORTL) 0 = bit (port_ddr g PORTL) 0"
    by (rule init_fold_ddr_frame)
      (simp add: atmega2560_pins_def atmega2560_pins_lo_def atmega2560_pins_hi_def PINDEF_def)
  moreover have "pin_dir (atmega2560_pins ! 35) = ATMEL_OUTPUT" "port_reg (atmega2560_pins ! 35) = Some PORTL"
    "length atmega2560_pins = 101"
    by (simp_all add: atmega2560_pins_def atmega2560_pins_lo_def atmega2560_pins_hi_def PINDEF_def)
  ultimately show ?thesis by (simp add: initialize_pins_def pin_high_def)
qed

end
