(* ===== verification/Spi.thy ===== *)
theory Spi
  imports Pins
begin

text \<open>
  src/spi.c on the ATmega1284. The machine state is the port registers, the SPI control
  register and the state of whatever is on the bus. The bus itself is hardware and a parameter:
  \<open>bus_xfer\<close> is one full-duplex exchange as the controller performs it when \<open>SPDR\<close> is
  written (\<open>None\<close> where \<open>SPIF\<close> is never raised, so that the wait loop does not end),
  \<open>bus_lines\<close> is what the devices see when the port lines change.
\<close>

record 'c mcu =
  m_gpio :: gpio
  m_spcr :: u8
  m_dev :: 'c

record 'c spi_bus =
  bus_xfer :: "u8 \<Rightarrow> gpio \<Rightarrow> u8 \<Rightarrow> 'c \<Rightarrow> (u8 \<times> 'c) option"
  bus_lines :: "gpio \<Rightarrow> 'c \<Rightarrow> 'c"

text \<open>Bit numbers of \<open>SPCR\<close> in the device header.\<close>

definition SPE :: nat where "SPE = 6"
definition MSTR :: nat where "MSTR = 4"
definition SPR1 :: nat where "SPR1 = 1"
definition SPR0 :: nat where "SPR0 = 0"

definition SPI_SD_CARD :: u8 where "SPI_SD_CARD = 1"
definition SPI_LCD :: u8 where "SPI_LCD = 2"

text \<open>A pin operation of \<open>Pins\<close> on the machine.\<close>

definition mcu_pin :: "'c spi_bus \<Rightarrow> (u8 \<Rightarrow> gpio \<Rightarrow> int \<times> gpio) \<Rightarrow> u8 \<Rightarrow> 'c mcu \<Rightarrow> int \<times> 'c mcu" where
  "mcu_pin bus f pin m =
    (let (r, g) = f pin (m_gpio m)
     in (r, if r < 0 then m else m\<lparr>m_gpio := g, m_dev := bus_lines bus g (m_dev m)\<rparr>))"

definition spi_initialize_slave_select :: "'c spi_bus \<Rightarrow> u8 \<Rightarrow> 'c mcu \<Rightarrow> 'c mcu" where
  "spi_initialize_slave_select bus pin m = snd (mcu_pin bus (pin_high atmega1284_pins) pin m)"

definition initialize_spi :: "'c spi_bus \<Rightarrow> 'c mcu \<Rightarrow> 'c mcu" where
  "initialize_spi bus m =
    (let m = spi_initialize_slave_select bus PIN_SS_SD m;
         m = m\<lparr>m_spcr := m_spcr m OR push_bit SPE 1\<rparr>;
         m = m\<lparr>m_spcr := m_spcr m OR push_bit MSTR 1\<rparr>
     in m\<lparr>m_spcr := m_spcr m OR (push_bit SPR1 1 OR push_bit SPR0 1)\<rparr>)"

definition spi_device_enable :: "'c spi_bus \<Rightarrow> u8 \<Rightarrow> 'c mcu \<Rightarrow> int \<times> 'c mcu" where
  "spi_device_enable bus dev m =
    (let m = snd (mcu_pin bus (pin_high atmega1284_pins) PIN_SS_SD m);
         m = snd (mcu_pin bus (pin_high atmega1284_pins) PIN_LCD_SS m)
     in if dev = SPI_SD_CARD then
          (let (r, m) = mcu_pin bus (pin_low atmega1284_pins) PIN_SS_SD m in (if r < 0 then - 1 else 0, m))
        else if dev = SPI_LCD then
          (let (r, m) = mcu_pin bus (pin_low atmega1284_pins) PIN_LCD_SS m in (if r < 0 then - 1 else 0, m))
        else (- 1, m))"

definition spi_device_disable :: "'c spi_bus \<Rightarrow> u8 \<Rightarrow> 'c mcu \<Rightarrow> int \<times> 'c mcu" where
  "spi_device_disable bus dev m =
    (if dev = SPI_SD_CARD then
       (let (r, m) = mcu_pin bus (pin_high atmega1284_pins) PIN_SS_SD m in (if r < 0 then - 1 else 0, m))
     else if dev = SPI_LCD then
       (let (r, m) = mcu_pin bus (pin_high atmega1284_pins) PIN_LCD_SS m in (if r < 0 then - 1 else 0, m))
     else (- 1, m))"

definition spi_write_char :: "'c spi_bus \<Rightarrow> u8 \<Rightarrow> 'c mcu \<Rightarrow> (u8 \<times> 'c mcu) option" where
  "spi_write_char bus ch m =
    do {
      (r, d) \<leftarrow> bus_xfer bus (m_spcr m) (m_gpio m) ch (m_dev m);
      Some (r, m\<lparr>m_dev := d\<rparr>)
    }"

definition spi_read_char :: "'c spi_bus \<Rightarrow> 'c mcu \<Rightarrow> (u8 \<times> 'c mcu) option" where
  "spi_read_char bus m =
    do {
      (r, d) \<leftarrow> bus_xfer bus (m_spcr m) (m_gpio m) 0xFF (m_dev m);
      Some (r, m\<lparr>m_dev := d\<rparr>)
    }"

text \<open>A sequence of \<open>spi_write_char\<close> calls whose results are not looked at.\<close>

fun spi_send :: "'c spi_bus \<Rightarrow> u8 list \<Rightarrow> 'c mcu \<Rightarrow> 'c mcu option" where
  "spi_send bus [] m = Some m"
| "spi_send bus (b # bs) m = do { (_, m) \<leftarrow> spi_write_char bus b m; spi_send bus bs m }"

section \<open>Device selection\<close>

text \<open>At most one device is selected: its line is low and the other one high.\<close>

definition sd_selected :: "gpio \<Rightarrow> bool" where
  "sd_selected g \<longleftrightarrow> \<not> bit (port_out g PORTB) 4 \<and> bit (port_out g PORTB) 3"

definition lcd_selected :: "gpio \<Rightarrow> bool" where
  "lcd_selected g \<longleftrightarrow> bit (port_out g PORTB) 4 \<and> \<not> bit (port_out g PORTB) 3"

definition spi_on :: "u8 \<Rightarrow> bool" where
  "spi_on k \<longleftrightarrow> bit k SPE \<and> bit k MSTR"

lemmas spi_pins = pin_low_sd pin_high_sd pin_low_lcd pin_high_lcd

lemma mcu_pin_ok: "f pin (m_gpio m) = (0, g) \<Longrightarrow>
   mcu_pin bus f pin m = (0, m\<lparr>m_gpio := g, m_dev := bus_lines bus g (m_dev m)\<rparr>)"
  by (simp add: mcu_pin_def)

lemma spi_enable_sd:
  "\<exists>g1 g2 g3. spi_device_enable bus SPI_SD_CARD m =
     (0, m\<lparr>m_gpio := g3, m_dev := bus_lines bus g3 (bus_lines bus g2 (bus_lines bus g1 (m_dev m)))\<rparr>) \<and>
     sd_selected g3 \<and> port_ddr g3 = port_ddr (m_gpio m)"
  by (rule exI [of _ "set_out PORTB 4 (m_gpio m)"],
      rule exI [of _ "set_out PORTB 3 (set_out PORTB 4 (m_gpio m))"],
      rule exI [of _ "clear_out PORTB 4 (set_out PORTB 3 (set_out PORTB 4 (m_gpio m)))"])
    (simp add: spi_device_enable_def mcu_pin_def spi_pins sd_selected_def gpio_bits Let_def)

lemma spi_disable_sd:
  "\<exists>g. spi_device_disable bus SPI_SD_CARD m = (0, m\<lparr>m_gpio := g, m_dev := bus_lines bus g (m_dev m)\<rparr>) \<and>
     bit (port_out g PORTB) 4"
  by (rule exI [of _ "set_out PORTB 4 (m_gpio m)"])
    (simp add: spi_device_disable_def mcu_pin_def spi_pins gpio_bits)

lemma spi_enable_spcr [simp]:
  "m_spcr (snd (spi_device_enable bus dev m)) = m_spcr m"
  "m_spcr (snd (spi_device_disable bus dev m)) = m_spcr m"
  by (simp_all add: spi_device_enable_def spi_device_disable_def mcu_pin_def Let_def split: prod.splits)

section \<open>Properties\<close>

text \<open>Device selection is exclusive: whatever the lines were, after
  \<open>spi_device_enable\<close> of the SD card or of the display that device is selected and the other
  is not, and the call returns 0; any other device number leaves both lines high and returns -1;
  and disabling a device leaves it deselected.\<close>

theorem spi_select_exclusive:
  "case spi_device_enable bus dev m of (r, m') \<Rightarrow>
     (if dev = SPI_SD_CARD then r = 0 \<and> sd_selected (m_gpio m') \<and> \<not> lcd_selected (m_gpio m')
      else if dev = SPI_LCD then r = 0 \<and> lcd_selected (m_gpio m') \<and> \<not> sd_selected (m_gpio m')
      else r = - 1 \<and> \<not> sd_selected (m_gpio m') \<and> \<not> lcd_selected (m_gpio m')) \<and>
     (let m'' = snd (spi_device_disable bus dev m')
      in \<not> sd_selected (m_gpio m'') \<and> \<not> lcd_selected (m_gpio m''))"
  by (simp add: spi_device_enable_def spi_device_disable_def mcu_pin_def spi_pins sd_selected_def
      lcd_selected_def gpio_bits Let_def SPI_SD_CARD_def SPI_LCD_def)

text \<open>\<open>initialize_spi\<close> deselects the SD card before it enables the controller (as the
  code's comment asks, so that the device does not become a slave), and leaves the controller
  enabled as a master at the slowest clock, the other bits of \<open>SPCR\<close> unchanged.\<close>

theorem spi_initialised:
  "\<not> sd_selected (m_gpio (initialize_spi bus m)) \<and> spi_on (m_spcr (initialize_spi bus m)) \<and>
   (\<forall>k. bit (m_spcr (initialize_spi bus m)) k \<longleftrightarrow>
      bit (m_spcr m) k \<or> k \<in> {SPE, MSTR, SPR1, SPR0})"
proof -
  have "bit (m_spcr (initialize_spi bus m)) k \<longleftrightarrow> bit (m_spcr m) k \<or> k \<in> {SPE, MSTR, SPR1, SPR0}" for k
    by (auto simp: initialize_spi_def spi_initialize_slave_select_def mcu_pin_def spi_pins bit_simps
        SPE_def MSTR_def SPR1_def SPR0_def Let_def simp del: push_bit_numeral push_bit_of_1 push_bit_Suc)
  then show ?thesis
    by (simp add: spi_on_def) (simp add: initialize_spi_def spi_initialize_slave_select_def mcu_pin_def
        spi_pins sd_selected_def gpio_bits Let_def)
qed

end
