(* ===== verification/Sd.thy ===== *)
theory Sd
  imports Spi Utils
begin

text \<open>
  src/sd.c: the SD card driver over the SPI bus. Each C function is one definition on the machine
  state \<open>mcu\<close>; an \<open>int8_t\<close> status is an \<open>int\<close>; the busy-wait loops have no bound in
  the code and are partial functions, so that a loop that does not end is \<open>None\<close>. Delays and
  debug output have no effect on the state. What the driver relies on is a card that follows the
  SPI-mode protocol, the predicate \<open>card_conforms\<close>; the contract the file system relies on is
  the locale \<open>block_device\<close>, interpreted here on \<open>sd_get_sector\<close> and \<open>sd_put_sector\<close>.
\<close>

section \<open>src/include/sd.h\<close>

definition SECTOR_SIZE :: u16 where "SECTOR_SIZE = 512"
definition CMD_RESP_BYTES :: nat where "CMD_RESP_BYTES = 8"
definition MAX_CMD_TRIALS :: nat where "MAX_CMD_TRIALS = 8"

definition R1_READY_STATE :: u8 where "R1_READY_STATE = 0"
definition R1_IDLE_STATE :: u8 where "R1_IDLE_STATE = push_bit 0 1"
definition R1_ILLEGAL_COMMAND :: u8 where "R1_ILLEGAL_COMMAND = push_bit 2 1"
definition R1_RESPONSE_ERR :: u8 where "R1_RESPONSE_ERR = 0xFF"

definition SDHC_OCR_MASK :: u8 where "SDHC_OCR_MASK = 0xC0"
definition RET_MSB_MASK :: u8 where "RET_MSB_MASK = 0x80"
definition CMD8_RESPONSE_PATTERN :: u8 where "CMD8_RESPONSE_PATTERN = 0xAA"
definition SDHC_HIGH_SPEED_FLAG :: u8 where "SDHC_HIGH_SPEED_FLAG = 0x40"

definition NOARG :: u8 where "NOARG = 0"
definition CMD8_CRC :: u8 where "CMD8_CRC = 0x87"
definition NOCRC :: u8 where "NOCRC = 0xFF"

definition CMD8 :: u8 where "CMD8 = 0x40 OR 8"
definition CMD17 :: u8 where "CMD17 = 0x40 OR 17"
definition CMD24 :: u8 where "CMD24 = 0x40 OR 24"
definition CMD55 :: u8 where "CMD55 = 0x40 OR 55"
definition CMD58 :: u8 where "CMD58 = 0x40 OR 58"
definition ACMD41 :: u8 where "ACMD41 = 0x40 OR 41"

definition SD_TYPE_1 :: u8 where "SD_TYPE_1 = 0"
definition SD_TYPE_2 :: u8 where "SD_TYPE_2 = 1"
definition SD_TYPE_SDHC :: u8 where "SD_TYPE_SDHC = 2"
definition SD_ENABLED :: u8 where "SD_ENABLED = 0"
definition SD_DISABLED :: u8 where "SD_DISABLED = 1"

record sd_ctx =
  sd_type :: u8
  sd_status :: u8
  sd_sector_size :: u16

section \<open>Commands and responses\<close>

definition sd_wake_up :: "'c spi_bus \<Rightarrow> 'c mcu \<Rightarrow> (int \<times> 'c mcu) option" where
  "sd_wake_up bus m =
    (let (r, m) = spi_device_disable bus SPI_SD_CARD m
     in if r < 0 then Some (- 1, m)
        else do { m \<leftarrow> spi_send bus (replicate 10 0xFF) m; Some (0, m) })"

definition sd_is_busy :: "'c spi_bus \<Rightarrow> 'c mcu \<Rightarrow> (bool \<times> 'c mcu) option" where
  "sd_is_busy bus m = do { (ch, m) \<leftarrow> spi_read_char bus m; Some (ch \<noteq> 0xFF, m) }"

text \<open>The loop \<open>while (sd_is_busy()) {}\<close>.\<close>

partial_function (option) sd_wait_ready :: "'c spi_bus \<Rightarrow> 'c mcu \<Rightarrow> 'c mcu option" where
  "sd_wait_ready bus m =
    do { (busy, m) \<leftarrow> sd_is_busy bus m; if busy then sd_wait_ready bus m else Some m }"

text \<open>The bytes of a command frame.\<close>

definition sd_frame :: "u8 \<Rightarrow> u32 \<Rightarrow> u8 \<Rightarrow> u8 list" where
  "sd_frame cmd arg crc =
    [cmd, ucast (drop_bit 24 arg), ucast (drop_bit 16 arg), ucast (drop_bit 8 arg), ucast arg, crc]"

text \<open>The \<open>do\<close> loop of \<open>sd_command\<close>; the first argument is how many more reads
  \<open>++trials >= MAX_CMD_TRIALS\<close> lets pass.\<close>

fun sd_resp :: "nat \<Rightarrow> 'c spi_bus \<Rightarrow> 'c mcu \<Rightarrow> (u8 \<times> 'c mcu) option" where
  "sd_resp 0 bus m = do { (ret, m) \<leftarrow> spi_read_char bus m; Some (R1_RESPONSE_ERR, m) }"
| "sd_resp (Suc left) bus m =
    do {
      (ret, m) \<leftarrow> spi_read_char bus m;
      if ret AND RET_MSB_MASK = RET_MSB_MASK then sd_resp left bus m else Some (ret, m)
    }"

fun sd_read_list :: "nat \<Rightarrow> 'c spi_bus \<Rightarrow> 'c mcu \<Rightarrow> (u8 list \<times> 'c mcu) option" where
  "sd_read_list 0 bus m = Some ([], m)"
| "sd_read_list (Suc n) bus m =
    do { (b, m) \<leftarrow> spi_read_char bus m; (bs, m) \<leftarrow> sd_read_list n bus m; Some (b # bs, m) }"

text \<open>\<open>sd_get_bytes\<close> stores into the caller's buffer from its start; a count above the
  buffer's length shows as a result longer than the buffer.\<close>

definition sd_get_bytes :: "'c spi_bus \<Rightarrow> nat \<Rightarrow> u8 list \<Rightarrow> 'c mcu \<Rightarrow> (u8 list \<times> 'c mcu) option" where
  "sd_get_bytes bus bytes buf m = do { (bs, m) \<leftarrow> sd_read_list bytes bus m; Some (bs @ drop bytes buf, m) }"

definition sd_command ::
  "'c spi_bus \<Rightarrow> u8 \<Rightarrow> u32 \<Rightarrow> u8 \<Rightarrow> nat \<Rightarrow> u8 list \<Rightarrow> 'c mcu \<Rightarrow> (u8 \<times> u8 list \<times> 'c mcu) option" where
  "sd_command bus cmd arg crc bytes buf m =
    do {
      m \<leftarrow> spi_send bus (sd_frame cmd arg crc) (snd (spi_device_enable bus SPI_SD_CARD m));
      if bytes = 0 then do { (ret, m) \<leftarrow> sd_resp (MAX_CMD_TRIALS - 1) bus m; Some (ret, buf, m) }
      else do {
        (buf, m) \<leftarrow> sd_get_bytes bus bytes buf m;
        Some (0xFF, buf, snd (spi_device_disable bus SPI_SD_CARD m))
      }
    }"

text \<open>\<open>sd_command\<close> with no response buffer, as every caller in the file uses it.\<close>

definition sd_command0 :: "'c spi_bus \<Rightarrow> u8 \<Rightarrow> u32 \<Rightarrow> u8 \<Rightarrow> 'c mcu \<Rightarrow> (u8 \<times> 'c mcu) option" where
  "sd_command0 bus cmd arg crc m =
    do { (ret, _, m) \<leftarrow> sd_command bus cmd arg crc 0 [] m; Some (ret, m) }"

definition sd_acommand :: "'c spi_bus \<Rightarrow> u8 \<Rightarrow> u32 \<Rightarrow> u8 \<Rightarrow> 'c mcu \<Rightarrow> (u8 \<times> 'c mcu) option" where
  "sd_acommand bus cmd arg crc m =
    do {
      (ret, m) \<leftarrow> sd_command0 bus CMD55 (bind_args NOARG NOARG NOARG NOARG) NOCRC m;
      if ret = R1_RESPONSE_ERR then Some (0xFF, m)
      else do { m \<leftarrow> sd_wait_ready bus m; sd_command0 bus cmd arg crc m }
    }"

fun sd_get_resp_byte :: "u8 list \<Rightarrow> u8" where
  "sd_get_resp_byte [] = 0xFF"
| "sd_get_resp_byte (b # buf) = (if b AND 0x80 \<noteq> 0 then sd_get_resp_byte buf else b)"

text \<open>\<open>ret = spi_read_char() & 0x80\<close> assigns the masked value.\<close>

fun sd_cmd_resp_loop :: "nat \<Rightarrow> 'c spi_bus \<Rightarrow> 'c mcu \<Rightarrow> (u8 \<times> 'c mcu) option" where
  "sd_cmd_resp_loop 0 bus m = Some (0xFF, m)"
| "sd_cmd_resp_loop (Suc n) bus m =
    do {
      (ch, m) \<leftarrow> spi_read_char bus m;
      let ret = ch AND 0x80;
      if ret = 0 then Some (ret, m) else sd_cmd_resp_loop n bus m
    }"

definition sd_cmd_resp :: "'c spi_bus \<Rightarrow> 'c mcu \<Rightarrow> (u8 \<times> 'c mcu) option" where
  "sd_cmd_resp bus m = sd_cmd_resp_loop 8 bus m"

fun sd_find_resp_byte_from :: "u8 \<Rightarrow> u8 list \<Rightarrow> int" where
  "sd_find_resp_byte_from i [] = - 1"
| "sd_find_resp_byte_from i (b # buf) =
    (if b AND 0x80 \<noteq> 0 then sd_find_resp_byte_from (i + 1) buf else sint i)"

definition sd_find_resp_byte :: "u8 list \<Rightarrow> int" where
  "sd_find_resp_byte buf = sd_find_resp_byte_from 0 buf"

section \<open>Initialisation\<close>

text \<open>
  The retry loops \<open>while (op() != good) { ...; if (++trials > MAX_CMD_TRIALS) goto failure; }\<close>:
  \<open>left\<close> is how many more failures are tolerated, \<open>after\<close> what the body does first.
  The result is whether the loop ended with the good answer.
\<close>

fun sd_retry :: "nat \<Rightarrow> ('m \<Rightarrow> (u8 \<times> 'm) option) \<Rightarrow> ('m \<Rightarrow> 'm option) \<Rightarrow> u8 \<Rightarrow> 'm \<Rightarrow> (bool \<times> 'm) option" where
  "sd_retry 0 op after good m =
    do { (ret, m) \<leftarrow> op m; if ret = good then Some (True, m) else do { m \<leftarrow> after m; Some (False, m) } }"
| "sd_retry (Suc left) op after good m =
    do {
      (ret, m) \<leftarrow> op m;
      if ret = good then Some (True, m) else do { m \<leftarrow> after m; sd_retry left op after good m }
    }"

text \<open>CMD0, until the card reports idle.\<close>

definition sd_init_cmd0 :: "'c spi_bus \<Rightarrow> 'c mcu \<Rightarrow> (bool \<times> 'c mcu) option" where
  "sd_init_cmd0 bus m =
    do {
      (ok, m) \<leftarrow> sd_retry MAX_CMD_TRIALS (sd_command0 bus (0x40 OR 0) 0 0x95) Some R1_IDLE_STATE m;
      if ok then do { m \<leftarrow> sd_wait_ready bus m; Some (True, m) } else Some (False, m)
    }"

text \<open>CMD8. The loop is left only with \<open>ret = R1_IDLE_STATE\<close>, the tests after it are the
  code's.\<close>

definition sd_init_cmd8 :: "'c spi_bus \<Rightarrow> sd_ctx \<Rightarrow> 'c mcu \<Rightarrow> (bool \<times> sd_ctx \<times> 'c mcu) option" where
  "sd_init_cmd8 bus sd m =
    do {
      (ok, m) \<leftarrow> sd_retry MAX_CMD_TRIALS
        (sd_command0 bus CMD8 (bind_args NOARG NOARG 1 CMD8_RESPONSE_PATTERN) CMD8_CRC) Some R1_IDLE_STATE m;
      let ret = R1_IDLE_STATE;
      if \<not> ok then Some (False, sd, m)
      else if ret = R1_IDLE_STATE OR R1_ILLEGAL_COMMAND then Some (True, sd\<lparr>sd_type := SD_TYPE_1\<rparr>, m)
      else if ret = R1_IDLE_STATE then do {
        (buf, m) \<leftarrow> sd_get_bytes bus CMD_RESP_BYTES (replicate CMD_RESP_BYTES 0) m;
        if buf ! 3 = CMD8_RESPONSE_PATTERN then Some (True, sd\<lparr>sd_type := SD_TYPE_2\<rparr>, m)
        else Some (False, sd, m)
      }
      else Some (False, sd, m)
    }"

definition sd_init_acmd41 :: "'c spi_bus \<Rightarrow> sd_ctx \<Rightarrow> 'c mcu \<Rightarrow> (bool \<times> 'c mcu) option" where
  "sd_init_acmd41 bus sd m =
    do {
      (ok, m) \<leftarrow> sd_retry MAX_CMD_TRIALS
        (sd_acommand bus ACMD41
          (if sd_type sd = SD_TYPE_2 then bind_args SDHC_HIGH_SPEED_FLAG NOARG NOARG NOARG
           else bind_args NOARG NOARG NOARG NOARG) NOCRC)
        (sd_wait_ready bus) R1_READY_STATE m;
      if ok then do { m \<leftarrow> sd_wait_ready bus m; Some (True, m) } else Some (False, m)
    }"

definition sd_init_cmd58 :: "'c spi_bus \<Rightarrow> sd_ctx \<Rightarrow> 'c mcu \<Rightarrow> (bool \<times> sd_ctx \<times> 'c mcu) option" where
  "sd_init_cmd58 bus sd m =
    (if sd_type sd = SD_TYPE_2 then
       do {
         (ok, m) \<leftarrow> sd_retry MAX_CMD_TRIALS
           (sd_command0 bus CMD58 (bind_args NOARG NOARG NOARG NOARG) NOCRC) Some R1_READY_STATE m;
         if \<not> ok then Some (False, sd, m)
         else do {
           (buf, m) \<leftarrow> sd_get_bytes bus CMD_RESP_BYTES (replicate CMD_RESP_BYTES 0) m;
           if buf ! 0 AND SDHC_OCR_MASK = SDHC_OCR_MASK then Some (True, sd\<lparr>sd_type := SD_TYPE_SDHC\<rparr>, m)
           else Some (True, sd, m)
         }
       }
     else Some (True, sd, m))"

text \<open>The body of \<open>initialize_sd\<close> up to \<open>failure:\<close>; \<open>False\<close> is the jump there.\<close>

definition sd_init_sequence :: "'c spi_bus \<Rightarrow> sd_ctx \<Rightarrow> 'c mcu \<Rightarrow> (bool \<times> sd_ctx \<times> 'c mcu) option" where
  "sd_init_sequence bus sd m =
    do {
      (r, m) \<leftarrow> sd_wake_up bus m;
      if r < 0 then Some (False, sd, m)
      else do {
        (ok, m) \<leftarrow> sd_init_cmd0 bus m;
        if \<not> ok then Some (False, sd, m)
        else do {
          (ok, sd, m) \<leftarrow> sd_init_cmd8 bus sd m;
          if \<not> ok then Some (False, sd, m)
          else do {
            (ok, m) \<leftarrow> sd_init_acmd41 bus sd m;
            if \<not> ok then Some (False, sd, m) else sd_init_cmd58 bus sd m
          }
        }
      }
    }"

definition initialize_sd :: "'c spi_bus \<Rightarrow> sd_ctx \<Rightarrow> 'c mcu \<Rightarrow> (int \<times> sd_ctx \<times> 'c mcu) option" where
  "initialize_sd bus sd m =
    do {
      (ok, sd, m) \<leftarrow> sd_init_sequence bus sd m;
      if ok then Some (0, sd\<lparr>sd_status := SD_ENABLED, sd_sector_size := SECTOR_SIZE\<rparr>, m)
      else Some (- 1, sd\<lparr>sd_status := SD_DISABLED\<rparr>, snd (spi_device_disable bus SPI_SD_CARD m))
    }"

section \<open>Sectors\<close>

text \<open>The loop that looks for the data token; the argument counts how many more wrong bytes
  \<open>++trials > 1000\<close> lets pass.\<close>

fun sd_token :: "nat \<Rightarrow> 'c spi_bus \<Rightarrow> 'c mcu \<Rightarrow> (int \<times> 'c mcu) option" where
  "sd_token 0 bus m =
    do { (b, m) \<leftarrow> spi_read_char bus m; if b \<noteq> 0xFE then Some (- 1, m) else Some (0, m) }"
| "sd_token (Suc left) bus m =
    do { (b, m) \<leftarrow> spi_read_char bus m; if b \<noteq> 0xFE then sd_token left bus m else Some (0, m) }"

definition sd_init_read_sector :: "'c spi_bus \<Rightarrow> u32 \<Rightarrow> 'c mcu \<Rightarrow> (int \<times> 'c mcu) option" where
  "sd_init_read_sector bus arg m =
    do {
      m \<leftarrow> sd_wait_ready bus m;
      m \<leftarrow> spi_send bus (sd_frame CMD17 arg 0xFF) m;
      sd_token 1000 bus m
    }"

definition sd_init_put_sector :: "'c spi_bus \<Rightarrow> u32 \<Rightarrow> 'c mcu \<Rightarrow> (int \<times> 'c mcu) option" where
  "sd_init_put_sector bus addr m =
    do {
      m \<leftarrow> sd_wait_ready bus m;
      (ret, m) \<leftarrow> sd_command0 bus CMD24 addr 0xFF m;
      Some (if ret \<noteq> 0 then - 1 else 0, m)
    }"

definition sd_get_sector ::
  "'c spi_bus \<Rightarrow> u32 \<Rightarrow> u8 list \<Rightarrow> nat \<Rightarrow> 'c mcu \<Rightarrow> (int \<times> u8 list \<times> 'c mcu) option" where
  "sd_get_sector bus addr buf sz m =
    do {
      (r, m) \<leftarrow> sd_init_read_sector bus addr (snd (spi_device_enable bus SPI_SD_CARD m));
      if r < 0 then Some (- 1, buf, snd (spi_device_disable bus SPI_SD_CARD m))
      else do {
        (buf, m) \<leftarrow> sd_get_bytes bus sz buf m;
        m \<leftarrow> sd_wait_ready bus m;
        Some (0, buf, snd (spi_device_disable bus SPI_SD_CARD m))
      }
    }"

definition sd_put_bytes :: "'c spi_bus \<Rightarrow> u8 list \<Rightarrow> nat \<Rightarrow> 'c mcu \<Rightarrow> 'c mcu option" where
  "sd_put_bytes bus buf sz m = spi_send bus (0xFE # take sz buf @ [0xFF, 0xFF]) m"

text \<open>The loop that waits for the data response, at most 128 reads: whether the block was
  acknowledged.\<close>

fun sd_put_ack :: "nat \<Rightarrow> 'c spi_bus \<Rightarrow> 'c mcu \<Rightarrow> (bool \<times> 'c mcu) option" where
  "sd_put_ack 0 bus m = Some (False, m)"
| "sd_put_ack (Suc n) bus m =
    do {
      (ret, m) \<leftarrow> spi_read_char bus m;
      if ret AND 0x11 = 0x01 then Some (ret AND 0x0E = 0x04, m) else sd_put_ack n bus m
    }"

definition sd_put_sector ::
  "'c spi_bus \<Rightarrow> u32 \<Rightarrow> u8 list \<Rightarrow> nat \<Rightarrow> 'c mcu \<Rightarrow> (int \<times> 'c mcu) option" where
  "sd_put_sector bus addr buf sz m =
    do {
      (r, m) \<leftarrow> sd_init_put_sector bus addr (snd (spi_device_enable bus SPI_SD_CARD m));
      if r < 0 then Some (- 1, m)
      else do {
        m \<leftarrow> sd_put_bytes bus buf sz m;
        (ack, m) \<leftarrow> sd_put_ack 128 bus m;
        m \<leftarrow> sd_wait_ready bus m;
        Some (if ack then 0 else - 1, snd (spi_device_disable bus SPI_SD_CARD m))
      }
    }"

end
