(* ===== verification/Block.thy ===== *)
theory Block
  imports Prelude
begin

text \<open>
  The interface between the file system's sector cache and the storage below it: the two exported
  functions of src/sd.c, \<open>sd_get_sector\<close> and \<open>sd_put_sector\<close>, and what a provider promises
  of them. \<open>sect\<close> is the content of the medium, \<open>ok\<close> the provider's invariant and \<open>n\<close> the
  number of sectors.
\<close>

record 'm block_ops =
  blk_get :: "u32 \<Rightarrow> u8 list \<Rightarrow> nat \<Rightarrow> 'm \<Rightarrow> (int \<times> u8 list \<times> 'm) option"
  blk_put :: "u32 \<Rightarrow> u8 list \<Rightarrow> nat \<Rightarrow> 'm \<Rightarrow> (int \<times> 'm) option"

text \<open>Writing a list of sectors, one after the other.\<close>

fun blk_put_all :: "'m block_ops \<Rightarrow> (u32 \<times> u8 list) list \<Rightarrow> 'm \<Rightarrow> (int \<times> 'm) option" where
  "blk_put_all B [] m = Some (0, m)"
| "blk_put_all B ((a, bs) # xs) m =
    do { (r, m) \<leftarrow> blk_put B a bs 512 m; if r < 0 then Some (r, m) else blk_put_all B xs m }"

locale block_device =
  fixes B :: "'m block_ops"
    and ok :: "'m \<Rightarrow> bool"
    and sect :: "'m \<Rightarrow> u32 \<Rightarrow> u8 list"
    and n :: nat
  assumes get_sector: "\<lbrakk>ok m; unat a < n\<rbrakk> \<Longrightarrow>
      \<exists>m'. blk_get B a buf 512 m = Some (0, sect m a @ drop 512 buf, m') \<and> ok m' \<and> sect m' = sect m \<and>
        length (sect m a) = 512"
    and put_sector: "\<lbrakk>ok m; unat a < n; length bs = 512\<rbrakk> \<Longrightarrow>
      \<exists>m'. blk_put B a bs 512 m = Some (0, m') \<and> ok m' \<and> sect m' = (sect m)(a := bs)"
begin

lemma get_full:
  "\<lbrakk>ok m; unat a < n; length buf = 512\<rbrakk> \<Longrightarrow>
    \<exists>m'. blk_get B a buf 512 m = Some (0, sect m a, m') \<and> ok m' \<and> sect m' = sect m \<and> length (sect m a) = 512"
  using get_sector [of m a buf] by auto

text \<open>What was put is what is got, and the other sectors are untouched.\<close>

lemma put_all_get:
  assumes "ok m" and "list_all (\<lambda>(a, bs). unat a < n \<and> length bs = 512) xs" and "unat b < n" and "length buf = 512"
  shows "\<exists>m'. blk_put_all B xs m = Some (0, m') \<and> ok m' \<and>
    sect m' = fold (\<lambda>(a, bs) s. s(a := bs)) xs (sect m) \<and>
    (\<exists>m''. blk_get B b buf 512 m' = Some (0, sect m' b, m'') \<and> ok m'')"
  using assms(1,2)
proof (induction xs arbitrary: m)
  case Nil
  obtain m' where "blk_get B b buf 512 m = Some (0, sect m b, m')" "ok m'"
    using get_full [OF Nil(1) assms(3,4)] by blast
  with Nil show ?case by auto
next
  case (Cons x xs)
  obtain a bs where x: "x = (a, bs)" by fastforce
  with Cons.prems obtain m1 where m1: "blk_put B a bs 512 m = Some (0, m1)" "ok m1" "sect m1 = (sect m)(a := bs)"
    using put_sector [OF Cons.prems(1)] by auto
  from Cons.IH [OF m1(2)] Cons.prems(2) m1 x show ?case by auto
qed

end

end
