(* ===== verification/Sd_Card.thy ===== *)
theory Sd_Card
  imports Sd Block
begin

text \<open>
  The card the driver talks to, and what the driver guarantees against it. \<open>card\<close> is the
  abstract state of a card in SPI mode, \<open>card_conforms\<close> says that the device on the bus behaves
  like one (the documented SPI-mode behaviour the driver relies on, with the driver's own limits
  on how many filler bytes it skips). The contract a block device offers to its clients is the
  locale \<open>block_device\<close>.
\<close>

section \<open>The card\<close>

text \<open>
  The phases of a card: powered up and not yet in SPI mode; in SPI mode and initialising, with the number
  of ACMD41 it will still answer as busy and whether the last command was the prefix CMD55; ready, between
  two commands; waiting for the block of a CMD24; and inside a frame. Only a ready card serves the block
  commands.
\<close>

datatype card_phase = Card_power | Card_boot nat bool | Card_idle | Card_data u32 | Card_other

text \<open>\<open>cd_pend\<close> is what the card has still to say, \<open>cd_ocr\<close> its register of operating conditions.\<close>

record card =
  cd_phase :: card_phase
  cd_pend :: "u8 list"
  cd_sect :: "u32 \<Rightarrow> u8 list"
  cd_ocr :: "u8 list"

fun card_quiet :: "card_phase \<Rightarrow> bool" where
  "card_quiet Card_power \<longleftrightarrow> True"
| "card_quiet (Card_boot k app) \<longleftrightarrow> True"
| "card_quiet Card_idle \<longleftrightarrow> True"
| "card_quiet (Card_data a) \<longleftrightarrow> False"
| "card_quiet Card_other \<longleftrightarrow> False"

fun bus_send :: "'c spi_bus \<Rightarrow> u8 \<Rightarrow> gpio \<Rightarrow> u8 list \<Rightarrow> 'c \<Rightarrow> 'c option" where
  "bus_send bus k g [] c = Some c"
| "bus_send bus k g (b # bs) c = do { (_, c) \<leftarrow> bus_xfer bus k g b c; bus_send bus k g bs c }"

text \<open>Clocking a filler byte out of a card that is not receiving a frame shifts in the next byte
  it has to say, or 0xFF.\<close>

definition card_polls :: "('c \<Rightarrow> 'x card_scheme) \<Rightarrow> 'c spi_bus \<Rightarrow> bool" where
  "card_polls V bus \<longleftrightarrow> (\<forall>k g c. spi_on k \<and> sd_selected g \<and> cd_phase (V c) \<noteq> Card_other \<longrightarrow>
     (\<exists>c'. bus_xfer bus k g 0xFF c =
        Some (case cd_pend (V c) of [] \<Rightarrow> 0xFF | b # _ \<Rightarrow> b, c') \<and>
        V c' = (V c)\<lparr>cd_pend := tl (cd_pend (V c))\<rparr>))"

text \<open>A change of the select line may make a card that is in no transfer drop what it still had to say.\<close>

definition card_lines :: "('c \<Rightarrow> 'x card_scheme) \<Rightarrow> 'c spi_bus \<Rightarrow> bool" where
  "card_lines V bus \<longleftrightarrow> (\<forall>g c. card_quiet (cd_phase (V c)) \<longrightarrow>
     V (bus_lines bus g c) = V c \<or> V (bus_lines bus g c) = (V c)\<lparr>cd_pend := []\<rparr>)"

text \<open>CMD17: after some filler the data token, the 512 bytes of the sector and two CRC bytes. The argument is the
  number of the sector, as a high-capacity card takes it.\<close>

definition card_reads :: "('c \<Rightarrow> 'x card_scheme) \<Rightarrow> nat \<Rightarrow> 'c spi_bus \<Rightarrow> bool" where
  "card_reads V n bus \<longleftrightarrow> (\<forall>k g c a.
     spi_on k \<and> sd_selected g \<and> cd_phase (V c) = Card_idle \<and> cd_pend (V c) = [] \<and> unat a < n \<longrightarrow>
     (\<exists>c' pad c1 c2. bus_send bus k g (sd_frame CMD17 a 0xFF) c = Some c' \<and>
        V c' = (V c)\<lparr>cd_pend := pad @ 0xFE # cd_sect (V c) a @ [c1, c2]\<rparr> \<and>
        0xFE \<notin> set pad \<and> length pad \<le> 1000 \<and> length (cd_sect (V c) a) = 512))"

text \<open>CMD24: a good R1 response within seven bytes, and the card waits for the block.\<close>

definition card_accepts_write :: "('c \<Rightarrow> 'x card_scheme) \<Rightarrow> nat \<Rightarrow> 'c spi_bus \<Rightarrow> bool" where
  "card_accepts_write V n bus \<longleftrightarrow> (\<forall>k g c a.
     spi_on k \<and> sd_selected g \<and> cd_phase (V c) = Card_idle \<and> cd_pend (V c) = [] \<and> unat a < n \<longrightarrow>
     (\<exists>c' pad. bus_send bus k g (sd_frame CMD24 a 0xFF) c = Some c' \<and>
        V c' = (V c)\<lparr>cd_phase := Card_data a, cd_pend := pad @ [0]\<rparr> \<and>
        (\<forall>b \<in> set pad. b AND RET_MSB_MASK = RET_MSB_MASK) \<and> length pad \<le> 6))"

text \<open>The block: the data token, 512 bytes and two CRC bytes make the card store the block, answer
  with the data response \<open>xxx00101\<close> and stay busy for a while.\<close>

definition card_stores :: "('c \<Rightarrow> 'x card_scheme) \<Rightarrow> 'c spi_bus \<Rightarrow> bool" where
  "card_stores V bus \<longleftrightarrow> (\<forall>k g c a bs.
     spi_on k \<and> sd_selected g \<and> cd_phase (V c) = Card_data a \<and> cd_pend (V c) = [] \<and> length bs = 512 \<longrightarrow>
     (\<exists>c' pad r busy. bus_send bus k g (0xFE # bs @ [0xFF, 0xFF]) c = Some c' \<and>
        V c' = (V c)\<lparr>cd_phase := Card_idle, cd_sect := (cd_sect (V c))(a := bs), cd_pend := pad @ r # busy\<rparr> \<and>
        (\<forall>b \<in> set pad. b AND 0x11 \<noteq> 0x01) \<and> length pad \<le> 127 \<and>
        r AND 0x1F = 0x05 \<and> 0xFF \<notin> set busy))"

definition card_conforms :: "('c \<Rightarrow> 'x card_scheme) \<Rightarrow> nat \<Rightarrow> 'c spi_bus \<Rightarrow> bool" where
  "card_conforms V n bus \<longleftrightarrow> card_polls V bus \<and> card_lines V bus \<and> card_reads V n bus \<and>
     card_accepts_write V n bus \<and> card_stores V bus"

text \<open>The machine between two operations of the driver: the controller is on and the card is ready
  with at most one byte (of a CRC) left to say.\<close>

definition sd_ok :: "('c \<Rightarrow> 'x card_scheme) \<Rightarrow> nat \<Rightarrow> 'c spi_bus \<Rightarrow> 'c mcu \<Rightarrow> bool" where
  "sd_ok V n bus m \<longleftrightarrow> card_conforms V n bus \<and> spi_on (m_spcr m) \<and>
     cd_phase (V (m_dev m)) = Card_idle \<and> length (cd_pend (V (m_dev m))) \<le> 1"

definition sd_sectors :: "('c \<Rightarrow> 'x card_scheme) \<Rightarrow> 'c mcu \<Rightarrow> u32 \<Rightarrow> u8 list" where
  "sd_sectors V m = cd_sect (V (m_dev m))"

section \<open>One exchange at a time\<close>

text \<open>\<open>sd_at V bus C m\<close>: the card is selected and in abstract state \<open>C\<close>.\<close>

definition sd_at :: "('c \<Rightarrow> 'x card_scheme) \<Rightarrow> 'c spi_bus \<Rightarrow> 'x card_scheme \<Rightarrow> 'c mcu \<Rightarrow> bool" where
  "sd_at V bus C m \<longleftrightarrow> card_polls V bus \<and> spi_on (m_spcr m) \<and> sd_selected (m_gpio m) \<and> V (m_dev m) = C"

named_theorems sd_steps \<open>one operation of the driver on a selected card\<close>

lemma spi_send_bus: "spi_send bus bs m = map_option (\<lambda>c. m\<lparr>m_dev := c\<rparr>) (bus_send bus (m_spcr m) (m_gpio m) bs (m_dev m))"
  by (induction bs arbitrary: m) (auto simp: spi_write_char_def split: bind_splits)

lemma sd_at_dev: "sd_at V bus C m \<Longrightarrow> V c = C' \<Longrightarrow> sd_at V bus C' (m\<lparr>m_dev := c\<rparr>)"
  by (simp add: sd_at_def)

lemma card_pend_same: "cd_pend C = bs \<Longrightarrow> C\<lparr>cd_pend := bs\<rparr> = C"
  by (cases C) simp

lemma sd_read_pending:
  assumes "sd_at V bus C m" and "cd_phase C \<noteq> Card_other" and "cd_pend C = b # bs"
  shows "\<exists>m'. spi_read_char bus m = Some (b, m') \<and> sd_at V bus (C\<lparr>cd_pend := bs\<rparr>) m' \<and>
    m_spcr m' = m_spcr m"
proof -
  have "spi_on (m_spcr m) \<and> sd_selected (m_gpio m) \<and> cd_phase (V (m_dev m)) \<noteq> Card_other"
    "card_polls V bus" "V (m_dev m) = C"
    using assms by (auto simp: sd_at_def)
  then obtain c' where c': "bus_xfer bus (m_spcr m) (m_gpio m) 0xFF (m_dev m) =
      Some (case cd_pend (V (m_dev m)) of [] \<Rightarrow> 0xFF | b # _ \<Rightarrow> b, c')"
    "V c' = (V (m_dev m))\<lparr>cd_pend := tl (cd_pend (V (m_dev m)))\<rparr>"
    unfolding card_polls_def by blast
  with assms(3) \<open>V (m_dev m) = C\<close> have "V c' = C\<lparr>cd_pend := bs\<rparr>"
    "spi_read_char bus m = Some (b, m\<lparr>m_dev := c'\<rparr>)"
    by (simp_all add: spi_read_char_def)
  with sd_at_dev [OF assms(1) this(1)] show ?thesis by auto
qed

lemma sd_read_idle:
  assumes "sd_at V bus C m" and "cd_phase C \<noteq> Card_other" and "cd_pend C = []"
  shows "\<exists>m'. spi_read_char bus m = Some (0xFF, m') \<and> sd_at V bus C m' \<and> m_spcr m' = m_spcr m"
proof -
  have "spi_on (m_spcr m) \<and> sd_selected (m_gpio m) \<and> cd_phase (V (m_dev m)) \<noteq> Card_other"
    "card_polls V bus" "V (m_dev m) = C"
    using assms by (auto simp: sd_at_def)
  then obtain c' where c': "bus_xfer bus (m_spcr m) (m_gpio m) 0xFF (m_dev m) =
      Some (case cd_pend (V (m_dev m)) of [] \<Rightarrow> 0xFF | b # _ \<Rightarrow> b, c')"
    "V c' = (V (m_dev m))\<lparr>cd_pend := tl (cd_pend (V (m_dev m)))\<rparr>"
    unfolding card_polls_def by blast
  with assms(3) \<open>V (m_dev m) = C\<close> have "V c' = C" "spi_read_char bus m = Some (0xFF, m\<lparr>m_dev := c'\<rparr>)"
    by (simp_all add: spi_read_char_def card_pend_same)
  with sd_at_dev [OF assms(1)] show ?thesis by auto
qed

text \<open>The busy loop reads up to and including the first 0xFF.\<close>

lemma sd_wait_ready_at:
  assumes "sd_at V bus C m" and "cd_phase C \<noteq> Card_other" and "cd_pend C = bs" and "0xFF \<notin> set bs"
  shows "\<exists>m'. sd_wait_ready bus m = Some m' \<and> sd_at V bus (C\<lparr>cd_pend := []\<rparr>) m' \<and> m_spcr m' = m_spcr m"
  using assms
proof (induction bs arbitrary: m C)
  case Nil
  from sd_read_idle [OF Nil(1,2,3)] Nil(3) show ?case
    by (auto simp: sd_wait_ready.simps [of bus m] sd_is_busy_def card_pend_same)
next
  case (Cons b bs)
  from sd_read_pending [OF Cons.prems(1,2)] Cons.prems(3)
  obtain m' where m': "spi_read_char bus m = Some (b, m')" "sd_at V bus (C\<lparr>cd_pend := bs\<rparr>) m'"
    "m_spcr m' = m_spcr m"
    by auto
  from Cons.IH [OF m'(2)] Cons.prems m'(1,3) show ?case
    by (simp add: sd_wait_ready.simps [of bus m] sd_is_busy_def)
qed

lemma sd_wait_ready_short:
  assumes "sd_at V bus C m" and "cd_phase C \<noteq> Card_other" and "length (cd_pend C) \<le> 1"
  shows "\<exists>m'. sd_wait_ready bus m = Some m' \<and> sd_at V bus (C\<lparr>cd_pend := []\<rparr>) m' \<and> m_spcr m' = m_spcr m"
proof (cases "cd_pend C = [0xFF]")
  case True
  from sd_read_pending [OF assms(1,2) this] show ?thesis
    by (auto simp: sd_wait_ready.simps [of bus m] sd_is_busy_def)
next
  case False
  with assms(3) have "0xFF \<notin> set (cd_pend C)" by (cases "cd_pend C") auto
  with assms sd_wait_ready_at show ?thesis by blast
qed

text \<open>After a sector two CRC bytes are pending; the busy loop may stop at the first.\<close>

lemma sd_wait_ready_crc:
  assumes "sd_at V bus C m" and "cd_phase C \<noteq> Card_other" and "cd_pend C = [c1, c2]"
  shows "\<exists>m' bs. sd_wait_ready bus m = Some m' \<and> sd_at V bus (C\<lparr>cd_pend := bs\<rparr>) m' \<and> length bs \<le> 1 \<and>
     m_spcr m' = m_spcr m"
proof -
  from sd_read_pending [OF assms] obtain m' where m': "spi_read_char bus m = Some (c1, m')"
    "sd_at V bus (C\<lparr>cd_pend := [c2]\<rparr>) m'" "m_spcr m' = m_spcr m"
    by auto
  show ?thesis
  proof (cases "c1 = 0xFF")
    case True
    with m' show ?thesis
      by (intro exI [of _ m'] exI [of _ "[c2]"]) (simp add: sd_wait_ready.simps [of bus m] sd_is_busy_def)
  next
    case False
    from sd_wait_ready_short [OF m'(2)] assms(2) obtain m'' where
      "sd_wait_ready bus m' = Some m''" "sd_at V bus (C\<lparr>cd_pend := []\<rparr>) m''" "m_spcr m'' = m_spcr m'"
      by auto
    with False m' show ?thesis
      by (intro exI [of _ m''] exI [of _ "[]"]) (simp add: sd_wait_ready.simps [of bus m] sd_is_busy_def)
  qed
qed

lemma sd_read_list_at:
  assumes "sd_at V bus C m" and "cd_phase C \<noteq> Card_other" and "cd_pend C = bs @ rest"
  shows "\<exists>m'. sd_read_list (length bs) bus m = Some (bs, m') \<and> sd_at V bus (C\<lparr>cd_pend := rest\<rparr>) m' \<and>
     m_spcr m' = m_spcr m"
  using assms
proof (induction bs arbitrary: m C)
  case Nil
  then show ?case by (simp add: card_pend_same)
next
  case (Cons b bs)
  from sd_read_pending [OF Cons.prems(1,2)] Cons.prems(3)
  obtain m' where m': "spi_read_char bus m = Some (b, m')" "sd_at V bus (C\<lparr>cd_pend := bs @ rest\<rparr>) m'"
    "m_spcr m' = m_spcr m"
    by auto
  from Cons.IH [OF m'(2)] Cons.prems m' show ?case by auto
qed

lemma sd_token_at:
  assumes "sd_at V bus C m" and "cd_phase C \<noteq> Card_other" and "cd_pend C = pad @ 0xFE # rest"
    and "0xFE \<notin> set pad" and "length pad \<le> n"
  shows "\<exists>m'. sd_token n bus m = Some (0, m') \<and> sd_at V bus (C\<lparr>cd_pend := rest\<rparr>) m' \<and> m_spcr m' = m_spcr m"
  using assms
proof (induction pad arbitrary: m C n)
  case Nil
  from sd_read_pending [OF Nil(1,2)] Nil(3)
  obtain m' where "spi_read_char bus m = Some (0xFE, m')" "sd_at V bus (C\<lparr>cd_pend := rest\<rparr>) m'"
    "m_spcr m' = m_spcr m"
    by auto
  then show ?case by (cases n) auto
next
  case (Cons b pad)
  from sd_read_pending [OF Cons.prems(1,2)] Cons.prems(3)
  obtain m' where m': "spi_read_char bus m = Some (b, m')"
    "sd_at V bus (C\<lparr>cd_pend := pad @ 0xFE # rest\<rparr>) m'" "m_spcr m' = m_spcr m"
    by auto
  from Cons.prems obtain n' where n: "n = Suc n'" "length pad \<le> n'" by (cases n) auto
  from Cons.IH [OF m'(2) _ _ _ n(2)] Cons.prems m' n show ?case by auto
qed

lemma sd_resp_at:
  assumes "sd_at V bus C m" and "cd_phase C \<noteq> Card_other" and "cd_pend C = pad @ r # rest"
    and "\<forall>b \<in> set pad. b AND RET_MSB_MASK = RET_MSB_MASK" and "r AND RET_MSB_MASK \<noteq> RET_MSB_MASK"
    and "length pad < n"
  shows "\<exists>m'. sd_resp n bus m = Some (r, m') \<and> sd_at V bus (C\<lparr>cd_pend := rest\<rparr>) m' \<and> m_spcr m' = m_spcr m"
  using assms
proof (induction pad arbitrary: m C n)
  case Nil
  from sd_read_pending [OF Nil(1,2)] Nil(3)
  obtain m' where "spi_read_char bus m = Some (r, m')" "sd_at V bus (C\<lparr>cd_pend := rest\<rparr>) m'"
    "m_spcr m' = m_spcr m"
    by auto
  with Nil show ?case by (cases n) auto
next
  case (Cons b pad)
  from sd_read_pending [OF Cons.prems(1,2)] Cons.prems(3)
  obtain m' where m': "spi_read_char bus m = Some (b, m')"
    "sd_at V bus (C\<lparr>cd_pend := pad @ r # rest\<rparr>) m'" "m_spcr m' = m_spcr m"
    by auto
  from Cons.prems obtain n' where n: "n = Suc n'" "length pad < n'" by (cases n) auto
  from Cons.IH [OF m'(2) _ _ _ _ n(2)] Cons.prems m' n show ?case by auto
qed

lemma sd_put_ack_at:
  assumes "sd_at V bus C m" and "cd_phase C \<noteq> Card_other" and "cd_pend C = pad @ r # rest"
    and "\<forall>b \<in> set pad. b AND 0x11 \<noteq> 0x01" and "r AND 0x11 = 0x01" and "length pad < n"
  shows "\<exists>m'. sd_put_ack n bus m = Some (r AND 0x0E = 0x04, m') \<and>
     sd_at V bus (C\<lparr>cd_pend := rest\<rparr>) m' \<and> m_spcr m' = m_spcr m"
  using assms
proof (induction pad arbitrary: m C n)
  case Nil
  from sd_read_pending [OF Nil(1,2)] Nil(3)
  obtain m' where "spi_read_char bus m = Some (r, m')" "sd_at V bus (C\<lparr>cd_pend := rest\<rparr>) m'"
    "m_spcr m' = m_spcr m"
    by auto
  with Nil show ?case by (cases n) auto
next
  case (Cons b pad)
  from sd_read_pending [OF Cons.prems(1,2)] Cons.prems(3)
  obtain m' where m': "spi_read_char bus m = Some (b, m')"
    "sd_at V bus (C\<lparr>cd_pend := pad @ r # rest\<rparr>) m'" "m_spcr m' = m_spcr m"
    by auto
  from Cons.prems obtain n' where n: "n = Suc n'" "length pad < n'" by (cases n) auto
  from Cons.IH [OF m'(2) _ _ _ _ n(2)] Cons.prems m' n show ?case by auto
qed

lemma sd_data_response: "r AND 0x1F = 0x05 \<Longrightarrow> r AND 0x11 = 0x01 \<and> r AND 0x0E = 0x04" for r :: u8
proof -
  assume r: "r AND 0x1F = 0x05"
  have "r AND 0x11 = (r AND 0x1F) AND 0x11" "r AND 0x0E = (r AND 0x1F) AND 0x0E"
    by (simp_all only: and.assoc) simp_all
  with r show ?thesis by simp
qed

section \<open>Selecting the card and sending frames\<close>

lemma card_lines_idle:
  assumes "card_lines V bus" and "cd_phase (V c) = Card_idle"
  shows "cd_phase (V (bus_lines bus g c)) = Card_idle \<and> cd_sect (V (bus_lines bus g c)) = cd_sect (V c) \<and>
    length (cd_pend (V (bus_lines bus g c))) \<le> length (cd_pend (V c))"
proof -
  have "card_quiet (cd_phase (V c))" using assms(2) by simp
  then have "V (bus_lines bus g c) = V c \<or> V (bus_lines bus g c) = (V c)\<lparr>cd_pend := []\<rparr>"
    using assms(1) unfolding card_lines_def by blast
  with assms(2) show ?thesis by auto
qed

lemma sd_enable_at:
  assumes conf: "card_conforms V n bus" and on: "spi_on (m_spcr m)" and idle: "cd_phase (V (m_dev m)) = Card_idle"
  shows "\<exists>C. sd_at V bus C (snd (spi_device_enable bus SPI_SD_CARD m)) \<and> cd_phase C = Card_idle \<and>
     length (cd_pend C) \<le> length (cd_pend (V (m_dev m))) \<and> cd_sect C = sd_sectors V m"
proof -
  obtain g1 g2 g3 where m': "snd (spi_device_enable bus SPI_SD_CARD m) =
     m\<lparr>m_gpio := g3, m_dev := bus_lines bus g3 (bus_lines bus g2 (bus_lines bus g1 (m_dev m)))\<rparr>"
    "sd_selected g3"
    using spi_enable_sd [of bus m] by auto
  let ?c = "bus_lines bus g3 (bus_lines bus g2 (bus_lines bus g1 (m_dev m)))"
  have l: "card_lines V bus" and p: "card_polls V bus" using conf by (simp_all add: card_conforms_def)
  note 1 = card_lines_idle [OF l idle, of g1]
  note 2 = card_lines_idle [OF l conjunct1 [OF 1], of g2]
  note 3 = card_lines_idle [OF l conjunct1 [OF 2], of g3]
  show ?thesis
    using 1 2 3 p on m' by (intro exI [of _ "V ?c"]) (auto simp: sd_at_def sd_sectors_def)
qed

lemma sd_disable_at:
  assumes conf: "card_conforms V n bus" and at: "sd_at V bus C m" and idle: "cd_phase C = Card_idle"
    and pend: "length (cd_pend C) \<le> 1"
  shows "sd_ok V n bus (snd (spi_device_disable bus SPI_SD_CARD m)) \<and>
    sd_sectors V (snd (spi_device_disable bus SPI_SD_CARD m)) = cd_sect C \<and>
    \<not> sd_selected (m_gpio (snd (spi_device_disable bus SPI_SD_CARD m)))"
proof -
  obtain g where m': "snd (spi_device_disable bus SPI_SD_CARD m) = m\<lparr>m_gpio := g, m_dev := bus_lines bus g (m_dev m)\<rparr>"
    "bit (port_out g PORTB) 4"
    using spi_disable_sd [of bus m] by auto
  have l: "card_lines V bus" and v: "V (m_dev m) = C" and on: "spi_on (m_spcr m)"
    using conf at by (simp_all add: card_conforms_def sd_at_def)
  from card_lines_idle [OF l, of "m_dev m" g] v idle pend m' conf on show ?thesis
    by (auto simp: sd_ok_def sd_sectors_def sd_selected_def)
qed

lemma sd_send_at:
  assumes at: "sd_at V bus C m"
    and c: "bus_send bus (m_spcr m) (m_gpio m) bs (m_dev m) = Some c'" "V c' = C'"
  shows "spi_send bus bs m = Some (m\<lparr>m_dev := c'\<rparr>) \<and> sd_at V bus C' (m\<lparr>m_dev := c'\<rparr>)"
  using sd_at_dev [OF at c(2)] c(1) by (simp add: spi_send_bus)

lemma sd_cmd17_at:
  assumes conf: "card_conforms V n bus" and at: "sd_at V bus C m" and C: "cd_phase C = Card_idle" "cd_pend C = []"
    and a: "unat a < n"
  shows "\<exists>m' pad c1 c2. spi_send bus (sd_frame CMD17 a 0xFF) m = Some m' \<and> m_spcr m' = m_spcr m \<and>
    sd_at V bus (C\<lparr>cd_pend := pad @ 0xFE # cd_sect C a @ [c1, c2]\<rparr>) m' \<and>
    0xFE \<notin> set pad \<and> length pad \<le> 1000 \<and> length (cd_sect C a) = 512"
proof -
  have "card_reads V n bus" using conf by (simp add: card_conforms_def)
  moreover have v: "V (m_dev m) = C" "spi_on (m_spcr m) \<and> sd_selected (m_gpio m) \<and>
      cd_phase (V (m_dev m)) = Card_idle \<and> cd_pend (V (m_dev m)) = [] \<and> unat a < n"
    using at C a by (auto simp: sd_at_def)
  ultimately obtain c' pad c1 c2 where c': "bus_send bus (m_spcr m) (m_gpio m) (sd_frame CMD17 a 0xFF) (m_dev m) = Some c'"
    "V c' = C\<lparr>cd_pend := pad @ 0xFE # cd_sect C a @ [c1, c2]\<rparr>"
    "0xFE \<notin> set pad" "length pad \<le> 1000" "length (cd_sect C a) = 512"
    unfolding card_reads_def by blast
  from sd_send_at [OF at c'(1,2)] c'(3-5) show ?thesis by fastforce
qed

lemma sd_cmd24_at:
  assumes conf: "card_conforms V n bus" and at: "sd_at V bus C m" and C: "cd_phase C = Card_idle" "cd_pend C = []"
    and a: "unat a < n"
  shows "\<exists>m' pad. spi_send bus (sd_frame CMD24 a 0xFF) m = Some m' \<and> m_spcr m' = m_spcr m \<and>
    sd_at V bus (C\<lparr>cd_phase := Card_data a, cd_pend := pad @ [0]\<rparr>) m' \<and>
    (\<forall>b \<in> set pad. b AND RET_MSB_MASK = RET_MSB_MASK) \<and> length pad \<le> 6"
proof -
  have "card_accepts_write V n bus" using conf by (simp add: card_conforms_def)
  moreover have v: "V (m_dev m) = C" "spi_on (m_spcr m) \<and> sd_selected (m_gpio m) \<and>
      cd_phase (V (m_dev m)) = Card_idle \<and> cd_pend (V (m_dev m)) = [] \<and> unat a < n"
    using at C a by (auto simp: sd_at_def)
  ultimately obtain c' pad where c': "bus_send bus (m_spcr m) (m_gpio m) (sd_frame CMD24 a 0xFF) (m_dev m) = Some c'"
    "V c' = C\<lparr>cd_phase := Card_data a, cd_pend := pad @ [0]\<rparr>"
    "\<forall>b \<in> set pad. b AND RET_MSB_MASK = RET_MSB_MASK" "length pad \<le> 6"
    unfolding card_accepts_write_def by blast
  from sd_send_at [OF at c'(1,2)] c'(3,4) show ?thesis by fastforce
qed

lemma sd_block_at:
  assumes conf: "card_conforms V n bus" and at: "sd_at V bus C m" and C: "cd_phase C = Card_data a" "cd_pend C = []"
    and bs: "length bs = 512"
  shows "\<exists>m' pad r busy. spi_send bus (0xFE # bs @ [0xFF, 0xFF]) m = Some m' \<and> m_spcr m' = m_spcr m \<and>
    sd_at V bus (C\<lparr>cd_phase := Card_idle, cd_sect := (cd_sect C)(a := bs), cd_pend := pad @ r # busy\<rparr>) m' \<and>
    (\<forall>b \<in> set pad. b AND 0x11 \<noteq> 0x01) \<and> length pad \<le> 127 \<and> r AND 0x1F = 0x05 \<and> 0xFF \<notin> set busy"
proof -
  have "card_stores V bus" using conf by (simp add: card_conforms_def)
  moreover have v: "V (m_dev m) = C" "spi_on (m_spcr m) \<and> sd_selected (m_gpio m) \<and>
      cd_phase (V (m_dev m)) = Card_data a \<and> cd_pend (V (m_dev m)) = [] \<and> length bs = 512"
    using at C bs by (auto simp: sd_at_def)
  ultimately obtain c' pad r busy where
    c': "bus_send bus (m_spcr m) (m_gpio m) (0xFE # bs @ [0xFF, 0xFF]) (m_dev m) = Some c'"
    "V c' = C\<lparr>cd_phase := Card_idle, cd_sect := (cd_sect C)(a := bs), cd_pend := pad @ r # busy\<rparr>"
    "\<forall>b \<in> set pad. b AND 0x11 \<noteq> 0x01" "length pad \<le> 127" "r AND 0x1F = 0x05" "0xFF \<notin> set busy"
    unfolding card_stores_def by blast
  from sd_send_at [OF at c'(1,2)] c'(3-6) show ?thesis by fastforce
qed

section \<open>Whole sectors\<close>

lemma sd_init_read_sector_at:
  assumes conf: "card_conforms V n bus" and at: "sd_at V bus C m" and C: "cd_phase C = Card_idle"
    and pend: "length (cd_pend C) \<le> 1" and a: "unat a < n"
  shows "\<exists>m' c1 c2. sd_init_read_sector bus a m = Some (0, m') \<and> m_spcr m' = m_spcr m \<and>
    sd_at V bus (C\<lparr>cd_pend := cd_sect C a @ [c1, c2]\<rparr>) m' \<and> length (cd_sect C a) = 512"
proof -
  from sd_wait_ready_short [OF at _ pend] C obtain m1 where
    m1: "sd_wait_ready bus m = Some m1" "sd_at V bus (C\<lparr>cd_pend := []\<rparr>) m1" "m_spcr m1 = m_spcr m"
    by auto
  from sd_cmd17_at [OF conf m1(2) _ _ a] C obtain m2 pad c1 c2 where
    m2: "spi_send bus (sd_frame CMD17 a 0xFF) m1 = Some m2" "m_spcr m2 = m_spcr m1"
    "sd_at V bus (C\<lparr>cd_pend := pad @ 0xFE # cd_sect C a @ [c1, c2]\<rparr>) m2"
    "0xFE \<notin> set pad" "length pad \<le> 1000" "length (cd_sect C a) = 512"
    by auto
  from sd_token_at [OF m2(3) _ _ m2(4,5)] C obtain m3 where
    m3: "sd_token 1000 bus m2 = Some (0, m3)" "sd_at V bus (C\<lparr>cd_pend := cd_sect C a @ [c1, c2]\<rparr>) m3"
    "m_spcr m3 = m_spcr m2"
    by auto
  with m1 m2 show ?thesis by (auto simp: sd_init_read_sector_def)
qed

lemma sd_get_sector_ok:
  assumes ok: "sd_ok V n bus m" and a: "unat a < n"
  shows "\<exists>m'. sd_get_sector bus a buf 512 m = Some (0, sd_sectors V m a @ drop 512 buf, m') \<and>
    sd_ok V n bus m' \<and> sd_sectors V m' = sd_sectors V m \<and> \<not> sd_selected (m_gpio m') \<and>
    length (sd_sectors V m a) = 512"
proof -
  let ?m = "snd (spi_device_enable bus SPI_SD_CARD m)"
  have conf: "card_conforms V n bus" using ok by (simp add: sd_ok_def)
  from sd_enable_at [OF conf] ok obtain C where
    C: "sd_at V bus C ?m" "cd_phase C = Card_idle" "length (cd_pend C) \<le> 1" "cd_sect C = sd_sectors V m"
    by (fastforce simp: sd_ok_def)
  from sd_init_read_sector_at [OF conf C(1-3) a] obtain m1 c1 c2 where
    m1: "sd_init_read_sector bus a ?m = Some (0, m1)"
    "sd_at V bus (C\<lparr>cd_pend := cd_sect C a @ [c1, c2]\<rparr>) m1" "length (cd_sect C a) = 512"
    by auto
  from sd_read_list_at [OF m1(2), of "cd_sect C a" "[c1, c2]"] C(2) obtain m2 where
    m2: "sd_read_list (length (cd_sect C a)) bus m1 = Some (cd_sect C a, m2)"
    "sd_at V bus (C\<lparr>cd_pend := [c1, c2]\<rparr>) m2"
    by auto
  from sd_wait_ready_crc [OF m2(2)] C(2) obtain m3 bs where
    m3: "sd_wait_ready bus m2 = Some m3" "sd_at V bus (C\<lparr>cd_pend := bs\<rparr>) m3" "length bs \<le> 1"
    by auto
  from sd_disable_at [OF conf m3(2)] C m3(3)
  have "sd_ok V n bus (snd (spi_device_disable bus SPI_SD_CARD m3))"
    "sd_sectors V (snd (spi_device_disable bus SPI_SD_CARD m3)) = sd_sectors V m"
    "\<not> sd_selected (m_gpio (snd (spi_device_disable bus SPI_SD_CARD m3)))"
    by simp_all
  with m1 m2(1) m3(1) C(4) show ?thesis by (simp add: sd_get_sector_def sd_get_bytes_def)
qed

lemma sd_init_put_sector_at:
  assumes conf: "card_conforms V n bus" and at: "sd_at V bus C m" and C: "cd_phase C = Card_idle"
    and pend: "length (cd_pend C) \<le> 1" and a: "unat a < n"
  shows "\<exists>m' C'. sd_init_put_sector bus a m = Some (0, m') \<and> sd_at V bus C' m' \<and>
    cd_phase C' = Card_data a \<and> cd_pend C' = [] \<and> cd_sect C' = cd_sect C"
proof -
  from sd_wait_ready_short [OF at _ pend] C obtain m1 where
    m1: "sd_wait_ready bus m = Some m1" "sd_at V bus (C\<lparr>cd_pend := []\<rparr>) m1"
    by auto
  let ?m = "snd (spi_device_enable bus SPI_SD_CARD m1)"
  from sd_enable_at [OF conf, of m1] m1(2) C obtain D where
    D: "sd_at V bus D ?m" "cd_phase D = Card_idle" "cd_pend D = []" "cd_sect D = cd_sect C"
    by (fastforce simp: sd_at_def sd_sectors_def)
  from sd_cmd24_at [OF conf D(1-3) a] obtain m2 pad where
    m2: "spi_send bus (sd_frame CMD24 a 0xFF) ?m = Some m2"
    "sd_at V bus (D\<lparr>cd_phase := Card_data a, cd_pend := pad @ [0]\<rparr>) m2"
    "\<forall>b \<in> set pad. b AND RET_MSB_MASK = RET_MSB_MASK" "length pad \<le> 6"
    by auto
  from sd_resp_at [OF m2(2) _ _ m2(3), of 0 "[]" 7] m2(4) obtain m3 where
    m3: "sd_resp 7 bus m2 = Some (0, m3)" "sd_at V bus (D\<lparr>cd_phase := Card_data a, cd_pend := []\<rparr>) m3"
    by (auto simp: RET_MSB_MASK_def)
  have "sd_init_put_sector bus a m = Some (0, m3)"
    using m1(1) m2(1) m3(1)
    by (simp add: sd_init_put_sector_def sd_command0_def sd_command_def MAX_CMD_TRIALS_def)
  with m3(2) D(4) show ?thesis by fastforce
qed

lemma sd_put_sector_ok:
  assumes ok: "sd_ok V n bus m" and a: "unat a < n" and bs: "length bs = 512"
  shows "\<exists>m'. sd_put_sector bus a bs 512 m = Some (0, m') \<and>
    sd_ok V n bus m' \<and> sd_sectors V m' = (sd_sectors V m)(a := bs) \<and> \<not> sd_selected (m_gpio m')"
proof -
  let ?m = "snd (spi_device_enable bus SPI_SD_CARD m)"
  have conf: "card_conforms V n bus" using ok by (simp add: sd_ok_def)
  from sd_enable_at [OF conf] ok obtain C where
    C: "sd_at V bus C ?m" "cd_phase C = Card_idle" "length (cd_pend C) \<le> 1" "cd_sect C = sd_sectors V m"
    by (fastforce simp: sd_ok_def)
  from sd_init_put_sector_at [OF conf C(1-3) a] obtain m1 D where
    m1: "sd_init_put_sector bus a ?m = Some (0, m1)" "sd_at V bus D m1"
    "cd_phase D = Card_data a" "cd_pend D = []" "cd_sect D = sd_sectors V m"
    using C(4) by auto
  from sd_block_at [OF conf m1(2-4) bs] obtain m2 pad r busy where
    m2: "spi_send bus (0xFE # bs @ [0xFF, 0xFF]) m1 = Some m2"
    "sd_at V bus (D\<lparr>cd_phase := Card_idle, cd_sect := (cd_sect D)(a := bs), cd_pend := pad @ r # busy\<rparr>) m2"
    "\<forall>b \<in> set pad. b AND 0x11 \<noteq> 0x01" "length pad \<le> 127" "r AND 0x1F = 0x05" "0xFF \<notin> set busy"
    by auto
  have r: "r AND 0x11 = 0x01" "r AND 0x0E = 0x04" using sd_data_response [OF m2(5)] by auto
  from sd_put_ack_at [OF m2(2) _ _ m2(3) r(1), of busy 128] m2(4) r(2) obtain m3 where
    m3: "sd_put_ack 128 bus m2 = Some (True, m3)"
    "sd_at V bus (D\<lparr>cd_phase := Card_idle, cd_sect := (cd_sect D)(a := bs), cd_pend := busy\<rparr>) m3"
    by auto
  from sd_wait_ready_at [OF m3(2) _ _ m2(6)] obtain m4 where
    m4: "sd_wait_ready bus m3 = Some m4"
    "sd_at V bus (D\<lparr>cd_phase := Card_idle, cd_sect := (cd_sect D)(a := bs), cd_pend := []\<rparr>) m4"
    by auto
  from sd_disable_at [OF conf m4(2)] m1(5)
  have "sd_ok V n bus (snd (spi_device_disable bus SPI_SD_CARD m4))"
    "sd_sectors V (snd (spi_device_disable bus SPI_SD_CARD m4)) = (sd_sectors V m)(a := bs)"
    "\<not> sd_selected (m_gpio (snd (spi_device_disable bus SPI_SD_CARD m4)))"
    by simp_all
  moreover have "sd_put_bytes bus bs 512 m1 = Some m2"
    using m2(1) bs by (simp only: sd_put_bytes_def) simp
  with m1(1) m3(1) m4(1)
  have "sd_put_sector bus a bs 512 m = Some (0, snd (spi_device_disable bus SPI_SD_CARD m4))"
    by (simp add: sd_put_sector_def)
  ultimately show ?thesis by blast
qed

section \<open>The driver as a block device\<close>

definition sd_ops :: "'c spi_bus \<Rightarrow> 'c mcu block_ops" where
  "sd_ops bus = \<lparr>blk_get = sd_get_sector bus, blk_put = sd_put_sector bus\<rparr>"

interpretation sd_blk: block_device "sd_ops bus" "sd_ok V n bus" "sd_sectors V" n for V n bus
proof unfold_locales
  fix m :: "'a mcu" and a :: u32 and buf :: "u8 list"
  assume "sd_ok V n bus m" and "unat a < n"
  from sd_get_sector_ok [OF this]
  show "\<exists>m'. blk_get (sd_ops bus) a buf 512 m = Some (0, sd_sectors V m a @ drop 512 buf, m') \<and>
    sd_ok V n bus m' \<and> sd_sectors V m' = sd_sectors V m \<and> length (sd_sectors V m a) = 512"
    by (auto simp: sd_ops_def)
next
  fix m :: "'a mcu" and a :: u32 and bs :: "u8 list"
  assume "sd_ok V n bus m" and "unat a < n" and "length bs = 512"
  from sd_put_sector_ok [OF this]
  show "\<exists>m'. blk_put (sd_ops bus) a bs 512 m = Some (0, m') \<and> sd_ok V n bus m' \<and>
    sd_sectors V m' = (sd_sectors V m)(a := bs)"
    by (auto simp: sd_ops_def)
qed

section \<open>A simulated card\<close>

text \<open>A small card of the documented protocol, byte by byte, on which the contract is shown to be
  satisfiable: frames of six bytes, a block of 515 bytes after CMD24. After CMD0 it needs three ACMD41.\<close>

datatype sim_state = Sim_power | Sim_boot nat bool | Sim_ready

record sim =
  sim_rx :: "u8 list"
  sim_pend :: "u8 list"
  sim_data :: "u32 option"
  sim_st :: sim_state
  sim_mem :: "u32 \<Rightarrow> u8 list"

definition sim_sect :: "sim \<Rightarrow> u32 \<Rightarrow> u8 list" where
  "sim_sect c a = take 512 (sim_mem c a @ replicate 512 0)"

definition sim_ocr :: "u8 list" where
  "sim_ocr = [0xC0, 0xFF, 0x80, 0]"

definition sim_limit :: "sim \<Rightarrow> nat" where
  "sim_limit c = (if sim_data c = None then 6 else 515)"

text \<open>A frame completes: the reply, by state; 5 and 4 are the responses to an illegal command.\<close>

fun sim_boot_reply :: "nat \<Rightarrow> bool \<Rightarrow> u8 \<Rightarrow> u8 list \<times> sim_state" where
  "sim_boot_reply k app cmd =
    (if cmd = CMD8 then ([0xFF, 1, 0, 0, 1, 0xAA], Sim_boot k False)
     else if cmd = CMD55 then ([0xFF, 1], Sim_boot k True)
     else if cmd = ACMD41 \<and> app then (if k = 0 then ([0xFF, 0], Sim_ready) else ([0xFF, 1], Sim_boot (k - 1) False))
     else ([0xFF, 5], Sim_boot k False))"

definition sim_reply :: "sim \<Rightarrow> u8 \<Rightarrow> u32 \<Rightarrow> sim" where
  "sim_reply c cmd a =
    (if cmd = 0x40 then c\<lparr>sim_pend := [0xFF, 1], sim_st := Sim_boot 2 False\<rparr>
     else case sim_st c of
       Sim_power \<Rightarrow> c\<lparr>sim_pend := []\<rparr>
     | Sim_boot k app \<Rightarrow> (let (bs, st) = sim_boot_reply k app cmd in c\<lparr>sim_pend := bs, sim_st := st\<rparr>)
     | Sim_ready \<Rightarrow>
         if cmd = CMD17 then c\<lparr>sim_pend := [0, 0xFF, 0xFE] @ sim_sect c a @ [1, 2]\<rparr>
         else if cmd = CMD24 then c\<lparr>sim_data := Some a, sim_pend := [0xFF, 0]\<rparr>
         else if cmd = CMD58 then c\<lparr>sim_pend := [0xFF, 0] @ sim_ocr\<rparr>
         else c\<lparr>sim_pend := [0xFF, 4]\<rparr>)"

definition sim_receive :: "u8 \<Rightarrow> sim \<Rightarrow> sim" where
  "sim_receive b c =
    (let rx = sim_rx c @ [b]
     in if length rx < sim_limit c then c\<lparr>sim_rx := rx\<rparr>
        else case sim_data c of
          None \<Rightarrow> sim_reply (c\<lparr>sim_rx := []\<rparr>) (rx ! 0) (le32 (rx ! 4) (rx ! 3) (rx ! 2) (rx ! 1))
        | Some a \<Rightarrow> c\<lparr>sim_rx := [], sim_data := None, sim_st := Sim_ready, sim_pend := [0xE5, 0, 0],
            sim_mem := (sim_mem c)(a := take 512 (drop 1 rx))\<rparr>)"

definition sim_xfer :: "u8 \<Rightarrow> gpio \<Rightarrow> u8 \<Rightarrow> sim \<Rightarrow> (u8 \<times> sim) option" where
  "sim_xfer k g b c =
    (if \<not> sd_selected g then Some (0xFF, c)
     else if sim_rx c = [] \<and> b = 0xFF then
       (case sim_pend c of [] \<Rightarrow> Some (0xFF, c) | p # ps \<Rightarrow> Some (p, c\<lparr>sim_pend := ps\<rparr>))
     else Some (0xFF, sim_receive b c))"

definition sim_bus :: "sim spi_bus" where
  "sim_bus = \<lparr>bus_xfer = sim_xfer, bus_lines = (\<lambda>g c. c)\<rparr>"

definition sim_view :: "sim \<Rightarrow> card" where
  "sim_view c = \<lparr>cd_phase = (if sim_rx c \<noteq> [] then Card_other
      else case sim_data c of Some a \<Rightarrow> Card_data a
        | None \<Rightarrow> (case sim_st c of Sim_power \<Rightarrow> Card_power | Sim_boot k app \<Rightarrow> Card_boot k app | Sim_ready \<Rightarrow> Card_idle)),
    cd_pend = sim_pend c, cd_sect = sim_sect c, cd_ocr = sim_ocr\<rparr>"

lemma sim_phase:
  "cd_phase (sim_view c) = Card_idle \<longleftrightarrow> sim_rx c = [] \<and> sim_data c = None \<and> sim_st c = Sim_ready"
  "cd_phase (sim_view c) = Card_power \<longleftrightarrow> sim_rx c = [] \<and> sim_data c = None \<and> sim_st c = Sim_power"
  "cd_phase (sim_view c) = Card_boot k app \<longleftrightarrow> sim_rx c = [] \<and> sim_data c = None \<and> sim_st c = Sim_boot k app"
  "cd_phase (sim_view c) = Card_data a \<longleftrightarrow> sim_rx c = [] \<and> sim_data c = Some a"
  "cd_phase (sim_view c) = Card_other \<longleftrightarrow> sim_rx c \<noteq> []"
  by (auto simp: sim_view_def split: option.splits sim_state.splits)

lemma sim_quiet: "card_quiet (cd_phase (sim_view c)) \<longleftrightarrow> sim_rx c = [] \<and> sim_data c = None"
  by (auto simp: sim_view_def split: option.splits sim_state.splits)

lemma sim_view_pend: "sim_view (c\<lparr>sim_pend := bs\<rparr>) = (sim_view c)\<lparr>cd_pend := bs\<rparr>"
  by (cases "sim_data c"; cases "sim_st c") (simp_all add: sim_view_def sim_sect_def fun_eq_iff)

lemma sim_pend_view: "cd_pend (sim_view c) = sim_pend c"
  by (simp add: sim_view_def)

lemma length_sim_sect [simp]: "length (sim_sect c a) = 512"
  by (simp add: sim_sect_def)

lemma bus_send_append:
  "bus_send bus k g (xs @ ys) c = do { c \<leftarrow> bus_send bus k g xs c; bus_send bus k g ys c }"
  by (induction xs arbitrary: c) (auto split: bind_splits)

lemma sim_accumulate:
  "\<lbrakk>sd_selected g; sim_rx c \<noteq> []; length (sim_rx c) + length bs < sim_limit c\<rbrakk> \<Longrightarrow>
    bus_send sim_bus k g bs c = Some (c\<lparr>sim_rx := sim_rx c @ bs\<rparr>)"
proof (induction bs arbitrary: c)
  case Nil
  then show ?case by simp
next
  case (Cons b bs)
  from Cons.prems have "sim_xfer k g b c = Some (0xFF, c\<lparr>sim_rx := sim_rx c @ [b]\<rparr>)"
    by (simp add: sim_xfer_def sim_receive_def)
  with Cons show ?case by (simp add: sim_bus_def sim_limit_def)
qed

lemma sim_frame:
  assumes "sd_selected g" and "sim_rx c = []" and "b \<noteq> 0xFF" and "Suc (Suc (length bs)) = sim_limit c"
  shows "bus_send sim_bus k g (b # bs @ [e]) c = Some (sim_receive e (c\<lparr>sim_rx := b # bs\<rparr>))"
proof -
  have "1 < sim_limit c" by (simp add: sim_limit_def)
  with assms have "bus_xfer sim_bus k g b c = Some (0xFF, c\<lparr>sim_rx := [b]\<rparr>)"
    by (simp add: sim_bus_def sim_xfer_def sim_receive_def)
  moreover have "bus_send sim_bus k g bs (c\<lparr>sim_rx := [b]\<rparr>) = Some (c\<lparr>sim_rx := b # bs\<rparr>)"
    using assms(1,4) by (subst sim_accumulate) (simp_all add: sim_limit_def)
  moreover have "bus_xfer sim_bus k g e (c\<lparr>sim_rx := b # bs\<rparr>) = Some (0xFF, sim_receive e (c\<lparr>sim_rx := b # bs\<rparr>))"
    using assms(1) by (simp add: sim_bus_def sim_xfer_def)
  ultimately show ?thesis by (simp add: bus_send_append)
qed

lemma sim_command:
  assumes "sd_selected g" and "sim_rx c = []" and "sim_data c = None" and "cmd \<noteq> 0xFF"
  shows "bus_send sim_bus k g (sd_frame cmd a crc) c = Some (sim_reply c cmd a)"
proof -
  have "sd_frame cmd a crc = cmd # [ucast (drop_bit 24 a), ucast (drop_bit 16 a), ucast (drop_bit 8 a), ucast a] @ [crc]"
    by (simp add: sd_frame_def)
  moreover have "c\<lparr>sim_rx := []\<rparr> = c" using assms(2) by (cases c) simp
  ultimately show ?thesis
    using sim_frame [OF assms(1,2,4), of "[ucast (drop_bit 24 a), ucast (drop_bit 16 a), ucast (drop_bit 8 a), ucast a]" k crc]
      assms(3) le32_bytes [of a]
    by (simp add: sim_limit_def sim_receive_def)
qed

lemma sim_conforms: "card_conforms sim_view n sim_bus"
proof -
  have polls: "card_polls sim_view sim_bus"
    by (auto simp: card_polls_def sim_phase sim_bus_def sim_xfer_def sim_pend_view sim_view_pend card_pend_same split: list.splits)
  have reads: "card_reads sim_view n sim_bus"
  proof (unfold card_reads_def, intro allI impI)
    fix k g c and a :: u32
    assume "spi_on k \<and> sd_selected g \<and> cd_phase (sim_view c) = Card_idle \<and> cd_pend (sim_view c) = [] \<and> unat a < n"
    then have c: "sd_selected g" "sim_rx c = []" "sim_data c = None" and st: "sim_st c = Sim_ready" by (auto simp: sim_phase)
    show "\<exists>c' pad c1 c2. bus_send sim_bus k g (sd_frame CMD17 a 0xFF) c = Some c' \<and>
        sim_view c' = (sim_view c)\<lparr>cd_pend := pad @ 0xFE # cd_sect (sim_view c) a @ [c1, c2]\<rparr> \<and>
        0xFE \<notin> set pad \<and> length pad \<le> 1000 \<and> length (cd_sect (sim_view c) a) = 512"
      by (rule exI [of _ "sim_reply c CMD17 a"], rule exI [of _ "[0, 0xFF]"], rule exI [of _ 1], rule exI [of _ 2])
        (use sim_command [OF c, of CMD17] c st in \<open>simp add: CMD17_def sim_reply_def sim_view_def sim_sect_def fun_eq_iff\<close>)
  qed
  have accepts: "card_accepts_write sim_view n sim_bus"
  proof (unfold card_accepts_write_def, intro allI impI)
    fix k g c and a :: u32
    assume "spi_on k \<and> sd_selected g \<and> cd_phase (sim_view c) = Card_idle \<and> cd_pend (sim_view c) = [] \<and> unat a < n"
    then have c: "sd_selected g" "sim_rx c = []" "sim_data c = None" and st: "sim_st c = Sim_ready" by (auto simp: sim_phase)
    show "\<exists>c' pad. bus_send sim_bus k g (sd_frame CMD24 a 0xFF) c = Some c' \<and>
        sim_view c' = (sim_view c)\<lparr>cd_phase := Card_data a, cd_pend := pad @ [0]\<rparr> \<and>
        (\<forall>b \<in> set pad. b AND RET_MSB_MASK = RET_MSB_MASK) \<and> length pad \<le> 6"
      by (rule exI [of _ "sim_reply c CMD24 a"], rule exI [of _ "[0xFF]"])
        (use sim_command [OF c, of CMD24] c st in
          \<open>simp add: CMD24_def CMD17_def sim_reply_def sim_view_def sim_sect_def fun_eq_iff RET_MSB_MASK_def\<close>)
  qed
  have stores: "card_stores sim_view sim_bus"
  proof (unfold card_stores_def, intro allI impI)
    fix k g c and a :: u32 and bs :: "u8 list"
    assume "spi_on k \<and> sd_selected g \<and> cd_phase (sim_view c) = Card_data a \<and> cd_pend (sim_view c) = [] \<and> length bs = 512"
    then have c: "sd_selected g" "sim_rx c = []" "sim_data c = Some a" "length bs = 512" by (auto simp: sim_phase)
    let ?c = "c\<lparr>sim_data := None, sim_st := Sim_ready, sim_pend := [0xE5, 0, 0], sim_mem := (sim_mem c)(a := bs)\<rparr>"
    have "c\<lparr>sim_rx := []\<rparr> = c" using c(2) by (cases c) simp
    then have "bus_send sim_bus k g (0xFE # bs @ [0xFF, 0xFF]) c = Some ?c"
      using sim_frame [OF c(1,2), of "0xFE" "bs @ [0xFF]" k "0xFF"] c(3,4)
      by (simp add: sim_limit_def sim_receive_def)
    then show "\<exists>c' pad r busy. bus_send sim_bus k g (0xFE # bs @ [0xFF, 0xFF]) c = Some c' \<and>
        sim_view c' = (sim_view c)\<lparr>cd_phase := Card_idle, cd_sect := (cd_sect (sim_view c))(a := bs), cd_pend := pad @ r # busy\<rparr> \<and>
        (\<forall>b \<in> set pad. b AND 0x11 \<noteq> 0x01) \<and> length pad \<le> 127 \<and> r AND 0x1F = 0x05 \<and> 0xFF \<notin> set busy"
      by (intro exI [of _ ?c] exI [of _ "[]"] exI [of _ "0xE5"] exI [of _ "[0, 0]"])
        (use c in \<open>simp add: sim_view_def sim_sect_def fun_eq_iff\<close>)
  qed
  have lines: "card_lines sim_view sim_bus" by (simp add: card_lines_def sim_bus_def)
  from polls lines reads accepts stores show ?thesis by (simp add: card_conforms_def)
qed

definition sim_mcu :: "sim mcu" where
  "sim_mcu = \<lparr>m_gpio = \<lparr>port_out = (\<lambda>_. 0xFF), port_ddr = (\<lambda>_. 0)\<rparr>, m_spcr = 0x53,
    m_dev = \<lparr>sim_rx = [], sim_pend = [], sim_data = None, sim_st = Sim_ready, sim_mem = (\<lambda>_. [])\<rparr>\<rparr>"

lemma sim_mcu_ok: "sd_ok sim_view n sim_bus sim_mcu"
  by (simp add: sd_ok_def sim_conforms sim_mcu_def spi_on_def SPE_def MSTR_def sim_view_def)

section \<open>Select line along the operations\<close>

lemma spi_read_gpio: "spi_read_char bus m = Some (b, m') \<Longrightarrow> m_gpio m' = m_gpio m"
  by (auto simp: spi_read_char_def split: bind_splits)

lemma spi_send_gpio: "spi_send bus bs m = Some m' \<Longrightarrow> m_gpio m' = m_gpio m"
  by (auto simp: spi_send_bus)

lemma sd_wait_ready_gpio:
  assumes "sd_wait_ready bus m = Some m'"
  shows "m_gpio m' = m_gpio m"
proof (rule sd_wait_ready.raw_induct [where P = "\<lambda>_ m m'. m_gpio m' = m_gpio m", OF _ assms])
  fix f :: "'a spi_bus \<Rightarrow> 'a mcu \<Rightarrow> 'a mcu option" and bus m m'
  assume IH: "\<And>bus m m'. f bus m = Some m' \<Longrightarrow> m_gpio m' = m_gpio m"
    and "sd_is_busy bus m \<bind> (\<lambda>(busy, m). if busy then f bus m else Some m) = Some m'"
  then obtain ch m1 where "spi_read_char bus m = Some (ch, m1)"
    and "(if ch \<noteq> 0xFF then f bus m1 else Some m1) = Some m'"
    by (auto simp: sd_is_busy_def bind_eq_Some_conv)
  with IH spi_read_gpio show "m_gpio m' = m_gpio m" by (metis option.inject)
qed

lemma sd_resp_gpio: "sd_resp n bus m = Some (r, m') \<Longrightarrow> m_gpio m' = m_gpio m"
  by (induction n arbitrary: m) (auto simp: bind_eq_Some_conv split: if_splits dest: spi_read_gpio)

lemma sd_read_list_gpio: "sd_read_list n bus m = Some (bs, m') \<Longrightarrow> m_gpio m' = m_gpio m"
  by (induction n arbitrary: m bs) (auto simp: bind_eq_Some_conv dest: spi_read_gpio)

lemma sd_get_bytes_gpio: "sd_get_bytes bus n buf m = Some (bs, m') \<Longrightarrow> m_gpio m' = m_gpio m"
  by (auto simp: sd_get_bytes_def bind_eq_Some_conv dest: sd_read_list_gpio)

lemma sd_token_gpio: "sd_token n bus m = Some (r, m') \<Longrightarrow> m_gpio m' = m_gpio m"
  by (induction n arbitrary: m) (auto simp: bind_eq_Some_conv split: if_splits dest: spi_read_gpio)

lemma sd_put_ack_gpio: "sd_put_ack n bus m = Some (r, m') \<Longrightarrow> m_gpio m' = m_gpio m"
  by (induction n arbitrary: m) (auto simp: bind_eq_Some_conv split: if_splits dest: spi_read_gpio)

lemmas sd_gpio = spi_read_gpio spi_send_gpio sd_wait_ready_gpio sd_resp_gpio sd_get_bytes_gpio
  sd_token_gpio sd_put_ack_gpio

lemma sd_enabled: "sd_selected (m_gpio (snd (spi_device_enable bus SPI_SD_CARD m)))"
  using spi_enable_sd [of bus m] by auto

lemma sd_disabled: "\<not> sd_selected (m_gpio (snd (spi_device_disable bus SPI_SD_CARD m)))"
  using spi_disable_sd [of bus m] by (auto simp: sd_selected_def)

lemma sd_command0_selects: "sd_command0 bus cmd arg crc m = Some (r, m') \<Longrightarrow> sd_selected (m_gpio m')"
  using sd_enabled [of bus m]
  by (auto simp: sd_command0_def sd_command_def bind_eq_Some_conv dest!: sd_gpio)

lemma sd_acommand_selects: "sd_acommand bus cmd arg crc m = Some (r, m') \<Longrightarrow> sd_selected (m_gpio m')"
  by (auto simp: sd_acommand_def bind_eq_Some_conv split: if_splits dest: sd_command0_selects)

lemma sd_init_put_sector_selects: "sd_init_put_sector bus a m = Some (r, m') \<Longrightarrow> sd_selected (m_gpio m')"
  by (auto simp: sd_init_put_sector_def bind_eq_Some_conv split: if_splits dest: sd_command0_selects)

lemma sd_retry_inv:
  assumes op: "\<And>m r m'. op m = Some (r, m') \<Longrightarrow> P m'" and after: "\<And>m m'. P m \<Longrightarrow> after m = Some m' \<Longrightarrow> P m'"
  shows "sd_retry n op after good m = Some (b, m') \<Longrightarrow> P m'"
proof (induction n arbitrary: m)
  case 0
  then show ?case by (auto simp: bind_eq_Some_conv split: if_splits dest: op after)
next
  case (Suc n)
  then show ?case by (auto simp: bind_eq_Some_conv split: if_splits dest: op)
qed

lemma sd_retry_selects:
  "sd_retry n (sd_command0 bus cmd arg crc) Some good m = Some (b, m') \<Longrightarrow> sd_selected (m_gpio m')"
  by (rule sd_retry_inv [where P = "\<lambda>m. sd_selected (m_gpio m)"]) (auto dest: sd_command0_selects)

section \<open>Properties\<close>

text \<open>C5. Reading a sector: against a conforming card \<open>sd_get_sector\<close> returns, with result 0, the
  512 bytes of that sector in the buffer, the card's contents unchanged and the card deselected
  and ready for the next operation.\<close>

theorem sd_read_sector_correct:
  assumes "sd_ok V n bus m" and "unat a < n" and "length buf = 512"
  shows "\<exists>m'. sd_get_sector bus a buf 512 m = Some (0, sd_sectors V m a, m') \<and> sd_ok V n bus m' \<and>
    sd_sectors V m' = sd_sectors V m \<and> \<not> sd_selected (m_gpio m')"
  using sd_get_sector_ok [OF assms(1,2), of buf] assms(3) by auto

theorem sd_read_sector_correct_witness:
  "\<exists>m'. sd_get_sector sim_bus 3 (replicate 512 7) 512 sim_mcu = Some (0, replicate 512 0, m')"
  using sd_read_sector_correct [OF sim_mcu_ok, of 3 10 "replicate 512 7"]
  by (auto simp: sd_sectors_def sim_view_def sim_sect_def sim_mcu_def)

text \<open>C6. Writing sectors: a sequence of \<open>sd_put_sector\<close> calls against a conforming card all
  succeed and leave the card holding the last block written to each sector, which is what
  \<open>sd_get_sector\<close> then returns; sectors not written keep their contents.\<close>

theorem sd_write_then_read:
  assumes "sd_ok V n bus m" and "list_all (\<lambda>(a, bs). unat a < n \<and> length bs = 512) xs"
    and "unat b < n" and "length buf = 512"
  shows "\<exists>m'. blk_put_all (sd_ops bus) xs m = Some (0, m') \<and>
    sd_sectors V m' = fold (\<lambda>(a, bs) s. s(a := bs)) xs (sd_sectors V m) \<and>
    (\<exists>m''. sd_get_sector bus b buf 512 m' =
       Some (0, fold (\<lambda>(a, bs) s. s(a := bs)) xs (sd_sectors V m) b, m''))"
  using sd_blk.put_all_get [OF assms] by (fastforce simp: sd_ops_def)

theorem sd_write_then_read_witness:
  "\<exists>m' m''. blk_put_all (sd_ops sim_bus) [(2, replicate 512 1), (5, replicate 512 2), (2, replicate 512 9)] sim_mcu = Some (0, m') \<and>
    sd_get_sector sim_bus 2 (replicate 512 0) 512 m' = Some (0, replicate 512 9, m'')"
  using sd_write_then_read [OF sim_mcu_ok, of 10 "[(2, replicate 512 1), (5, replicate 512 2), (2, replicate 512 9)]" 2 "replicate 512 0"]
  by auto

text \<open>C31. The select line after an operation, whatever the device answers: \<open>sd_get_sector\<close> always
  deselects the card, and on failure leaves the buffer alone; \<open>sd_put_sector\<close> leaves it selected
  exactly when the write command was refused, although its comment says the device is disabled
  upon completion.\<close>

theorem sd_sector_select_line:
  "(\<forall>r buf' m'. sd_get_sector bus a buf sz m = Some (r, buf', m') \<longrightarrow>
      \<not> sd_selected (m_gpio m') \<and> (r = 0 \<or> r = - 1 \<and> buf' = buf)) \<and>
   (\<forall>r m'. sd_put_sector bus a buf sz m = Some (r, m') \<longrightarrow>
      (sd_selected (m_gpio m') \<longleftrightarrow>
        (\<exists>m1. sd_init_put_sector bus a (snd (spi_device_enable bus SPI_SD_CARD m)) = Some (- 1, m1))))"
proof (intro conjI allI impI)
  fix r buf' m'
  assume g: "sd_get_sector bus a buf sz m = Some (r, buf', m')"
  then show "\<not> sd_selected (m_gpio m')"
    by (auto simp: sd_get_sector_def bind_eq_Some_conv sd_disabled split: if_splits)
  show "r = 0 \<or> r = - 1 \<and> buf' = buf"
    using g by (auto simp: sd_get_sector_def bind_eq_Some_conv split: if_splits)
next
  fix r m'
  let ?i = "sd_init_put_sector bus a (snd (spi_device_enable bus SPI_SD_CARD m))"
  assume p: "sd_put_sector bus a buf sz m = Some (r, m')"
  then obtain r1 m1 where i: "?i = Some (r1, m1)" by (auto simp: sd_put_sector_def bind_eq_Some_conv)
  then have r1: "r1 = 0 \<or> r1 = - 1" by (auto simp: sd_init_put_sector_def bind_eq_Some_conv split: if_splits)
  show "sd_selected (m_gpio m') \<longleftrightarrow> (\<exists>m1. ?i = Some (- 1, m1))"
  proof (cases "r1 < 0")
    case True
    with p i have "m' = m1" by (simp add: sd_put_sector_def)
    with True r1 i sd_init_put_sector_selects [OF i] show ?thesis by auto
  next
    case False
    with p i have "\<not> sd_selected (m_gpio m')"
      by (auto simp: sd_put_sector_def bind_eq_Some_conv sd_disabled)
    with False i show ?thesis by auto
  qed
qed

definition mute_bus :: "unit spi_bus" where
  "mute_bus = \<lparr>bus_xfer = (\<lambda>k g b c. Some (0xFF, c)), bus_lines = (\<lambda>g c. c)\<rparr>"

definition busy_bus :: "unit spi_bus" where
  "busy_bus = \<lparr>bus_xfer = (\<lambda>k g b c. Some (0, c)), bus_lines = (\<lambda>g c. c)\<rparr>"

definition unit_mcu :: "unit mcu" where
  "unit_mcu = \<lparr>m_gpio = \<lparr>port_out = (\<lambda>_. 0xFF), port_ddr = (\<lambda>_. 0)\<rparr>, m_spcr = 0x53, m_dev = ()\<rparr>"

lemma mute_read: "spi_read_char mute_bus m = Some (0xFF, m)"
  by (cases m) (simp add: spi_read_char_def mute_bus_def)

lemma mute_write: "spi_write_char mute_bus b m = Some (0xFF, m)"
  by (cases m) (simp add: spi_write_char_def mute_bus_def)

lemma mute_send: "spi_send mute_bus bs m = Some m"
  by (induction bs) (simp_all add: mute_write)

lemma mute_resp: "sd_resp n mute_bus m = Some (0xFF, m)"
  by (induction n) (simp_all add: mute_read R1_RESPONSE_ERR_def RET_MSB_MASK_def)

lemma mute_wait: "sd_wait_ready mute_bus m = Some m"
  by (simp add: sd_wait_ready.simps sd_is_busy_def mute_read)

lemma mute_command: "sd_command0 mute_bus cmd arg crc m = Some (0xFF, snd (spi_device_enable mute_bus SPI_SD_CARD m))"
  by (simp add: sd_command0_def sd_command_def mute_send mute_resp)

theorem sd_sector_select_line_witness:
  "\<exists>r m'. sd_put_sector mute_bus 0 [] 512 unit_mcu = Some (r, m') \<and> sd_selected (m_gpio m')"
proof -
  have "\<exists>m1. sd_init_put_sector mute_bus 0 (snd (spi_device_enable mute_bus SPI_SD_CARD unit_mcu)) = Some (- 1, m1)"
    by (simp add: sd_init_put_sector_def mute_wait mute_command)
  moreover from this have "\<exists>r m'. sd_put_sector mute_bus 0 [] 512 unit_mcu = Some (r, m')"
    by (auto simp: sd_put_sector_def)
  ultimately show ?thesis using sd_sector_select_line [of mute_bus 0 "[]" 512 unit_mcu] by blast
qed

lemma sd_wait_ready_hangs:
  assumes busy: "\<And>k g c. \<exists>b c'. bus_xfer bus k g 0xFF c = Some (b, c') \<and> b \<noteq> 0xFF"
  shows "sd_wait_ready bus m = None"
proof (rule ccontr)
  assume "sd_wait_ready bus m \<noteq> None"
  then obtain m' where w: "sd_wait_ready bus m = Some m'" by blast
  have "bus = bus \<longrightarrow> False"
  proof (rule sd_wait_ready.raw_induct [where P = "\<lambda>bus' _ _. bus' = bus \<longrightarrow> False", OF _ w])
    fix f :: "'a spi_bus \<Rightarrow> 'a mcu \<Rightarrow> 'a mcu option" and bus' m m'
    assume IH: "\<And>bus' m m'. f bus' m = Some m' \<Longrightarrow> bus' = bus \<longrightarrow> False"
      and step: "sd_is_busy bus' m \<bind> (\<lambda>(busy, m). if busy then f bus' m else Some m) = Some m'"
    show "bus' = bus \<longrightarrow> False"
    proof
      assume "bus' = bus"
      obtain b c' where "bus_xfer bus (m_spcr m) (m_gpio m) 0xFF (m_dev m) = Some (b, c')" "b \<noteq> 0xFF"
        using busy by blast
      with step \<open>bus' = bus\<close> have "f bus' (m\<lparr>m_dev := c'\<rparr>) = Some m'"
        by (simp add: sd_is_busy_def spi_read_char_def)
      with IH \<open>bus' = bus\<close> show False by blast
    qed
  qed
  then show False by simp
qed

text \<open>None of the busy loops has a timeout: on a device that answers every poll with something
  other than 0xFF, \<open>sd_get_sector\<close>, \<open>sd_put_sector\<close> and the wait itself never return, so
  the read and write timeouts of the code are never reached.\<close>

theorem sd_busy_card_hangs:
  assumes "\<And>k g c. \<exists>b c'. bus_xfer bus k g 0xFF c = Some (b, c') \<and> b \<noteq> 0xFF"
  shows "sd_wait_ready bus m = None \<and> sd_get_sector bus a buf sz m = None \<and> sd_put_sector bus a buf sz m = None"
  using sd_wait_ready_hangs [OF assms]
  by (simp add: sd_get_sector_def sd_put_sector_def sd_init_read_sector_def sd_init_put_sector_def)

theorem sd_busy_card_hangs_witness: "sd_get_sector busy_bus 0 [] 512 unit_mcu = None"
proof -
  have "\<exists>b c'. bus_xfer busy_bus k g 0xFF c = Some (b, c') \<and> b \<noteq> 0xFF" for k g c
    by (simp add: busy_bus_def)
  from sd_busy_card_hangs [OF this] show ?thesis by blast
qed

lemma sd_init_cmd8_type:
  "sd_init_cmd8 bus sd m = Some (True, sd', m') \<Longrightarrow> sd_type sd' = SD_TYPE_2"
  by (auto simp: sd_init_cmd8_def bind_eq_Some_conv R1_IDLE_STATE_def R1_ILLEGAL_COMMAND_def Let_def
      split: if_splits)

lemma sd_init_cmd58_result:
  "\<lbrakk>sd_init_cmd58 bus sd m = Some (True, sd', m'); sd_type sd = SD_TYPE_2\<rbrakk> \<Longrightarrow>
     sd_selected (m_gpio m') \<and> (sd_type sd' = SD_TYPE_2 \<or> sd_type sd' = SD_TYPE_SDHC)"
  by (auto simp: sd_init_cmd58_def bind_eq_Some_conv split: if_splits
      dest!: sd_get_bytes_gpio dest: sd_retry_selects)

lemma sd_init_sequence_result:
  "sd_init_sequence bus sd m = Some (True, sd', m') \<Longrightarrow>
     sd_selected (m_gpio m') \<and> (sd_type sd' = SD_TYPE_2 \<or> sd_type sd' = SD_TYPE_SDHC)"
  by (auto simp: sd_init_sequence_def bind_eq_Some_conv split: if_splits
      dest: sd_init_cmd8_type sd_init_cmd58_result)

text \<open>A bus on which every exchange of a byte completes. The driver can then only be stuck in a busy wait.\<close>

definition bus_total :: "'c spi_bus \<Rightarrow> bool" where
  "bus_total bus \<longleftrightarrow> (\<forall>k g b c. bus_xfer bus k g b c \<noteq> None)"

text \<open>The states that the driver comes to from \<open>m\<close> by exchanging bytes, selecting and deselecting the card.\<close>

inductive sd_drives :: "'c spi_bus \<Rightarrow> 'c mcu \<Rightarrow> 'c mcu \<Rightarrow> bool" for bus m where
  here: "sd_drives bus m m"
| exchange: "\<lbrakk>sd_drives bus m m1; spi_write_char bus b m1 = Some (r, m2)\<rbrakk> \<Longrightarrow> sd_drives bus m m2"
| select: "sd_drives bus m m1 \<Longrightarrow> sd_drives bus m (snd (spi_device_enable bus SPI_SD_CARD m1))"
| deselect: "sd_drives bus m m1 \<Longrightarrow> sd_drives bus m (snd (spi_device_disable bus SPI_SD_CARD m1))"

lemma drives_read: "\<lbrakk>spi_read_char bus m1 = Some (r, m2); sd_drives bus m m1\<rbrakk> \<Longrightarrow> sd_drives bus m m2"
  using sd_drives.exchange [of bus m m1 "0xFF" r m2] by (simp add: spi_read_char_def spi_write_char_def)

lemma drives_send: "\<lbrakk>spi_send bus bs m1 = Some m2; sd_drives bus m m1\<rbrakk> \<Longrightarrow> sd_drives bus m m2"
  by (induction bs arbitrary: m1) (auto simp: bind_eq_Some_conv intro: sd_drives.exchange)

lemma drives_resp: "\<lbrakk>sd_resp n bus m1 = Some (r, m2); sd_drives bus m m1\<rbrakk> \<Longrightarrow> sd_drives bus m m2"
  by (induction n arbitrary: m1) (auto simp: bind_eq_Some_conv split: if_splits dest: drives_read)

lemma drives_list: "\<lbrakk>sd_read_list n bus m1 = Some (bs, m2); sd_drives bus m m1\<rbrakk> \<Longrightarrow> sd_drives bus m m2"
  by (induction n arbitrary: m1 bs) (auto simp: bind_eq_Some_conv dest: drives_read)

lemma drives_bytes: "\<lbrakk>sd_get_bytes bus n buf m1 = Some (bs, m2); sd_drives bus m m1\<rbrakk> \<Longrightarrow> sd_drives bus m m2"
  by (auto simp: sd_get_bytes_def bind_eq_Some_conv dest: drives_list)

lemma drives_wait:
  assumes "sd_wait_ready bus m1 = Some m2" and "sd_drives bus m m1"
  shows "sd_drives bus m m2"
proof -
  have "bus = bus \<longrightarrow> sd_drives bus m m1 \<longrightarrow> sd_drives bus m m2"
  proof (rule sd_wait_ready.raw_induct [where P = "\<lambda>bus' m1 m2. bus' = bus \<longrightarrow> sd_drives bus m m1 \<longrightarrow> sd_drives bus m m2", OF _ assms(1)])
    fix f :: "'a spi_bus \<Rightarrow> 'a mcu \<Rightarrow> 'a mcu option" and bus' m1 m2
    assume IH: "\<And>bus' m1 m2. f bus' m1 = Some m2 \<Longrightarrow> bus' = bus \<longrightarrow> sd_drives bus m m1 \<longrightarrow> sd_drives bus m m2"
      and "sd_is_busy bus' m1 \<bind> (\<lambda>(busy, m). if busy then f bus' m else Some m) = Some m2"
    then obtain ch m3 where "spi_read_char bus' m1 = Some (ch, m3)"
      and "(if ch \<noteq> 0xFF then f bus' m3 else Some m3) = Some m2"
      by (auto simp: sd_is_busy_def bind_eq_Some_conv)
    with IH drives_read show "bus' = bus \<longrightarrow> sd_drives bus m m1 \<longrightarrow> sd_drives bus m m2" by (metis option.inject)
  qed
  with assms(2) show ?thesis by simp
qed

lemma drives_command: "\<lbrakk>sd_command0 bus cmd arg crc m1 = Some (r, m2); sd_drives bus m m1\<rbrakk> \<Longrightarrow> sd_drives bus m m2"
  by (auto simp: sd_command0_def sd_command_def bind_eq_Some_conv dest!: drives_send drives_resp intro: sd_drives.select)

lemma drives_acommand: "\<lbrakk>sd_acommand bus cmd arg crc m1 = Some (r, m2); sd_drives bus m m1\<rbrakk> \<Longrightarrow> sd_drives bus m m2"
  by (auto simp: sd_acommand_def bind_eq_Some_conv split: if_splits dest: drives_command drives_wait)

lemma drives_wake_up: "\<lbrakk>sd_wake_up bus m1 = Some (r, m2); sd_drives bus m m1\<rbrakk> \<Longrightarrow> sd_drives bus m m2"
  using sd_drives.deselect [of bus m m1]
  by (auto simp: sd_wake_up_def bind_eq_Some_conv split: prod.splits if_splits dest: drives_send)

definition stuck_busy :: "'c spi_bus \<Rightarrow> 'c mcu \<Rightarrow> bool" where
  "stuck_busy bus m \<longleftrightarrow> (\<exists>m1. sd_drives bus m m1 \<and> sd_selected (m_gpio m1) \<and> sd_wait_ready bus m1 = None)"

lemma stuck_busyI: "\<lbrakk>sd_wait_ready bus m1 = None; sd_drives bus m m1; sd_selected (m_gpio m1)\<rbrakk> \<Longrightarrow> stuck_busy bus m"
  by (auto simp: stuck_busy_def)

lemma total_read: "bus_total bus \<Longrightarrow> spi_read_char bus m \<noteq> None"
  by (auto simp: bus_total_def spi_read_char_def split: bind_splits)

lemma total_send: "bus_total bus \<Longrightarrow> spi_send bus bs m \<noteq> None"
proof (induction bs arbitrary: m)
  case (Cons b bs)
  then show ?case by (fastforce simp: bus_total_def spi_write_char_def split: bind_splits)
qed simp

lemma total_resp: "bus_total bus \<Longrightarrow> sd_resp n bus m \<noteq> None"
  by (induction n arbitrary: m) (auto simp: total_read split: bind_splits)

lemma total_list: "bus_total bus \<Longrightarrow> sd_read_list n bus m \<noteq> None"
proof (induction n arbitrary: m)
  case (Suc n)
  obtain b m1 where "spi_read_char bus m = Some (b, m1)" using total_read [OF Suc.prems, of m] by auto
  with Suc.IH [OF Suc.prems, of m1] show ?case by auto
qed simp

lemma total_bytes: "bus_total bus \<Longrightarrow> sd_get_bytes bus n buf m \<noteq> None"
  by (simp add: sd_get_bytes_def total_list split: bind_splits)

lemma total_command: "bus_total bus \<Longrightarrow> sd_command0 bus cmd arg crc m \<noteq> None"
  by (auto simp: sd_command0_def sd_command_def total_send total_resp split: bind_splits)

lemma total_wake_up: "bus_total bus \<Longrightarrow> sd_wake_up bus m \<noteq> None"
  by (auto simp: sd_wake_up_def total_send split: bind_splits prod.splits)

lemma total_acommand:
  "\<lbrakk>bus_total bus; sd_acommand bus cmd arg crc m1 = None; sd_drives bus m m1\<rbrakk> \<Longrightarrow> stuck_busy bus m"
  by (auto simp: sd_acommand_def total_command split: if_splits prod.splits bind_splits
      dest: sd_command0_selects drives_command intro: stuck_busyI)

text \<open>A retry loop gives up what its parts give up: \<open>S\<close> holds before each try, \<open>T\<close> after it.\<close>

lemma total_retry:
  assumes op: "\<And>m. \<lbrakk>op m = None; S m\<rbrakk> \<Longrightarrow> H" and T: "\<And>m r m'. \<lbrakk>op m = Some (r, m'); S m\<rbrakk> \<Longrightarrow> T m'"
    and after: "\<And>m. \<lbrakk>after m = None; T m\<rbrakk> \<Longrightarrow> H" and S: "\<And>m m'. \<lbrakk>after m = Some m'; T m\<rbrakk> \<Longrightarrow> S m'"
  shows "\<lbrakk>sd_retry n op after good m = None; S m\<rbrakk> \<Longrightarrow> H"
proof (induction n arbitrary: m)
  case 0
  then show ?case using op [of m] T [of m] after by (cases "op m") (auto split: if_splits bind_splits)
next
  case (Suc n)
  show ?case
  proof (cases "op m")
    case None
    then show ?thesis using Suc.prems(2) by (rule op)
  next
    case (Some x)
    then obtain r1 m1 where o: "op m = Some (r1, m1)" by (cases x) simp
    with Suc.prems have g: "r1 \<noteq> good" by (auto split: if_splits)
    show ?thesis
    proof (cases "after m1")
      case None
      then show ?thesis using T [OF o Suc.prems(2)] by (rule after)
    next
      case (Some m2)
      with Suc.prems o g have "sd_retry n op after good m2 = None" by simp
      then show ?thesis using S [OF Some T [OF o Suc.prems(2)]] by (rule Suc.IH)
    qed
  qed
qed

lemma total_retry_command:
  "bus_total bus \<Longrightarrow> sd_retry n (sd_command0 bus cmd arg crc) Some good m \<noteq> None"
  using total_retry [of "sd_command0 bus cmd arg crc" "\<lambda>_. True" False "\<lambda>_. True" Some n good m] total_command by blast

lemma drives_retry:
  assumes op: "\<And>m1 r m2. \<lbrakk>op m1 = Some (r, m2); sd_drives bus m m1\<rbrakk> \<Longrightarrow> sd_drives bus m m2"
    and after: "\<And>m1 m2. \<lbrakk>after m1 = Some m2; sd_drives bus m m1\<rbrakk> \<Longrightarrow> sd_drives bus m m2"
  shows "\<lbrakk>sd_retry n op after good m1 = Some (b, m2); sd_drives bus m m1\<rbrakk> \<Longrightarrow> sd_drives bus m m2"
proof (induction n arbitrary: m1)
  case 0
  then show ?case by (auto simp: bind_eq_Some_conv split: if_splits dest: op after)
next
  case (Suc n)
  then show ?case by (auto simp: bind_eq_Some_conv split: if_splits dest: op after)
qed

lemma drives_retry_command:
  "\<lbrakk>sd_retry n (sd_command0 bus cmd arg crc) Some good m1 = Some (b, m2); sd_drives bus m m1\<rbrakk> \<Longrightarrow> sd_drives bus m m2"
  by (erule drives_retry [rotated 2]) (auto dest: drives_command)

lemma total_cmd0: "\<lbrakk>bus_total bus; sd_init_cmd0 bus m1 = None; sd_drives bus m m1\<rbrakk> \<Longrightarrow> stuck_busy bus m"
  by (auto simp: sd_init_cmd0_def total_retry_command split: bind_splits if_splits prod.splits
      dest: sd_retry_selects drives_retry_command intro: stuck_busyI)

lemma drives_cmd0: "\<lbrakk>sd_init_cmd0 bus m1 = Some (ok, m2); sd_drives bus m m1\<rbrakk> \<Longrightarrow> sd_drives bus m m2"
  by (auto simp: sd_init_cmd0_def bind_eq_Some_conv split: if_splits dest: drives_retry_command drives_wait)

lemma total_cmd8: "bus_total bus \<Longrightarrow> sd_init_cmd8 bus sd m \<noteq> None"
  by (auto simp: sd_init_cmd8_def Let_def total_retry_command total_bytes split: bind_splits if_splits prod.splits)

lemma drives_cmd8: "\<lbrakk>sd_init_cmd8 bus sd m1 = Some (ok, sd', m2); sd_drives bus m m1\<rbrakk> \<Longrightarrow> sd_drives bus m m2"
  by (auto simp: sd_init_cmd8_def Let_def bind_eq_Some_conv split: if_splits dest: drives_retry_command drives_bytes)

lemma total_acmd41:
  assumes "bus_total bus" and "sd_init_acmd41 bus sd m1 = None" and "sd_drives bus m m1"
  shows "stuck_busy bus m"
proof -
  let ?op = "sd_acommand bus ACMD41
    (if sd_type sd = SD_TYPE_2 then bind_args SDHC_HIGH_SPEED_FLAG NOARG NOARG NOARG else bind_args NOARG NOARG NOARG NOARG) NOCRC"
  let ?T = "\<lambda>m2. sd_drives bus m m2 \<and> sd_selected (m_gpio m2)"
  have r: "stuck_busy bus m" if "sd_retry n ?op (sd_wait_ready bus) R1_READY_STATE m1 = None" for n
    by (rule total_retry [where S = "sd_drives bus m" and T = ?T, OF _ _ _ _ that assms(3)])
      (auto dest: total_acommand [OF assms(1)] sd_acommand_selects drives_acommand drives_wait intro: stuck_busyI)
  have s: "?T m2" if "sd_retry n ?op (sd_wait_ready bus) R1_READY_STATE m1 = Some (b, m2)" for n b m2
  proof
    show "sd_drives bus m m2" by (rule drives_retry [OF _ _ that assms(3)]) (auto dest: drives_acommand drives_wait)
    show "sd_selected (m_gpio m2)"
      by (rule sd_retry_inv [where P = "\<lambda>m. sd_selected (m_gpio m)", OF _ _ that]) (auto dest: sd_acommand_selects sd_wait_ready_gpio)
  qed
  from assms(2) r [of MAX_CMD_TRIALS] s [of MAX_CMD_TRIALS] show ?thesis
    by (auto simp: sd_init_acmd41_def split: bind_splits if_splits prod.splits intro: stuck_busyI)
qed

lemma total_cmd58: "bus_total bus \<Longrightarrow> sd_init_cmd58 bus sd m \<noteq> None"
  by (auto simp: sd_init_cmd58_def total_retry_command total_bytes split: bind_splits if_splits prod.splits)

lemma total_initialize:
  assumes "bus_total bus" and "initialize_sd bus sd m = None"
  shows "stuck_busy bus m"
  using assms(2) sd_drives.here [of bus m]
  by (auto simp: initialize_sd_def sd_init_sequence_def total_wake_up [OF assms(1)] total_cmd8 [OF assms(1)] total_cmd58 [OF assms(1)]
      dest: drives_wake_up drives_cmd0 drives_cmd8 total_cmd0 [OF assms(1)] total_acmd41 [OF assms(1)]
      split: bind_splits if_splits prod.splits)

lemma initialize_sd_results:
  assumes "initialize_sd bus sd m = Some (r, sd', m')"
  shows "(r = 0 \<and> sd_status sd' = SD_ENABLED \<and> sd_sector_size sd' = 512 \<and>
      (sd_type sd' = SD_TYPE_2 \<or> sd_type sd' = SD_TYPE_SDHC) \<and> sd_selected (m_gpio m')) \<or>
    (r = - 1 \<and> sd_status sd' = SD_DISABLED \<and> \<not> sd_selected (m_gpio m'))"
proof -
  from assms obtain ok sd1 m1 where s: "sd_init_sequence bus sd m = Some (ok, sd1, m1)"
    and r: "(r, sd', m') = (if ok then (0, sd1\<lparr>sd_status := SD_ENABLED, sd_sector_size := SECTOR_SIZE\<rparr>, m1)
      else (- 1, sd1\<lparr>sd_status := SD_DISABLED\<rparr>, snd (spi_device_disable bus SPI_SD_CARD m1)))"
    by (auto simp: initialize_sd_def bind_eq_Some_conv split: if_splits)
  show ?thesis
  proof (cases ok)
    case True
    with s sd_init_sequence_result [of bus sd m sd1 m1]
    have "sd_selected (m_gpio m1)" "sd_type sd1 = SD_TYPE_2 \<or> sd_type sd1 = SD_TYPE_SDHC"
      by auto
    with True r show ?thesis by (simp add: SECTOR_SIZE_def)
  next
    case False
    with r show ?thesis by (simp add: sd_disabled)
  qed
qed

text \<open>C29. The three outcomes of \<open>initialize_sd\<close> on a device that answers every exchange with some byte. Either the
  call returns 0, with the status enabled, the sector size 512 and the type SD version 2 or SDHC, and leaves the
  card selected; or it returns -1, with the status disabled, and deselects the card; or it does not return, and
  then it can come, by exchanging bytes, selecting and deselecting, to a state with the card selected from which the
  busy wait, which has no timeout, does not end. The README's procedure
  reads otherwise in two points: it ends with \<open>deselect chip\<close>, which the code does only on failure, and it takes a
  card that flags CMD8 as illegal for version 1, which the code never does, since the loop of CMD8 ends only on
  the idle response.\<close>

theorem initialize_sd_outcome:
  assumes "bus_total bus"
  shows "case initialize_sd bus sd m of
      None \<Rightarrow> \<exists>m1. sd_drives bus m m1 \<and> sd_selected (m_gpio m1) \<and> sd_wait_ready bus m1 = None
    | Some (r, sd', m') \<Rightarrow>
        (r = 0 \<and> sd_status sd' = SD_ENABLED \<and> sd_sector_size sd' = 512 \<and>
          (sd_type sd' = SD_TYPE_2 \<or> sd_type sd' = SD_TYPE_SDHC) \<and> sd_selected (m_gpio m')) \<or>
        (r = - 1 \<and> sd_status sd' = SD_DISABLED \<and> \<not> sd_selected (m_gpio m'))"
  using total_initialize [OF assms, of sd m] initialize_sd_results [of bus sd m]
  by (auto simp: stuck_busy_def split: option.splits)

text \<open>The third outcome: a device that answers every byte with 0x01 passes CMD0 and then looks busy for ever.\<close>

definition idle_bus :: "unit spi_bus" where
  "idle_bus = \<lparr>bus_xfer = (\<lambda>k g b c. Some (1, c)), bus_lines = (\<lambda>g c. c)\<rparr>"

lemma idle_write: "spi_write_char idle_bus b m = Some (1, m)"
  by (cases m) (simp add: spi_write_char_def idle_bus_def)

lemma idle_send: "spi_send idle_bus bs m = Some m"
  by (induction bs) (simp_all add: idle_write)

lemma idle_command:
  "sd_command0 idle_bus cmd arg crc m = Some (1, snd (spi_device_enable idle_bus SPI_SD_CARD m))"
  by (simp add: sd_command0_def sd_command_def idle_send MAX_CMD_TRIALS_def eval_nat_numeral)
    (simp add: spi_read_char_def idle_bus_def RET_MSB_MASK_def)

theorem initialize_sd_hangs: "initialize_sd idle_bus sd m = None"
proof -
  obtain m1 where 1: "sd_wake_up idle_bus m = Some (0, m1)"
    using spi_disable_sd [of idle_bus m] by (auto simp: sd_wake_up_def idle_send)
  obtain m2 where 2: "sd_retry MAX_CMD_TRIALS (sd_command0 idle_bus (0x40 OR 0) 0 0x95) Some R1_IDLE_STATE m1 = Some (True, m2)"
    by (simp add: idle_command MAX_CMD_TRIALS_def eval_nat_numeral R1_IDLE_STATE_def)
  have "sd_wait_ready idle_bus m2 = None"
    by (rule sd_wait_ready_hangs) (simp add: idle_bus_def)
  with 1 2 show ?thesis by (simp add: initialize_sd_def sd_init_sequence_def sd_init_cmd0_def)
qed

text \<open>Initialisation on a device that never answers fails after nine tries of CMD0.\<close>

lemma mute_retry:
  "\<exists>m'. sd_retry n (sd_command0 mute_bus cmd arg crc) Some R1_IDLE_STATE m = Some (False, m')"
  by (induction n arbitrary: m) (simp_all add: mute_command R1_IDLE_STATE_def)

lemma mute_initialize: "\<exists>sd' m'. initialize_sd mute_bus sd m = Some (- 1, sd', m')"
proof -
  have w: "\<exists>m1. sd_wake_up mute_bus m = Some (0, m1)"
    using spi_disable_sd [of mute_bus m] by (auto simp: sd_wake_up_def mute_send)
  then obtain m1 where m1: "sd_wake_up mute_bus m = Some (0, m1)" by blast
  obtain m2 where "sd_retry MAX_CMD_TRIALS (sd_command0 mute_bus (0x40 OR 0) 0 0x95) Some R1_IDLE_STATE m1 = Some (False, m2)"
    using mute_retry by blast
  with m1 have "sd_init_sequence mute_bus sd m = Some (False, sd, m2)"
    by (simp add: sd_init_sequence_def sd_init_cmd0_def)
  then show ?thesis by (simp add: initialize_sd_def)
qed

theorem initialize_sd_outcome_witness:
  "(\<exists>sd' m'. initialize_sd mute_bus \<lparr>sd_type = 0, sd_status = 0, sd_sector_size = 0\<rparr> unit_mcu = Some (- 1, sd', m') \<and>
     sd_status sd' = SD_DISABLED \<and> \<not> sd_selected (m_gpio m')) \<and>
   (\<exists>m1. sd_drives idle_bus unit_mcu m1 \<and> sd_selected (m_gpio m1) \<and> sd_wait_ready idle_bus m1 = None)"
proof -
  obtain sd' m' where i: "initialize_sd mute_bus \<lparr>sd_type = 0, sd_status = 0, sd_sector_size = 0\<rparr> unit_mcu = Some (- 1, sd', m')"
    using mute_initialize by blast
  have t: "bus_total mute_bus" "bus_total idle_bus" by (simp_all add: bus_total_def mute_bus_def idle_bus_def)
  from initialize_sd_outcome [OF t(1), where sd = "\<lparr>sd_type = 0, sd_status = 0, sd_sector_size = 0\<rparr>" and m = unit_mcu] i
    initialize_sd_outcome [OF t(2), where sd = "\<lparr>sd_type = 0, sd_status = 0, sd_sector_size = 0\<rparr>" and m = unit_mcu]
  show ?thesis by (simp add: initialize_sd_hangs)
qed

end
