(* ===== verification/Io.thy ===== *)
theory Io
  imports Sd_Card
begin

text \<open>
  src/io.c: the byte-addressed layer over the card, with one cached sector for reading and one for
  writing. The operations are written against the block interface \<open>block_ops\<close>; the state is the
  \<open>io_ctx\<close> and the machine below it. The two caches are not coherent with each other: the
  lemmas say which view each side has, and when the two agree.

  \<open>io_put_byte\<close> has no return statement on its success path although its callers test the result;
  what the caller then finds in the return register is the parameter \<open>junk\<close>.
\<close>

section \<open>The context and the operations\<close>

record io_ctx =
  input_sector_addr :: u16
  input_byte_addr :: u64
  input_sector_buf :: "u8 list"
  input_sector_crc :: u16
  output_sector_addr :: u16
  output_byte_addr :: u64
  output_sector_buf :: "u8 list"
  output_sector_crc :: u16
  io_sd :: sd_ctx

definition initialize_io ::
  "'m block_ops \<Rightarrow> io_ctx \<Rightarrow> sd_ctx \<Rightarrow> 'm \<Rightarrow> (int \<times> io_ctx \<times> 'm) option" where
  "initialize_io B io sd m =
    do {
      (r, buf, m) \<leftarrow> blk_get B 0 (input_sector_buf io) (unat SECTOR_SIZE) m;
      let io = io\<lparr>input_sector_buf := buf\<rparr>;
      if r < 0 then Some (- 1, io, m)
      else do {
        (r, buf, m) \<leftarrow> blk_get B 0 (output_sector_buf io) (unat SECTOR_SIZE) m;
        let io = io\<lparr>output_sector_buf := buf\<rparr>;
        if r < 0 then Some (- 1, io, m)
        else Some (0, io\<lparr>input_sector_addr := 0, input_byte_addr := 0,
                         output_sector_addr := 0, output_byte_addr := 0, io_sd := sd\<rparr>, m)
      }
    }"

text \<open>\<open>*buf\<close> is only written on success; its old value is an argument.\<close>

definition io_get_byte ::
  "'m block_ops \<Rightarrow> io_ctx \<Rightarrow> u32 \<Rightarrow> u8 \<Rightarrow> 'm \<Rightarrow> (int \<times> u8 \<times> io_ctx \<times> 'm) option" where
  "io_get_byte B io offset old m =
    (let sector_addr = drop_bit 9 offset;
         sector_offset = offset mod ucast SECTOR_SIZE;
         done = (\<lambda>io m. Some (0, input_sector_buf io ! unat sector_offset,
                  io\<lparr>input_byte_addr := ucast (sector_addr + sector_offset)\<rparr>, m))
     in if sector_addr \<noteq> ucast (input_sector_addr io) then
          do {
            (r, buf, m) \<leftarrow> blk_get B sector_addr (input_sector_buf io) (unat SECTOR_SIZE) m;
            let io = io\<lparr>input_sector_buf := buf\<rparr>;
            if r < 0 then Some (- 1, old, io, m)
            else done (io\<lparr>input_sector_addr := ucast sector_addr\<rparr>) m
          }
        else done io m)"

text \<open>The loop of \<open>io_read_nbytes\<close> over the destination: the result holds its new contents.\<close>

fun io_read_nbytes ::
  "'m block_ops \<Rightarrow> io_ctx \<Rightarrow> u8 list \<Rightarrow> u32 \<Rightarrow> 'm \<Rightarrow> (int \<times> u8 list \<times> io_ctx \<times> 'm) option" where
  "io_read_nbytes B io [] offset m = Some (0, [], io, m)"
| "io_read_nbytes B io (old # buf) offset m =
    do {
      (r, b, io, m) \<leftarrow> io_get_byte B io offset old m;
      if r < 0 then Some (- 1, b # buf, io, m)
      else do {
        (r, bs, io, m) \<leftarrow> io_read_nbytes B io buf (offset + 1) m;
        Some (r, b # bs, io, m)
      }
    }"

definition io_flush_read_buffer :: "'m block_ops \<Rightarrow> io_ctx \<Rightarrow> 'm \<Rightarrow> (int \<times> io_ctx \<times> 'm) option" where
  "io_flush_read_buffer B io m =
    do {
      (r, buf, m) \<leftarrow> blk_get B (ucast (input_sector_addr io)) (input_sector_buf io) (unat SECTOR_SIZE) m;
      Some (r, io\<lparr>input_sector_buf := buf\<rparr>, m)
    }"

definition io_flush_write_buffer :: "'m block_ops \<Rightarrow> io_ctx \<Rightarrow> 'm \<Rightarrow> (int \<times> io_ctx \<times> 'm) option" where
  "io_flush_write_buffer B io m =
    do {
      (r, m) \<leftarrow> blk_put B (ucast (output_sector_addr io)) (output_sector_buf io) (unat SECTOR_SIZE) m;
      Some (r, io, m)
    }"

definition io_put_byte ::
  "'m block_ops \<Rightarrow> (io_ctx \<Rightarrow> int) \<Rightarrow> io_ctx \<Rightarrow> u32 \<Rightarrow> u8 \<Rightarrow> 'm \<Rightarrow> (int \<times> io_ctx \<times> 'm) option" where
  "io_put_byte B junk io offset b m =
    (let sector_addr = offset div 512;
         sector_offset = offset mod ucast SECTOR_SIZE;
         done = (\<lambda>io m.
           let io = io\<lparr>output_sector_buf := (output_sector_buf io)[unat sector_offset := b]\<rparr>;
               io = io\<lparr>output_byte_addr := ucast (sector_addr + sector_offset)\<rparr>
           in Some (junk io, io, m))
     in if sector_addr \<noteq> ucast (output_sector_addr io) then
          do {
            (r, io, m) \<leftarrow> io_flush_write_buffer B io m;
            if r < 0 then Some (- 1, io, m)
            else do {
              (r, buf, m) \<leftarrow> blk_get B sector_addr (output_sector_buf io) 512 m;
              let io = io\<lparr>output_sector_buf := buf\<rparr>;
              if r < 0 then Some (- 1, io, m)
              else done (io\<lparr>output_sector_addr := ucast sector_addr\<rparr>) m
            }
          }
        else done io m)"

fun io_write_nbytes ::
  "'m block_ops \<Rightarrow> (io_ctx \<Rightarrow> int) \<Rightarrow> io_ctx \<Rightarrow> u8 list \<Rightarrow> u32 \<Rightarrow> 'm \<Rightarrow> (int \<times> io_ctx \<times> 'm) option" where
  "io_write_nbytes B junk io [] offset m = Some (0, io, m)"
| "io_write_nbytes B junk io (b # bs) offset m =
    do {
      (r, io, m) \<leftarrow> io_put_byte B junk io offset b m;
      if r < 0 then Some (- 1, io, m) else io_write_nbytes B junk io bs (offset + 1) m
    }"

section \<open>Bytes of a medium of sectors\<close>

definition disk_byte :: "(u32 \<Rightarrow> u8 list) \<Rightarrow> u32 \<Rightarrow> u8" where
  "disk_byte s x = s (drop_bit 9 x) ! (unat x mod 512)"

definition disk_put :: "u32 \<Rightarrow> u8 \<Rightarrow> (u32 \<Rightarrow> u8 list) \<Rightarrow> u32 \<Rightarrow> u8 list" where
  "disk_put x b s = s(drop_bit 9 x := (s (drop_bit 9 x))[unat x mod 512 := b])"

fun disk_puts :: "u32 \<Rightarrow> u8 list \<Rightarrow> (u32 \<Rightarrow> u8 list) \<Rightarrow> u32 \<Rightarrow> u8 list" where
  "disk_puts x [] s = s"
| "disk_puts x (b # bs) s = disk_puts (x + 1) bs (disk_put x b s)"

definition disk_bytes :: "(u32 \<Rightarrow> u8 list) \<Rightarrow> u32 \<Rightarrow> nat \<Rightarrow> u8 list" where
  "disk_bytes s x n = map (\<lambda>i. disk_byte s (x + of_nat i)) [0..<n]"

lemma unat_sector: "unat (drop_bit 9 x :: u32) = unat x div 512"
  by (simp only: unat_drop_bit_eq) (simp add: drop_bit_eq_div)

lemma sector_div: "x div 512 = drop_bit 9 x" for x :: u32
  by (simp only: word_unat_eq_iff unat_sector unat_div_distrib) simp

lemma sector_off: "unat (x mod ucast SECTOR_SIZE :: u32) = unat x mod 512"
  by (simp add: SECTOR_SIZE_def unat_mod_distrib)

lemma sector_pos_inj: "drop_bit 9 x = drop_bit 9 y \<Longrightarrow> unat x mod 512 = unat y mod 512 \<Longrightarrow> x = y" for x y :: u32
proof -
  assume "drop_bit 9 x = drop_bit 9 y" and m: "unat x mod 512 = unat y mod 512"
  then have "unat x div 512 = unat y div 512" by (metis unat_sector)
  with m have "unat x = unat y" by (metis div_mult_mod_eq)
  then show ?thesis by (simp only: word_unat_eq_iff)
qed

lemma disk_byte_put:
  "length (s (drop_bit 9 x)) = 512 \<Longrightarrow>
    disk_byte (disk_put x b s) y = (if y = x then b else disk_byte s y)"
  using sector_pos_inj [of y x] by (auto simp: disk_byte_def disk_put_def nth_list_update)

lemma length_disk_put [simp]: "length (disk_put x b s a) = length (s a)"
  by (simp add: disk_put_def)

lemma length_disk_puts [simp]: "length (disk_puts x bs s a) = length (s a)"
  by (induction x bs s rule: disk_puts.induct) simp_all

lemma unat_plus_one: "unat x + Suc k \<le> 2 ^ 32 \<Longrightarrow> 0 < k \<Longrightarrow> unat (x + 1) = Suc (unat x)" for x :: u32
  by (subst unat_add_lt) auto

text \<open>Writing a run of bytes changes exactly those bytes.\<close>

lemma disk_byte_puts:
  assumes "unat x + length bs \<le> 2 ^ 32" and "\<And>a. unat a < N \<Longrightarrow> length (s a) = 512"
    and "unat x + length bs \<le> 512 * N"
  shows "disk_byte (disk_puts x bs s) y =
    (if unat x \<le> unat y \<and> unat y < unat x + length bs then bs ! (unat y - unat x) else disk_byte s y)"
  using assms
proof (induction bs arbitrary: x s)
  case Nil
  then show ?case by auto
next
  case (Cons b bs)
  have "unat x < 512 * N" using Cons.prems(3) by simp
  then have "unat (drop_bit 9 x) < N" by (simp add: unat_sector less_mult_imp_div_less mult.commute)
  with Cons.prems(2) have put: "disk_byte (disk_put x b s) z = (if z = x then b else disk_byte s z)" for z
    by (simp add: disk_byte_put)
  show ?case
  proof (cases "bs = []")
    case True
    then show ?thesis using put [of y] by (auto simp: word_unat_eq_iff)
  next
    case False
    then have x1: "unat (x + 1) = Suc (unat x)"
      using Cons.prems(1) by (intro unat_plus_one [of _ "length bs"]) auto
    have "disk_byte (disk_puts (x + 1) bs (disk_put x b s)) y =
        (if Suc (unat x) \<le> unat y \<and> unat y < Suc (unat x) + length bs then bs ! (unat y - Suc (unat x))
         else disk_byte (disk_put x b s) y)"
      using Cons.IH [of "x + 1" "disk_put x b s"] Cons.prems x1 by simp
    then show ?thesis using put [of y]
      by (auto simp: word_unat_eq_iff nth_Cons' Suc_diff_Suc)
  qed
qed

lemma disk_bytes_puts:
  assumes "unat x + length bs \<le> 2 ^ 32" and "\<And>a. unat a < N \<Longrightarrow> length (s a) = 512"
    and "unat x + length bs \<le> 512 * N"
  shows "disk_bytes (disk_puts x bs s) x (length bs) = bs"
proof (rule nth_equalityI)
  show "length (disk_bytes (disk_puts x bs s) x (length bs)) = length bs" by (simp add: disk_bytes_def)
  fix i assume "i < length (disk_bytes (disk_puts x bs s) x (length bs))"
  then have i: "i < length bs" by (simp add: disk_bytes_def)
  with assms(1) have "unat (of_nat i :: u32) = i" by (simp add: unsigned_of_nat take_bit_eq_mod)
  with i assms(1) have "unat (x + of_nat i) = unat x + i" by (subst unat_add_lt) auto
  with i disk_byte_puts [OF assms, where y = "x + of_nat i"] show "disk_bytes (disk_puts x bs s) x (length bs) ! i = bs ! i"
    by (simp add: disk_bytes_def)
qed

section \<open>The layer over any block device\<close>

text \<open>What a reader sees is the card, provided the read cache is the card's sector; what a writer
  sees is the card with its cached sector in place.\<close>

definition io_pending :: "io_ctx \<Rightarrow> (u32 \<Rightarrow> u8 list) \<Rightarrow> u32 \<Rightarrow> u8 list" where
  "io_pending io s = s(ucast (output_sector_addr io) := output_sector_buf io)"

text \<open>The sector number of a byte fits the 16-bit sector fields and the medium.\<close>

definition io_addr_ok :: "nat \<Rightarrow> nat \<Rightarrow> bool" where
  "io_addr_ok n e \<longleftrightarrow> e \<le> 512 * n \<and> e \<le> 512 * 65536"

lemma io_addr_sector: "unat x < e \<Longrightarrow> io_addr_ok n e \<Longrightarrow> unat (drop_bit 9 x :: u32) < n \<and> unat (drop_bit 9 x) < 65536"
  by (auto simp: io_addr_ok_def unat_sector less_mult_imp_div_less mult.commute)

lemma sector_u16: "unat (a :: u32) < 65536 \<Longrightarrow> ucast (ucast a :: u16) = a"
  by (simp add: word_unat_eq_iff unat_ucast_32_16)

definition io_ok :: "('m \<Rightarrow> bool) \<Rightarrow> ('m \<Rightarrow> u32 \<Rightarrow> u8 list) \<Rightarrow> nat \<Rightarrow> io_ctx \<Rightarrow> 'm \<Rightarrow> bool" where
  "io_ok ok sect n io m \<longleftrightarrow> ok m \<and> length (input_sector_buf io) = 512 \<and> length (output_sector_buf io) = 512 \<and>
     unat (input_sector_addr io) < n \<and> unat (output_sector_addr io) < n \<and>
     (\<forall>a. unat a < n \<longrightarrow> length (sect m a) = 512)"

text \<open>The read cache holds the card's sector; the write cache has nothing the card has not.\<close>

definition io_fresh :: "('m \<Rightarrow> u32 \<Rightarrow> u8 list) \<Rightarrow> io_ctx \<Rightarrow> 'm \<Rightarrow> bool" where
  "io_fresh sect io m \<longleftrightarrow> input_sector_buf io = sect m (ucast (input_sector_addr io))"

definition io_fresh_at :: "('m \<Rightarrow> u32 \<Rightarrow> u8 list) \<Rightarrow> io_ctx \<Rightarrow> 'm \<Rightarrow> u32 \<Rightarrow> bool" where
  "io_fresh_at sect io m a \<longleftrightarrow> (ucast (input_sector_addr io) = a \<longrightarrow> input_sector_buf io = sect m a)"

lemma io_fresh_fresh_at: "io_fresh sect io m \<Longrightarrow> io_fresh_at sect io m a"
  by (simp add: io_fresh_def io_fresh_at_def)

definition io_clean :: "('m \<Rightarrow> u32 \<Rightarrow> u8 list) \<Rightarrow> io_ctx \<Rightarrow> 'm \<Rightarrow> bool" where
  "io_clean sect io m \<longleftrightarrow> output_sector_buf io = sect m (ucast (output_sector_addr io))"

text \<open>An operation left the writer's side alone.\<close>

definition io_same_out :: "io_ctx \<Rightarrow> io_ctx \<Rightarrow> bool" where
  "io_same_out io io' \<longleftrightarrow> output_sector_addr io' = output_sector_addr io \<and> output_sector_buf io' = output_sector_buf io"

text \<open>Byte addresses of sector 65536, the first one that does not fit 16 bits.\<close>

lemma sector_65536:
  assumes "unat (k :: u32) < 512"
  shows "drop_bit 9 (0x2000000 + k) = 0x10000" and "unat (0x2000000 + k) mod 512 = unat k"
    and "drop_bit 9 k = 0" and "unat k mod 512 = unat k"
proof -
  have u: "unat (0x2000000 + k) = 33554432 + unat k" using assms by (subst unat_add_lt) auto
  have "(unat k + 512 * 65536) mod 512 = unat k" "(unat k + 512 * 65536) div 512 = 65536"
    using assms by (simp_all only: mod_mult_self2 div_mult_self2) simp_all
  moreover have "unat k + 512 * 65536 = 33554432 + unat k" by simp
  ultimately have m: "(33554432 + unat k) mod 512 = unat k" "(33554432 + unat k) div 512 = 65536"
    by (simp_all only:)
  show "unat (0x2000000 + k) mod 512 = unat k" by (simp only: u m)
  show "drop_bit 9 (0x2000000 + k) = 0x10000"
    by (simp only: word_unat_eq_iff unat_sector u m) simp
  show "drop_bit 9 k = 0" using assms by (simp only: word_unat_eq_iff unat_sector) simp
  show "unat k mod 512 = unat k" using assms by simp
qed

lemma sector_65536_u16: "(0x10000 :: u32) \<noteq> ucast (w :: u16)"
proof
  assume "(0x10000 :: u32) = ucast w"
  then have "unat (0x10000 :: u32) = unat w" by (simp only: unat_ucast_16_32)
  then have "unat w = 65536" by simp
  moreover have "unat w < 65536" by (rule unat_u16_less)
  ultimately show False by linarith
qed

context block_device
begin

lemma initialize_io_ok:
  assumes "ok m" and "0 < n" and "length (input_sector_buf io) = 512" and "length (output_sector_buf io) = 512"
    and "\<forall>a. unat a < n \<longrightarrow> length (sect m a) = 512"
  shows "\<exists>io' m'. initialize_io B io sd m = Some (0, io', m') \<and> io_ok ok sect n io' m' \<and> io_fresh sect io' m' \<and>
    io_clean sect io' m' \<and> sect m' = sect m"
proof -
  obtain m1 where m1: "blk_get B 0 (input_sector_buf io) 512 m = Some (0, sect m 0, m1)" "ok m1" "sect m1 = sect m"
    using get_full [OF assms(1), of 0] assms(2,3) by auto
  obtain m2 where m2: "blk_get B 0 (output_sector_buf io) 512 m1 = Some (0, sect m 0, m2)" "ok m2" "sect m2 = sect m"
    using get_full [OF m1(2), of 0] assms(2,4) m1(3) by auto
  show ?thesis
    using m1 m2 assms(2,5)
    by (simp add: initialize_io_def SECTOR_SIZE_def io_ok_def io_fresh_def io_clean_def)
qed

lemma io_get_byte_ok:
  assumes io: "io_ok ok sect n io m" "io_fresh_at sect io m (drop_bit 9 x)" and a: "unat x < e" "io_addr_ok n e"
  shows "\<exists>io' m'. io_get_byte B io x old m = Some (0, disk_byte (sect m) x, io', m') \<and>
    io_ok ok sect n io' m' \<and> io_fresh sect io' m' \<and> sect m' = sect m \<and>
    io_same_out io io'"
proof -
  let ?a = "drop_bit 9 x"
  have a: "unat ?a < n" "unat ?a < 65536" using io_addr_sector [OF a] by auto
  note off = sector_off [of x]
  show ?thesis
  proof (cases "?a = ucast (input_sector_addr io)")
    case True
    with io off show ?thesis
      by (simp add: io_get_byte_def disk_byte_def io_ok_def io_fresh_def io_fresh_at_def io_same_out_def Let_def)
  next
    case False
    obtain m1 where m1: "blk_get B ?a (input_sector_buf io) 512 m = Some (0, sect m ?a, m1)" "ok m1"
      "sect m1 = sect m"
      using get_full [of m ?a "input_sector_buf io"] a(1) io(1) by (auto simp: io_ok_def)
    have u: "ucast (ucast ?a :: u16) = ?a" by (rule sector_u16 [OF a(2)])
    have "unat (ucast ?a :: u16) < n" using a(1) by (simp only: unat_ucast_32_16 [OF a(2)])
    with False m1 io off a u show ?thesis
      by (auto simp: io_get_byte_def SECTOR_SIZE_def disk_byte_def io_ok_def io_fresh_def io_fresh_at_def io_same_out_def Let_def)
  qed
qed

lemma io_same_out_trans: "io_same_out a b \<Longrightarrow> io_same_out b c \<Longrightarrow> io_same_out a c"
  by (simp add: io_same_out_def)

lemma disk_bytes_Suc: "disk_bytes s x (Suc k) = disk_byte s x # disk_bytes s (x + 1) k"
  by (simp add: disk_bytes_def upt_rec [of 0] map_Suc_upt [symmetric] del: upt_Suc map_Suc_upt)
    (simp add: add.assoc)

lemma io_read_ok:
  assumes "io_ok ok sect n io m" "io_fresh sect io m" and "unat x + length buf \<le> e" "io_addr_ok n e"
  shows "\<exists>io' m'. io_read_nbytes B io buf x m = Some (0, disk_bytes (sect m) x (length buf), io', m') \<and>
    io_ok ok sect n io' m' \<and> io_fresh sect io' m' \<and> sect m' = sect m \<and> io_same_out io io'"
  using assms(1-3)
proof (induction buf arbitrary: io x m)
  case Nil
  then show ?case by (simp add: disk_bytes_def io_same_out_def)
next
  case (Cons old buf)
  have lt: "unat x < e" using Cons.prems(3) by simp
  obtain io1 m1 where g: "io_get_byte B io x old m = Some (0, disk_byte (sect m) x, io1, m1)"
    "io_ok ok sect n io1 m1" "io_fresh sect io1 m1" "sect m1 = sect m" "io_same_out io io1"
    using io_get_byte_ok [OF Cons.prems(1) io_fresh_fresh_at [OF Cons.prems(2)] lt assms(4), of old] by blast
  have "unat (x + 1) + length buf \<le> e \<or> buf = []"
    using Cons.prems(3) assms(4) unat_plus_one [of x "length buf"] by (auto simp: io_addr_ok_def)
  then consider "unat (x + 1) + length buf \<le> e" | "buf = []" by blast
  then show ?case
  proof cases
    case 1
    obtain io2 m2 where "io_read_nbytes B io1 buf (x + 1) m1 = Some (0, disk_bytes (sect m) (x + 1) (length buf), io2, m2)"
      "io_ok ok sect n io2 m2" "io_fresh sect io2 m2" "sect m2 = sect m" "io_same_out io1 io2"
      using Cons.IH [OF g(2,3) 1] g(4) by auto
    with g io_same_out_trans [OF g(5)] show ?thesis by (simp add: disk_bytes_Suc)
  next
    case 2
    with g show ?thesis by (auto simp: disk_bytes_Suc) (simp add: disk_bytes_def)
  qed
qed

text \<open>A non-empty read only needs the read cache to be right about the first sector it looks at.\<close>

lemma io_read_at:
  assumes "io_ok ok sect n io m" "io_fresh_at sect io m (drop_bit 9 x)" and "unat x + length buf \<le> e" "io_addr_ok n e"
    and "buf \<noteq> []"
  shows "\<exists>io' m'. io_read_nbytes B io buf x m = Some (0, disk_bytes (sect m) x (length buf), io', m') \<and>
    io_ok ok sect n io' m' \<and> io_fresh sect io' m' \<and> sect m' = sect m \<and> io_same_out io io'"
proof -
  obtain old bs where buf: "buf = old # bs" using assms(5) by (cases buf) auto
  have lt: "unat x < e" using assms(3) buf by simp
  obtain io1 m1 where g: "io_get_byte B io x old m = Some (0, disk_byte (sect m) x, io1, m1)"
    "io_ok ok sect n io1 m1" "io_fresh sect io1 m1" "sect m1 = sect m" "io_same_out io io1"
    using io_get_byte_ok [OF assms(1,2) lt assms(4), of old] by blast
  show ?thesis
  proof (cases "bs = []")
    case True
    with g buf show ?thesis by (auto simp: disk_bytes_Suc) (simp add: disk_bytes_def)
  next
    case False
    then have "unat (x + 1) + length bs \<le> e"
      using assms(3,4) buf unat_plus_one [of x "length bs"] by (auto simp: io_addr_ok_def)
    from io_read_ok [OF g(2,3) this assms(4)] obtain io2 m2 where
      "io_read_nbytes B io1 bs (x + 1) m1 = Some (0, disk_bytes (sect m) (x + 1) (length bs), io2, m2)"
      "io_ok ok sect n io2 m2" "io_fresh sect io2 m2" "sect m2 = sect m" "io_same_out io1 io2"
      using g(4) by auto
    with g buf io_same_out_trans [OF g(5)] show ?thesis by (simp add: disk_bytes_Suc)
  qed
qed

lemma io_flush_write_ok:
  assumes "io_ok ok sect n io m"
  shows "\<exists>m'. io_flush_write_buffer B io m = Some (0, io, m') \<and> ok m' \<and>
    sect m' = io_pending io (sect m)"
proof -
  obtain m1 where "blk_put B (ucast (output_sector_addr io)) (output_sector_buf io) 512 m = Some (0, m1)"
    "ok m1" "sect m1 = (sect m)(ucast (output_sector_addr io) := output_sector_buf io)"
    using put_sector [of m "ucast (output_sector_addr io)" "output_sector_buf io"] assms
    by (auto simp: io_ok_def)
  then show ?thesis by (simp add: io_flush_write_buffer_def SECTOR_SIZE_def io_pending_def)
qed

lemma io_flush_write_keeps:
  assumes io: "io_ok ok sect n io m" and f: "io_flush_write_buffer B io m = Some (r, io', m')"
  shows "r = 0 \<and> io' = io \<and> io_ok ok sect n io m' \<and> io_clean sect io m' \<and> sect m' = io_pending io (sect m)"
proof -
  from io_flush_write_ok [OF io] f have "r = 0" "io' = io" "ok m'" "sect m' = io_pending io (sect m)"
    by auto
  with io show ?thesis by (auto simp: io_ok_def io_clean_def io_pending_def)
qed

lemma io_flush_read_ok:
  assumes io: "io_ok ok sect n io m"
  shows "\<exists>io' m'. io_flush_read_buffer B io m = Some (0, io', m') \<and> io_ok ok sect n io' m' \<and>
    io_fresh sect io' m' \<and> sect m' = sect m \<and> io_same_out io io'"
proof -
  obtain m1 where "blk_get B (ucast (input_sector_addr io)) (input_sector_buf io) 512 m =
      Some (0, sect m (ucast (input_sector_addr io)), m1)" "ok m1" "sect m1 = sect m"
    using get_full [of m "ucast (input_sector_addr io)" "input_sector_buf io"] io
    by (auto simp: io_ok_def)
  with io show ?thesis
    by (auto simp: io_flush_read_buffer_def SECTOR_SIZE_def io_ok_def io_fresh_def io_same_out_def)
qed

lemma io_put_byte_ok:
  assumes io: "io_ok ok sect n io m" and a: "unat x < e" "io_addr_ok n e"
  shows "\<exists>io' m'. io_put_byte B junk io x b m = Some (junk io', io', m') \<and> io_ok ok sect n io' m' \<and>
    io_pending io' (sect m') = disk_put x b (io_pending io (sect m)) \<and>
    ucast (output_sector_addr io') = drop_bit 9 x"
proof -
  let ?a = "drop_bit 9 x"
  have a: "unat ?a < n" "unat ?a < 65536" using io_addr_sector [OF a] by auto
  note off = sector_off [of x]
  show ?thesis
  proof (cases "?a = ucast (output_sector_addr io)")
    case True
    with io off show ?thesis
      by (simp add: io_put_byte_def sector_div disk_put_def io_pending_def io_ok_def Let_def)
  next
    case False
    obtain m1 where m1: "io_flush_write_buffer B io m = Some (0, io, m1)" "ok m1"
      "sect m1 = io_pending io (sect m)"
      using io_flush_write_ok [OF io] by blast
    obtain m2 where m2: "blk_get B ?a (output_sector_buf io) 512 m1 = Some (0, sect m1 ?a, m2)" "ok m2"
      "sect m2 = sect m1" "length (sect m1 ?a) = 512"
      using get_full [of m1 ?a "output_sector_buf io"] a(1) m1(2) io by (auto simp: io_ok_def)
    have u: "ucast (ucast ?a :: u16) = ?a" by (rule sector_u16 [OF a(2)])
    have t: "unat (ucast ?a :: u16) < n" using a(1) by (simp only: unat_ucast_32_16 [OF a(2)])
    have len: "\<forall>c. unat c < n \<longrightarrow> length (sect m2 c) = 512"
      using io m1(3) m2(3) by (simp add: io_ok_def io_pending_def)
    define io' where "io' = io\<lparr>output_sector_addr := ucast ?a,
      output_sector_buf := (sect m1 ?a)[unat x mod 512 := b], output_byte_addr := ucast (?a + x mod ucast SECTOR_SIZE)\<rparr>"
    have "io_put_byte B junk io x b m = Some (junk io', io', m2)"
      using False m1(1) m2(1) off by (simp add: io_put_byte_def sector_div Let_def io'_def)
    moreover have "io_ok ok sect n io' m2" using io m2(2,4) t len by (simp add: io_ok_def io'_def)
    moreover have "io_pending io' (sect m2) = disk_put x b (io_pending io (sect m))"
      using m1(3) m2(3) u by (simp add: io_pending_def disk_put_def io'_def)
    ultimately show ?thesis using u by (auto simp: io'_def)
  qed
qed

lemma io_write_ok:
  assumes "io_ok ok sect n io m" and "unat x + length bs \<le> e" "io_addr_ok n e" and junk: "\<forall>s. 0 \<le> junk s"
  shows "\<exists>io' m'. io_write_nbytes B junk io bs x m = Some (0, io', m') \<and> io_ok ok sect n io' m' \<and>
    io_pending io' (sect m') = disk_puts x bs (io_pending io (sect m)) \<and>
    (bs \<noteq> [] \<longrightarrow> ucast (output_sector_addr io') = drop_bit 9 (x + of_nat (length bs - 1)))"
  using assms(1,2)
proof (induction bs arbitrary: io x m)
  case Nil
  then show ?case by simp
next
  case (Cons b bs)
  have lt: "unat x < e" using Cons.prems(2) by simp
  obtain io1 m1 where p: "io_put_byte B junk io x b m = Some (junk io1, io1, m1)" "io_ok ok sect n io1 m1"
    "io_pending io1 (sect m1) = disk_put x b (io_pending io (sect m))" "ucast (output_sector_addr io1) = drop_bit 9 x"
    using io_put_byte_ok [OF Cons.prems(1) lt assms(3), of junk b] by blast
  have j: "\<not> junk io1 < 0" using junk by (simp add: not_less)
  show ?case
  proof (cases "bs = []")
    case True
    with p j show ?thesis by simp
  next
    case False
    then have "unat (x + 1) + length bs \<le> e"
      using Cons.prems(2) assms(3) unat_plus_one [of x "length bs"] by (auto simp: io_addr_ok_def)
    from Cons.IH [OF p(2) this] False obtain io2 m2 where
      w: "io_write_nbytes B junk io1 bs (x + 1) m1 = Some (0, io2, m2)" "io_ok ok sect n io2 m2"
      "io_pending io2 (sect m2) = disk_puts (x + 1) bs (io_pending io1 (sect m1))"
      "ucast (output_sector_addr io2) = drop_bit 9 (x + 1 + of_nat (length bs - 1))"
      by auto
    have "x + 1 + of_nat (length bs - 1) = x + of_nat (length bs)"
      using False by (cases bs) auto
    with w(4) have "ucast (output_sector_addr io2) = drop_bit 9 (x + of_nat (length bs))" by (simp only:)
    with w(1-3) p j show ?thesis by simp
  qed
qed

text \<open>Bytes written, flushed and read back through the refreshed read cache.\<close>

lemma io_roundtrip_ok:
  assumes io: "io_ok ok sect n io m" and e: "unat x + length bs \<le> e" "io_addr_ok n e"
    and junk: "\<forall>s. 0 \<le> junk s" and buf: "length buf = length bs"
  shows "\<exists>io1 m1 m2 io3 m3 io4 m4. io_write_nbytes B junk io bs x m = Some (0, io1, m1) \<and>
    io_flush_write_buffer B io1 m1 = Some (0, io1, m2) \<and>
    sect m2 = disk_puts x bs (io_pending io (sect m)) \<and>
    io_flush_read_buffer B io1 m2 = Some (0, io3, m3) \<and>
    io_read_nbytes B io3 buf x m3 = Some (0, bs, io4, m4)"
proof -
  obtain io1 m1 where w: "io_write_nbytes B junk io bs x m = Some (0, io1, m1)" "io_ok ok sect n io1 m1"
    "io_pending io1 (sect m1) = disk_puts x bs (io_pending io (sect m))"
    using io_write_ok [OF io e junk] by blast
  obtain m2 where f: "io_flush_write_buffer B io1 m1 = Some (0, io1, m2)"
    using io_flush_write_ok [OF w(2)] by blast
  from io_flush_write_keeps [OF w(2) f] w(3) have f2: "io_ok ok sect n io1 m2"
    "sect m2 = disk_puts x bs (io_pending io (sect m))" by simp_all
  obtain io3 m3 where g: "io_flush_read_buffer B io1 m2 = Some (0, io3, m3)" "io_ok ok sect n io3 m3"
    "io_fresh sect io3 m3" "sect m3 = sect m2"
    using io_flush_read_ok [OF f2(1)] by blast
  have "unat x + length buf \<le> e" using e(1) buf by simp
  from io_read_ok [OF g(2,3) this e(2)] obtain io4 m4 where
    r: "io_read_nbytes B io3 buf x m3 = Some (0, disk_bytes (sect m3) x (length buf), io4, m4)" by blast
  have "disk_bytes (disk_puts x bs (io_pending io (sect m))) x (length bs) = bs"
  proof (rule disk_bytes_puts)
    show "unat x + length bs \<le> 2 ^ 32" "unat x + length bs \<le> 512 * n"
      using e by (auto simp: io_addr_ok_def)
    show "length (io_pending io (sect m) a) = 512" if "unat a < n" for a
      using io that by (simp add: io_pending_def io_ok_def)
  qed
  with w(1) f f2(2) g(1,4) r buf show ?thesis by auto
qed

text \<open>Sector numbers of 65536 and above do not fit the 16-bit fields.\<close>

lemma io_read_alias:
  assumes io: "io_ok ok sect n io m" and n: "65536 < n" and k: "unat k < 512" "unat k' < 512"
  shows "\<exists>io1 m1 io2 m2. io_get_byte B io (0x2000000 + k) old m = Some (0, disk_byte (sect m) (0x2000000 + k), io1, m1) \<and>
    io_get_byte B io1 k' old' m1 = Some (0, disk_byte (sect m) (0x2000000 + k'), io2, m2)"
proof -
  note k1 = sector_65536 [OF k(1)] and k2 = sector_65536 [OF k(2)] and ne = sector_65536_u16
  obtain m1 where m1: "blk_get B 0x10000 (input_sector_buf io) 512 m = Some (0, sect m 0x10000, m1)"
    using get_full [of m "0x10000" "input_sector_buf io"] n io by (auto simp: io_ok_def)
  have c0: "(0x10000 :: u16) = 0" by (simp only: word_unat_eq_iff) simp
  define io1 where "io1 = io\<lparr>input_sector_buf := sect m 0x10000, input_sector_addr := 0,
    input_byte_addr := ucast ((0x10000 :: u32) + (0x2000000 + k) mod ucast SECTOR_SIZE)\<rparr>"
  have "io_get_byte B io (0x2000000 + k) old m = Some (0, disk_byte (sect m) (0x2000000 + k), io1, m1)"
    using sector_off [of "0x2000000 + k"] ne k1 m1 c0
    by (simp add: io_get_byte_def io1_def disk_byte_def SECTOR_SIZE_def Let_def)
  moreover have "\<exists>io2. io_get_byte B io1 k' old' m1 = Some (0, disk_byte (sect m) (0x2000000 + k'), io2, m1)"
    using sector_off [of k'] k2
    by (simp add: io_get_byte_def io1_def disk_byte_def Let_def)
  ultimately show ?thesis by blast
qed

lemma io_write_alias:
  assumes io: "io_ok ok sect n io m" and n: "65536 < n" and k: "unat k < 512"
  shows "\<exists>io1 m1 m2. io_put_byte B junk io (0x2000000 + k) b m = Some (junk io1, io1, m1) \<and>
    io_flush_write_buffer B io1 m1 = Some (0, io1, m2) \<and>
    sect m2 = (io_pending io (sect m))(0 := (sect m 0x10000)[unat k := b])"
proof -
  note k1 = sector_65536 [OF k] and ne = sector_65536_u16
  obtain m1 where m1: "io_flush_write_buffer B io m = Some (0, io, m1)" "ok m1" "sect m1 = io_pending io (sect m)"
    using io_flush_write_ok [OF io] by blast
  obtain m2 where m2: "blk_get B 0x10000 (output_sector_buf io) 512 m1 = Some (0, sect m1 0x10000, m2)" "ok m2"
    "sect m2 = sect m1" "length (sect m1 0x10000) = 512"
    using get_full [of m1 "0x10000" "output_sector_buf io"] n m1(2) io by (auto simp: io_ok_def)
  have p: "sect m1 0x10000 = sect m 0x10000" using m1(3) ne by (simp add: io_pending_def)
  have c0: "(0x10000 :: u16) = 0" by (simp only: word_unat_eq_iff) simp
  define io1 where "io1 = io\<lparr>output_sector_addr := 0, output_sector_buf := (sect m 0x10000)[unat k := b],
    output_byte_addr := ucast ((0x10000 :: u32) + (0x2000000 + k) mod ucast SECTOR_SIZE)\<rparr>"
  have put: "io_put_byte B junk io (0x2000000 + k) b m = Some (junk io1, io1, m2)"
    using sector_off [of "0x2000000 + k"] ne k1 m1(1) m2(1) p
    by (simp add: io_put_byte_def sector_div c0 io1_def SECTOR_SIZE_def Let_def)
  have "\<forall>c. unat c < n \<longrightarrow> length (sect m2 c) = 512"
    using io m1(3) m2(3) by (simp add: io_ok_def io_pending_def)
  then have "io_ok ok sect n io1 m2" using io m2(2) n by (simp add: io_ok_def io1_def)
  from io_flush_write_ok [OF this] obtain m3 where
    "io_flush_write_buffer B io1 m2 = Some (0, io1, m3)" "sect m3 = io_pending io1 (sect m2)" by blast
  with put m1(3) m2(3) show ?thesis by (auto simp: io_pending_def io1_def)
qed

lemma io_write_junk:
  assumes io: "io_ok ok sect n io m" and a: "unat x < e" "io_addr_ok n e" and junk: "\<forall>s. junk s < 0"
  shows "\<exists>io' m'. io_write_nbytes B junk io (b # bs) x m = Some (- 1, io', m') \<and>
    io_pending io' (sect m') = disk_put x b (io_pending io (sect m))"
  using io_put_byte_ok [OF io a, of junk b] junk by auto

end

section \<open>Properties of the layer over the SD card driver\<close>

definition io_sd_ok :: "('c \<Rightarrow> 'x card_scheme) \<Rightarrow> nat \<Rightarrow> 'c spi_bus \<Rightarrow> io_ctx \<Rightarrow> 'c mcu \<Rightarrow> bool" where
  "io_sd_ok V n bus = io_ok (sd_ok V n bus) (sd_sectors V) n"

definition io_zero :: io_ctx where
  "io_zero = \<lparr>input_sector_addr = 0, input_byte_addr = 0, input_sector_buf = replicate 512 0, input_sector_crc = 0,
    output_sector_addr = 0, output_byte_addr = 0, output_sector_buf = replicate 512 0, output_sector_crc = 0,
    io_sd = \<lparr>sd_type = 2, sd_status = 0, sd_sector_size = 512\<rparr>\<rparr>"

lemma sim_sectors: "sd_sectors sim_view sim_mcu = (\<lambda>_. replicate 512 0)"
  by (rule ext) (simp add: sd_sectors_def sim_view_def sim_sect_def sim_mcu_def)

lemma io_zero_ok: "0 < n \<Longrightarrow> io_sd_ok sim_view n sim_bus io_zero sim_mcu"
  by (simp add: io_sd_ok_def io_ok_def sim_mcu_ok io_zero_def sim_sectors)

lemma io_zero_fresh: "io_fresh (sd_sectors sim_view) io_zero sim_mcu"
  by (simp add: io_fresh_def io_zero_def sim_sectors)

text \<open>C23. Reading bytes: for a run of bytes that ends below sector 65536 and below the end of the card,
  \<open>io_read_nbytes\<close> returns 0 and the bytes of the card, whatever sectors the run crosses, provided
  the read cache was in step with the card; it then still is, and neither the card nor the write
  cache has changed.\<close>

theorem io_read_correct:
  assumes "io_sd_ok V n bus io m" and "io_fresh (sd_sectors V) io m"
    and "unat x + length buf \<le> e" and "io_addr_ok n e"
  shows "\<exists>io' m'. io_read_nbytes (sd_ops bus) io buf x m =
      Some (0, disk_bytes (sd_sectors V m) x (length buf), io', m') \<and>
    io_sd_ok V n bus io' m' \<and> io_fresh (sd_sectors V) io' m' \<and> sd_sectors V m' = sd_sectors V m \<and>
    io_same_out io io'"
  using sd_blk.io_read_ok [OF _ assms(2-4)] assms(1) unfolding io_sd_ok_def by blast

theorem io_read_correct_witness:
  "\<exists>io' m'. io_read_nbytes (sd_ops sim_bus) io_zero [7, 7, 7, 7] 510 sim_mcu = Some (0, [0, 0, 0, 0], io', m')"
proof -
  have "io_addr_ok 100 514" by (simp add: io_addr_ok_def)
  from io_read_correct [OF io_zero_ok io_zero_fresh, of 100 510 "[7, 7, 7, 7]" 514, OF _ _ this]
  obtain io' m' where "io_read_nbytes (sd_ops sim_bus) io_zero [7, 7, 7, 7] 510 sim_mcu =
      Some (0, disk_bytes (\<lambda>_. replicate 512 0) 510 (length [7, 7, 7, 7 :: u8]), io', m')"
    unfolding sim_sectors by auto
  moreover have "disk_bytes (\<lambda>_. replicate 512 0) 510 (length [7, 7, 7, 7 :: u8]) = [0, 0, 0, 0]"
    by (simp add: disk_bytes_def disk_byte_def upt_rec)
  ultimately show ?thesis by metis
qed

text \<open>C7. Writing bytes, with a return register that reads as no error: the writer's view of the card
  (the card with the cached sector in place) afterwards is the old view with exactly those bytes
  replaced, and a flush makes the card equal to the view.\<close>

theorem io_write_refines:
  assumes "io_sd_ok V n bus io m" and "unat x + length bs \<le> e" and "io_addr_ok n e" and "\<forall>s. 0 \<le> junk s"
  shows "\<exists>io' m'. io_write_nbytes (sd_ops bus) junk io bs x m = Some (0, io', m') \<and> io_sd_ok V n bus io' m' \<and>
    io_pending io' (sd_sectors V m') = disk_puts x bs (io_pending io (sd_sectors V m)) \<and>
    (\<exists>m''. io_flush_write_buffer (sd_ops bus) io' m' = Some (0, io', m'') \<and>
       sd_sectors V m'' = disk_puts x bs (io_pending io (sd_sectors V m)) \<and>
       io_clean (sd_sectors V) io' m'')"
proof -
  have io: "io_ok (sd_ok V n bus) (sd_sectors V) n io m" using assms(1) by (simp add: io_sd_ok_def)
  obtain io' m' where w: "io_write_nbytes (sd_ops bus) junk io bs x m = Some (0, io', m')"
    "io_ok (sd_ok V n bus) (sd_sectors V) n io' m'"
    "io_pending io' (sd_sectors V m') = disk_puts x bs (io_pending io (sd_sectors V m))"
    using sd_blk.io_write_ok [OF io assms(2-4)] by blast
  obtain m'' where "io_flush_write_buffer (sd_ops bus) io' m' = Some (0, io', m'')"
    using sd_blk.io_flush_write_ok [OF w(2)] by blast
  with w sd_blk.io_flush_write_keeps [OF w(2) this] show ?thesis by (auto simp: io_sd_ok_def)
qed

theorem io_write_refines_witness:
  "\<exists>io' m' m''. io_write_nbytes (sd_ops sim_bus) (\<lambda>_. 0) io_zero [1, 2] 1023 sim_mcu = Some (0, io', m') \<and>
    io_flush_write_buffer (sd_ops sim_bus) io' m' = Some (0, io', m'') \<and>
    sd_sectors sim_view m'' 2 ! 0 = 2 \<and> sd_sectors sim_view m'' 1 ! 511 = 1"
proof -
  have a: "io_addr_ok 100 1025" by (simp add: io_addr_ok_def)
  from io_write_refines [OF io_zero_ok, of 100 1023 "[1, 2]" 1025 "\<lambda>_. 0", OF _ _ a]
  obtain io' m' m'' where r: "io_write_nbytes (sd_ops sim_bus) (\<lambda>_. 0) io_zero [1, 2] 1023 sim_mcu = Some (0, io', m')"
    "io_flush_write_buffer (sd_ops sim_bus) io' m' = Some (0, io', m'')"
    "sd_sectors sim_view m'' = disk_puts 1023 [1, 2] (io_pending io_zero (\<lambda>_. replicate 512 0))"
    by (auto simp: sim_sectors)
  have "disk_puts 1023 [1, 2] (io_pending io_zero (\<lambda>_. replicate 512 0)) 2 ! 0 = 2 \<and>
      disk_puts 1023 [1, 2] (io_pending io_zero (\<lambda>_. replicate 512 0)) 1 ! 511 = 1"
    by (simp add: disk_put_def io_pending_def io_zero_def)
  with r show ?thesis by auto
qed

text \<open>C24. Round trip: bytes written, flushed, and read back after refreshing the read cache are the
  bytes written, when they lie on the card inside its first 65536 sectors and the undefined results of the byte
  writes are not negative.\<close>

theorem io_roundtrip:
  assumes "io_sd_ok V n bus io m" and "unat x + length bs \<le> e" and "io_addr_ok n e"
    and "\<forall>s. 0 \<le> junk s" and "length buf = length bs"
  shows "\<exists>io1 m1 m2 io3 m3 io4 m4. io_write_nbytes (sd_ops bus) junk io bs x m = Some (0, io1, m1) \<and>
    io_flush_write_buffer (sd_ops bus) io1 m1 = Some (0, io1, m2) \<and>
    io_flush_read_buffer (sd_ops bus) io1 m2 = Some (0, io3, m3) \<and>
    io_read_nbytes (sd_ops bus) io3 buf x m3 = Some (0, bs, io4, m4)"
  using sd_blk.io_roundtrip_ok [OF _ assms(2-5)] assms(1) unfolding io_sd_ok_def by blast

theorem io_roundtrip_witness:
  "\<exists>io1 m1 m2 io3 m3 io4 m4. io_write_nbytes (sd_ops sim_bus) (\<lambda>_. 0) io_zero [1, 2, 3] 511 sim_mcu = Some (0, io1, m1) \<and>
    io_flush_write_buffer (sd_ops sim_bus) io1 m1 = Some (0, io1, m2) \<and>
    io_flush_read_buffer (sd_ops sim_bus) io1 m2 = Some (0, io3, m3) \<and>
    io_read_nbytes (sd_ops sim_bus) io3 [0, 0, 0] 511 m3 = Some (0, [1, 2, 3], io4, m4)"
proof -
  have a: "io_addr_ok 100 514" by (simp add: io_addr_ok_def)
  show ?thesis
    by (rule io_roundtrip [OF io_zero_ok, of 100 511 "[1, 2, 3]" 514 "\<lambda>_. 0" "[0, 0, 0]", OF _ _ a]) simp_all
qed

text \<open>C39. The sector fields of \<open>io_ctx\<close> have 16 bits, so on a card of more than 65536 sectors (32 MiB)
  sector 65536 and sector 0 are confused: after a byte of sector 65536 was read, reads in sector 0
  return the bytes of sector 65536; and a byte put in sector 65536 is written, with the rest of that
  sector, over sector 0 by the next flush, sector 65536 itself keeping its old contents.\<close>

theorem io_sector_aliasing:
  assumes "io_sd_ok V n bus io m" and "65536 < n" and "unat k < 512" and "unat k' < 512"
  shows "(\<exists>io1 m1 io2 m2. io_get_byte (sd_ops bus) io (0x2000000 + k) old m =
        Some (0, disk_byte (sd_sectors V m) (0x2000000 + k), io1, m1) \<and>
      io_get_byte (sd_ops bus) io1 k' old' m1 = Some (0, disk_byte (sd_sectors V m) (0x2000000 + k'), io2, m2)) \<and>
    (\<exists>io1 m1 m2. io_put_byte (sd_ops bus) junk io (0x2000000 + k) b m = Some (junk io1, io1, m1) \<and>
      io_flush_write_buffer (sd_ops bus) io1 m1 = Some (0, io1, m2) \<and>
      sd_sectors V m2 = (io_pending io (sd_sectors V m))(0 := (sd_sectors V m 0x10000)[unat k := b]))"
  using sd_blk.io_read_alias [OF _ assms(2-4)] sd_blk.io_write_alias [OF _ assms(2,3)] assms(1)
  unfolding io_sd_ok_def by blast

theorem io_sector_aliasing_witness:
  "\<exists>io1 m1 m2. io_put_byte (sd_ops sim_bus) (\<lambda>_. 0) io_zero 0x2000000 9 sim_mcu = Some (0, io1, m1) \<and>
    io_flush_write_buffer (sd_ops sim_bus) io1 m1 = Some (0, io1, m2) \<and>
    sd_sectors sim_view m2 0 ! 0 = 9 \<and> sd_sectors sim_view m2 0x10000 ! 0 = 0"
proof -
  have p: "io_pending io_zero (\<lambda>_. replicate 512 0) = (\<lambda>_. replicate 512 0)"
    by (rule ext) (simp add: io_pending_def io_zero_def)
  from io_sector_aliasing [OF io_zero_ok, of 65537 0 0 _ _ "\<lambda>_. 0" 9]
  show ?thesis by (fastforce simp: sim_sectors p)
qed

text \<open>\<open>io_put_byte\<close> has no return statement on its success path. If what the caller finds in the
  return register is negative, \<open>io_write_nbytes\<close> stops after its first byte and reports failure
  although that byte was stored.\<close>

theorem io_put_byte_missing_return:
  assumes "io_sd_ok V n bus io m" and "unat x < e" and "io_addr_ok n e" and "\<forall>s. junk s < 0"
  shows "\<exists>io' m'. io_write_nbytes (sd_ops bus) junk io (b # bs) x m = Some (- 1, io', m') \<and>
    io_pending io' (sd_sectors V m') = disk_put x b (io_pending io (sd_sectors V m))"
  using sd_blk.io_write_junk [OF _ assms(2-4)] assms(1) unfolding io_sd_ok_def by blast

theorem io_put_byte_missing_return_witness:
  "\<exists>io' m'. io_write_nbytes (sd_ops sim_bus) (\<lambda>_. - 1) io_zero [1, 2] 0 sim_mcu = Some (- 1, io', m')"
proof -
  have a: "io_addr_ok 100 1" by (simp add: io_addr_ok_def)
  from io_put_byte_missing_return [OF io_zero_ok, of 100 0 1 "\<lambda>_. - 1" 1 "[2]", OF _ _ a]
  show ?thesis by auto
qed

end
