(* ===== verification/Fat_Data.thy ===== *)
theory Fat_Data
  imports Prelude
begin

text \<open>
  The on-disk structures of src/include/fat.h (packed, little endian) as records, with the decoding
  the code does by reading the bytes of a structure into a variable of its type, and the encoding it
  does by writing the variable out. The FAT16 structures are declared and never used.
\<close>

section \<open>Fields of a packed structure\<close>

definition slice :: "nat \<Rightarrow> nat \<Rightarrow> 'a list \<Rightarrow> 'a list" where
  "slice off n bs = take n (drop off bs)"

definition rd16 :: "u8 list \<Rightarrow> nat \<Rightarrow> u16" where
  "rd16 bs off = le16 (bs ! off) (bs ! (off + 1))"

definition rd32 :: "u8 list \<Rightarrow> nat \<Rightarrow> u32" where
  "rd32 bs off = le32 (bs ! off) (bs ! (off + 1)) (bs ! (off + 2)) (bs ! (off + 3))"

lemma length_slice [simp]: "off + n \<le> length bs \<Longrightarrow> length (slice off n bs) = n"
  by (simp add: slice_def)

section \<open>struct PartitionTable\<close>

record PartitionTable =
  boot_byte :: u8
  start_chs :: "u8 list"
  pt_partition_type :: u8
  end_chs :: "u8 list"
  pt_start_sector :: u32
  pt_length_sectors :: u32

definition partition_of :: "u8 list \<Rightarrow> PartitionTable" where
  "partition_of bs =
    \<lparr>boot_byte = bs ! 0, start_chs = slice 1 3 bs, pt_partition_type = bs ! 4, end_chs = slice 5 3 bs,
     pt_start_sector = rd32 bs 8, pt_length_sectors = rd32 bs 12\<rparr>"

section \<open>struct FAT32BootSector\<close>

record FAT32BootSector =
  bs_jmp :: "u8 list"
  bs_oem :: "u8 list"
  bs_sector_size :: u16
  bs_sectors_per_cluster :: u8
  bs_reserved_sectors :: u16
  bs_number_of_fats :: u8
  bs_root_dir_entries :: u16
  bs_total_sectors_16 :: u16
  bs_media_descriptor :: u8
  bs_sectors_per_fat_lt32 :: u16
  bs_sectors_per_track :: u16
  bs_number_of_heads :: u16
  bs_hidden_sectors :: u32
  bs_total_sectors_32 :: u32
  bs_sectors_per_fat_32 :: u32
  bs_fat_flags :: u16
  bs_fs_version_number :: u16
  bs_cluster_number_root_dir :: u32
  bs_sector_number_fsinfo :: u16
  bs_sector_number_backup :: u16
  bs_reserved :: "u8 list"
  bs_drive_number :: u8
  bs_current_head :: u8
  bs_boot_signature :: u8
  bs_volume_id :: u32
  bs_volume_label :: "u8 list"
  bs_fs_type :: "u8 list"
  bs_boot_code :: "u8 list"
  bs_boot_sector_signature :: u16

definition boot_sector_of :: "u8 list \<Rightarrow> FAT32BootSector" where
  "boot_sector_of bs =
    \<lparr>bs_jmp = slice 0 3 bs, bs_oem = slice 3 8 bs, bs_sector_size = rd16 bs 11,
     bs_sectors_per_cluster = bs ! 13, bs_reserved_sectors = rd16 bs 14, bs_number_of_fats = bs ! 16,
     bs_root_dir_entries = rd16 bs 17, bs_total_sectors_16 = rd16 bs 19, bs_media_descriptor = bs ! 21,
     bs_sectors_per_fat_lt32 = rd16 bs 22, bs_sectors_per_track = rd16 bs 24, bs_number_of_heads = rd16 bs 26,
     bs_hidden_sectors = rd32 bs 28, bs_total_sectors_32 = rd32 bs 32, bs_sectors_per_fat_32 = rd32 bs 36,
     bs_fat_flags = rd16 bs 40, bs_fs_version_number = rd16 bs 42, bs_cluster_number_root_dir = rd32 bs 44,
     bs_sector_number_fsinfo = rd16 bs 48, bs_sector_number_backup = rd16 bs 50, bs_reserved = slice 52 12 bs,
     bs_drive_number = bs ! 64, bs_current_head = bs ! 65, bs_boot_signature = bs ! 66, bs_volume_id = rd32 bs 67,
     bs_volume_label = slice 71 11 bs, bs_fs_type = slice 82 8 bs, bs_boot_code = slice 90 420 bs,
     bs_boot_sector_signature = rd16 bs 510\<rparr>"

section \<open>struct FAT32Entry\<close>

definition FILENAME_NEVER_USED :: u8 where "FILENAME_NEVER_USED = 0"
definition FILENAME_FILE_DELETED :: u8 where "FILENAME_FILE_DELETED = 0xE5"
definition FILENAME_FIRST_CHAR_E5 :: u8 where "FILENAME_FIRST_CHAR_E5 = 0x05"

record FAT32Entry =
  e_filename :: "u8 list"
  e_filename_ext :: "u8 list"
  e_file_attr :: u8
  e_reserved :: u8
  e_date_time_creat :: "u8 list"
  e_accessed_date :: u16
  e_first_cluster_addr_high :: u16
  e_time_last_modified :: u16
  e_date_last_modified :: u16
  e_first_cluster_addr_low :: u16
  e_file_size :: u32

definition entry_of :: "u8 list \<Rightarrow> FAT32Entry" where
  "entry_of bs =
    \<lparr>e_filename = slice 0 8 bs, e_filename_ext = slice 8 3 bs, e_file_attr = bs ! 11, e_reserved = bs ! 12,
     e_date_time_creat = slice 13 5 bs, e_accessed_date = rd16 bs 18, e_first_cluster_addr_high = rd16 bs 20,
     e_time_last_modified = rd16 bs 22, e_date_last_modified = rd16 bs 24,
     e_first_cluster_addr_low = rd16 bs 26, e_file_size = rd32 bs 28\<rparr>"

definition entry_bytes :: "FAT32Entry \<Rightarrow> u8 list" where
  "entry_bytes e =
    e_filename e @ e_filename_ext e @ [e_file_attr e] @ [e_reserved e] @ e_date_time_creat e @
    bytes16 (e_accessed_date e) @ bytes16 (e_first_cluster_addr_high e) @ bytes16 (e_time_last_modified e) @
    bytes16 (e_date_last_modified e) @ bytes16 (e_first_cluster_addr_low e) @ bytes32 (e_file_size e)"

text \<open>The array fields have their declared lengths.\<close>

definition entry_wf :: "FAT32Entry \<Rightarrow> bool" where
  "entry_wf e \<longleftrightarrow> length (e_filename e) = 8 \<and> length (e_filename_ext e) = 3 \<and> length (e_date_time_creat e) = 5"

lemma length_entry_bytes: "entry_wf e \<Longrightarrow> length (entry_bytes e) = 32"
  by (simp add: entry_bytes_def entry_wf_def)

lemma entry_of_wf: "length bs = 32 \<Longrightarrow> entry_wf (entry_of bs)"
  by (simp add: entry_wf_def entry_of_def)

lemma rd16_app: "length xs = off \<Longrightarrow> rd16 (xs @ bytes16 w @ ys) off = w"
  by (simp add: rd16_def bytes16_def nth_append le_simps)

lemma rd32_app: "length xs = off \<Longrightarrow> rd32 (xs @ bytes32 w @ ys) off = w"
  by (simp add: rd32_def bytes32_def nth_append le_simps)

lemma entry_of_bytes:
  assumes "entry_wf e" shows "entry_of (entry_bytes e) = e"
proof -
  let ?n = "e_filename e" and ?x = "e_filename_ext e" and ?d = "e_date_time_creat e"
  let ?w1 = "e_accessed_date e" and ?w2 = "e_first_cluster_addr_high e" and ?w3 = "e_time_last_modified e"
  let ?w4 = "e_date_last_modified e" and ?w5 = "e_first_cluster_addr_low e" and ?w6 = "e_file_size e"
  let ?h = "?n @ ?x @ [e_file_attr e] @ [e_reserved e] @ ?d"
  have l: "length ?n = 8" "length ?x = 3" "length ?d = 5" using assms by (simp_all add: entry_wf_def)
  have "rd16 (entry_bytes e) 18 = ?w1" "rd16 (entry_bytes e) 20 = ?w2" "rd16 (entry_bytes e) 22 = ?w3"
    "rd16 (entry_bytes e) 24 = ?w4" "rd16 (entry_bytes e) 26 = ?w5" "rd32 (entry_bytes e) 28 = ?w6"
    using l rd16_app [of ?h 18 ?w1] rd16_app [of "?h @ bytes16 ?w1" 20 ?w2]
      rd16_app [of "?h @ bytes16 ?w1 @ bytes16 ?w2" 22 ?w3]
      rd16_app [of "?h @ bytes16 ?w1 @ bytes16 ?w2 @ bytes16 ?w3" 24 ?w4]
      rd16_app [of "?h @ bytes16 ?w1 @ bytes16 ?w2 @ bytes16 ?w3 @ bytes16 ?w4" 26 ?w5]
      rd32_app [of "?h @ bytes16 ?w1 @ bytes16 ?w2 @ bytes16 ?w3 @ bytes16 ?w4 @ bytes16 ?w5" 28 ?w6 "[]"]
    by (simp_all add: entry_bytes_def)
  moreover have "slice 0 8 (entry_bytes e) = ?n" "slice 8 3 (entry_bytes e) = ?x"
    "entry_bytes e ! 11 = e_file_attr e" "entry_bytes e ! 12 = e_reserved e" "slice 13 5 (entry_bytes e) = ?d"
    using l by (simp_all add: entry_bytes_def slice_def nth_append)
  ultimately show ?thesis by (simp add: entry_of_def)
qed

section \<open>C string functions on byte buffers\<close>

text \<open>\<open>strncpy(dst, src, n)\<close>: the destination's first \<open>n\<close> bytes.\<close>

definition c_strncpy :: "nat \<Rightarrow> u8 list \<Rightarrow> u8 list" where
  "c_strncpy n src = (let s = takeWhile (\<lambda>b. b \<noteq> 0) (take n src) in s @ replicate (n - length s) 0)"

text \<open>\<open>!strncmp(a, b, n)\<close>.\<close>

definition c_strncmp_eq :: "nat \<Rightarrow> u8 list \<Rightarrow> u8 list \<Rightarrow> bool" where
  "c_strncmp_eq n a b \<longleftrightarrow> takeWhile (\<lambda>c. c \<noteq> 0) (take n a) = takeWhile (\<lambda>c. c \<noteq> 0) (take n b)"

lemma length_c_strncpy [simp]: "length (c_strncpy n src) = n"
proof -
  have "length (takeWhile (\<lambda>b. b \<noteq> 0) (take n src)) \<le> n"
    using length_takeWhile_le [of "\<lambda>b. b \<noteq> 0" "take n src"] by simp
  then show ?thesis by (simp add: c_strncpy_def Let_def)
qed

lemma c_strncpy_id: "0 \<notin> set (take n src) \<Longrightarrow> n \<le> length src \<Longrightarrow> c_strncpy n src = take n src"
proof -
  assume z: "0 \<notin> set (take n src)" and "n \<le> length src"
  then have tw: "takeWhile (\<lambda>b. b \<noteq> 0) (take n src) = take n src" by (auto simp: takeWhile_eq_all_conv)
  show ?thesis using \<open>n \<le> length src\<close> by (simp only: c_strncpy_def Let_def tw) simp
qed

lemma c_strncmp_copy: "c_strncmp_eq n (c_strncpy n src) src"
proof -
  let ?s = "takeWhile (\<lambda>b. b \<noteq> 0) (take n src)"
  have "length ?s \<le> n" using length_takeWhile_le [of "\<lambda>b. b \<noteq> 0" "take n src"] by simp
  then have "take n (?s @ replicate (n - length ?s) 0) = ?s @ replicate (n - length ?s) 0" by simp
  moreover have "takeWhile (\<lambda>b. b \<noteq> 0) (?s @ replicate (n - length ?s) 0) = ?s"
    by (subst takeWhile_append2) (auto dest: set_takeWhileD)
  ultimately show ?thesis by (simp add: c_strncmp_eq_def c_strncpy_def Let_def)
qed

end
