(* ===== verification/Fat.thy ===== *)
theory Fat
  imports Io Fat_Data
begin

text \<open>
  src/fat.c over the byte layer of \<open>Io\<close>: the definitions, in the order of the file. The linked lists
  of the code are HOL lists here (\<open>Linked_List\<close> shows that the list operations refine them): the
  cluster list of a file and the cached directory entries. So a \<open>list_push_tail\<close> is an append here, and that
  its unchecked \<open>malloc\<close> succeeds is taken for granted. The \<open>io\<close> pointer of the context is the
  one \<open>io_ctx\<close> of the program, passed along with the machine. Variables the code leaves
  uninitialised are parameters.
\<close>

section \<open>Contexts\<close>

definition PARTITION_TABLE_OFFSET :: u32 where "PARTITION_TABLE_OFFSET = 0x1BE"
definition PARTITION_TABLE_ENTRIES :: nat where "PARTITION_TABLE_ENTRIES = 4"
definition SECTOR_SIZE_BYTES :: u32 where "SECTOR_SIZE_BYTES = 512"
definition PARTITION_TYPE_FAT32_LT2G :: u8 where "PARTITION_TYPE_FAT32_LT2G = 11"
definition PARTITION_TYPE_FAT32_LBA :: u8 where "PARTITION_TYPE_FAT32_LBA = 12"

record fat32_file =
  file_name :: "u8 list"
  file_ext :: "u8 list"
  file_size :: u32
  start_byte_offset :: u32
  current_byte_offset :: u32
  root_dir_offset :: u32
  current_cluster :: u32
  first_cluster :: u32
  current_sector :: u32
  f_sectors_per_cluster :: u32
  fat_list :: "u32 list"

record fat32_ctx =
  partition_type :: u8
  start_sector :: u32
  length_sectors :: u32
  reserved_sectors :: u16
  number_of_fats :: u8
  sectors_per_fat_32 :: u32
  sectors_per_cluster :: u8
  cluster_number_root_dir :: u32
  cluster_begin_sector :: u32
  root_dir_sector :: u32
  fat_begin_sector :: u32
  root_dir_entries :: "fat32_file list"

section \<open>Addresses and the context\<close>

definition fat32_calc_first_cluster :: "u16 \<Rightarrow> u16 \<Rightarrow> u32" where
  "fat32_calc_first_cluster high low = push_bit 16 (ucast high) OR ucast low"

definition fat32_calc_lba_from_cluster :: "u32 \<Rightarrow> u32 \<Rightarrow> u32 \<Rightarrow> u32" where
  "fat32_calc_lba_from_cluster cluster_begin_lba spc cluster_number =
    cluster_begin_lba + (cluster_number - 2) * spc"

text \<open>Only the result of \<open>fat32_parse_entry\<close> matters; what it prints is not modelled.\<close>

definition fat32_parse_entry :: "FAT32Entry \<Rightarrow> int" where
  "fat32_parse_entry e =
    (let c = e_filename e ! 0
     in if c = FILENAME_NEVER_USED then - 1
        else if c = FILENAME_FILE_DELETED then 0
        else if c = FILENAME_FIRST_CHAR_E5 then 0
        else if e_file_attr e AND 0x0F = 0x0F then 0
        else 0)"

definition fat32_set_partition :: "fat32_ctx \<Rightarrow> PartitionTable list \<Rightarrow> fat32_ctx" where
  "fat32_set_partition fat32 pt =
    fat32\<lparr>partition_type := pt_partition_type (pt ! 0), start_sector := pt_start_sector (pt ! 0),
          length_sectors := pt_length_sectors (pt ! 0)\<rparr>"

definition fat32_set_context :: "fat32_ctx \<Rightarrow> FAT32BootSector \<Rightarrow> fat32_ctx" where
  "fat32_set_context fat32 bs =
    (let c = fat32\<lparr>reserved_sectors := bs_reserved_sectors bs, number_of_fats := bs_number_of_fats bs,
           sectors_per_fat_32 := bs_sectors_per_fat_32 bs, sectors_per_cluster := bs_sectors_per_cluster bs,
           cluster_number_root_dir := bs_cluster_number_root_dir bs\<rparr>;
         c = c\<lparr>cluster_begin_sector := start_sector c + ucast (reserved_sectors c) +
                 ucast (number_of_fats c) * sectors_per_fat_32 c\<rparr>;
         c = c\<lparr>root_dir_sector := cluster_begin_sector c +
                 (cluster_number_root_dir c - 2) * ucast (sectors_per_cluster c)\<rparr>;
         c = c\<lparr>fat_begin_sector := start_sector c + ucast (reserved_sectors c)\<rparr>
     in c\<lparr>root_dir_entries := []\<rparr>)"

definition fat32_is_last_cluster :: "u32 \<Rightarrow> bool" where
  "fat32_is_last_cluster dat \<longleftrightarrow> 0x0FFFFFFF AND dat \<ge> 0x0FFFFFF8"

section \<open>Reading the FAT and the root directory\<close>

text \<open>The \<open>do\<close> loop of \<open>fat32_get_fat\<close>. It has no bound in the code; \<open>n @ [cur]\<close> is its \<open>list_push_tail\<close>, with
  memory for the node.\<close>

partial_function (option) fat32_get_fat_loop ::
  "'m block_ops \<Rightarrow> fat32_ctx \<Rightarrow> u32 \<Rightarrow> u32 list \<Rightarrow> io_ctx \<Rightarrow> 'm \<Rightarrow> (int \<times> u32 list \<times> io_ctx \<times> 'm) option" where
  "fat32_get_fat_loop B ctx cur n io m =
    do {
      (r, bs, io, m) \<leftarrow> io_read_nbytes B io [0, 0, 0, 0] (SECTOR_SIZE_BYTES * fat_begin_sector ctx + cur * 4) m;
      if r < 0 then Some (- 1, n, io, m)
      else do {
        next_address \<leftarrow> Some (rd32 bs 0);
        n \<leftarrow> Some (n @ [cur]);
        if \<not> fat32_is_last_cluster next_address then fat32_get_fat_loop B ctx next_address n io m
        else Some (0, n, io, m)
      }
    }"

text \<open>The list is handed to the caller only on success; \<open>ptr\<close> is its old value.\<close>

definition fat32_get_fat ::
  "'m block_ops \<Rightarrow> fat32_ctx \<Rightarrow> u32 \<Rightarrow> u32 list \<Rightarrow> io_ctx \<Rightarrow> 'm \<Rightarrow> (int \<times> u32 list \<times> io_ctx \<times> 'm) option" where
  "fat32_get_fat B ctx first ptr io m =
    do {
      (r, n, io, m) \<leftarrow> fat32_get_fat_loop B ctx first [] io m;
      Some (if r < 0 then (- 1, ptr, io, m) else (0, n, io, m))
    }"

definition fat32_open_file ::
  "'m block_ops \<Rightarrow> fat32_ctx \<Rightarrow> FAT32Entry \<Rightarrow> io_ctx \<Rightarrow> fat32_file \<Rightarrow> 'm \<Rightarrow>
    (int \<times> fat32_file \<times> io_ctx \<times> 'm) option" where
  "fat32_open_file B ctx e io file m =
    do {
      let first = fat32_calc_first_cluster (e_first_cluster_addr_high e) (e_first_cluster_addr_low e) + 2;
      (r, l, io, m) \<leftarrow> fat32_get_fat B ctx first (fat_list file) io m;
      let file = file\<lparr>fat_list := l\<rparr>;
      if r < 0 then Some (- 1, file, io, m)
      else Some (0, file\<lparr>file_size := e_file_size e, start_byte_offset := 0, current_byte_offset := 0,
             file_name := c_strncpy 8 (e_filename e), file_ext := c_strncpy 3 (e_filename_ext e),
             current_cluster := first, f_sectors_per_cluster := ucast (sectors_per_cluster ctx),
             current_sector := 0\<rparr>, io, m)
    }"

definition dir_entry_skipped :: "FAT32Entry \<Rightarrow> bool" where
  "dir_entry_skipped e \<longleftrightarrow> e_filename e ! 0 = FILENAME_NEVER_USED \<or> e_filename e ! 0 = FILENAME_FILE_DELETED \<or>
     e_file_attr e AND 0x0F = 0x0F"

text \<open>The loop of \<open>fat32_cache_root_dir\<close>: \<open>j\<close> is the index, \<open>left\<close> the rounds left. The local
  variable \<open>file\<close> keeps its value from round to round, and a failed \<open>fat32_open_file\<close> is not
  noticed.\<close>

primrec fat32_cache_loop ::
  "'m block_ops \<Rightarrow> sd_ctx \<Rightarrow> nat \<Rightarrow> u32 \<Rightarrow> fat32_ctx \<Rightarrow> fat32_file \<Rightarrow> io_ctx \<Rightarrow> 'm \<Rightarrow>
    (fat32_ctx \<times> io_ctx \<times> 'm) option" where
  "fat32_cache_loop B sd 0 j ctx file io m = Some (ctx, io, m)"
| "fat32_cache_loop B sd (Suc left) j ctx file io m =
    do {
      (r, bs, io, m) \<leftarrow> io_read_nbytes B io (replicate 32 0)
        (root_dir_sector ctx * ucast (sd_sector_size sd) + j * 32) m;
      let e = entry_of bs;
      if r < 0 then Some (ctx, io, m)
      else if fat32_parse_entry e < 0 then Some (ctx, io, m)
      else if dir_entry_skipped e then fat32_cache_loop B sd left (j + 1) ctx file io m
      else do {
        (_, file, io, m) \<leftarrow> fat32_open_file B ctx e io file m;
        let file = file\<lparr>root_dir_offset := j\<rparr>;
        fat32_cache_loop B sd left (j + 1) (ctx\<lparr>root_dir_entries := root_dir_entries ctx @ [file]\<rparr>) file io m
      }
    }"

definition fat32_cache_root_dir ::
  "'m block_ops \<Rightarrow> fat32_file \<Rightarrow> fat32_ctx \<Rightarrow> sd_ctx \<Rightarrow> io_ctx \<Rightarrow> 'm \<Rightarrow> (int \<times> fat32_ctx \<times> io_ctx \<times> 'm) option" where
  "fat32_cache_root_dir B file ctx sd io m =
    do { (ctx, io, m) \<leftarrow> fat32_cache_loop B sd 16 0 ctx file io m; Some (0, ctx, io, m) }"

definition initialize_fat32 ::
  "'m block_ops \<Rightarrow> fat32_file \<Rightarrow> fat32_ctx \<Rightarrow> io_ctx \<Rightarrow> sd_ctx \<Rightarrow> 'm \<Rightarrow> (int \<times> fat32_ctx \<times> io_ctx \<times> 'm) option" where
  "initialize_fat32 B junk_file fat32 io sd m =
    (if sd_status sd = SD_DISABLED then Some (0, fat32, io, m)
     else do {
       (r, pt, io, m) \<leftarrow> io_read_nbytes B io (replicate (16 * PARTITION_TABLE_ENTRIES) 0) PARTITION_TABLE_OFFSET m;
       let pt = map (\<lambda>i. partition_of (slice (16 * i) 16 pt)) [0..<PARTITION_TABLE_ENTRIES];
       if r < 0 then Some (- 1, fat32, io, m)
       else do {
         let fat32 = fat32_set_partition fat32 pt;
         if partition_type fat32 \<noteq> PARTITION_TYPE_FAT32_LT2G \<and> partition_type fat32 \<noteq> PARTITION_TYPE_FAT32_LBA
         then Some (- 1, fat32, io, m)
         else do {
           (r, bs, io, m) \<leftarrow> io_read_nbytes B io (replicate 512 0) (SECTOR_SIZE_BYTES * pt_start_sector (pt ! 0)) m;
           if r < 0 then Some (- 1, fat32, io, m)
           else do {
             let fat32 = fat32_set_context fat32 (boot_sector_of bs);
             (r, fat32, io, m) \<leftarrow> fat32_cache_root_dir B junk_file fat32 sd io m;
             Some (if r < 0 then - 1 else 0, fat32, io, m)
           }
         }
       }
     })"

section \<open>Allocation\<close>

definition fat32_address_in_dir :: "fat32_ctx \<Rightarrow> u32 \<Rightarrow> bool" where
  "fat32_address_in_dir ctx addr \<longleftrightarrow> list_ex (\<lambda>f. list_ex (\<lambda>c. c = addr) (fat_list f)) (root_dir_entries ctx)"

text \<open>\<open>while (p(c)) c++;\<close>, the loop of the two functions below.\<close>

partial_function (option) first_not :: "(u32 \<Rightarrow> bool) \<Rightarrow> u32 \<Rightarrow> u32 option" where
  "first_not p c = (if p c then first_not p (c + 1) else Some c)"

definition fat32_get_next_cluster :: "fat32_ctx \<Rightarrow> u32 option" where
  "fat32_get_next_cluster ctx = first_not (fat32_address_in_dir ctx) 2"

definition fat32_root_entry_found :: "fat32_ctx \<Rightarrow> u32 \<Rightarrow> bool" where
  "fat32_root_entry_found ctx loc \<longleftrightarrow> list_ex (\<lambda>f. root_dir_offset f = loc) (root_dir_entries ctx)"

definition fat32_get_next_root_dir_loc :: "fat32_ctx \<Rightarrow> u32 option" where
  "fat32_get_next_root_dir_loc ctx = first_not (fat32_root_entry_found ctx) 0"

definition fat32_file_exists :: "fat32_ctx \<Rightarrow> fat32_file \<Rightarrow> fat32_file option" where
  "fat32_file_exists ctx file =
    find (\<lambda>cached. c_strncmp_eq 8 (file_name cached) (file_name file) \<and>
                   c_strncmp_eq 3 (file_ext cached) (file_ext file)) (root_dir_entries ctx)"

definition fat32_update_directory_entry :: "fat32_ctx \<Rightarrow> FAT32Entry \<Rightarrow> int" where
  "fat32_update_directory_entry ctx e = 0"

section \<open>Writing\<close>

text \<open>\<open>prev = n->data\<close> stores the pointer, not the cluster it points to: \<open>data_ptr\<close> is the address
  of the data of the list's last node. The results of the writes are not looked at.\<close>

definition fat32_update_fat ::
  "'m block_ops \<Rightarrow> (io_ctx \<Rightarrow> int) \<Rightarrow> u32 \<Rightarrow> fat32_ctx \<Rightarrow> fat32_file \<Rightarrow> u32 \<Rightarrow> io_ctx \<Rightarrow> 'm \<Rightarrow>
    (int \<times> fat32_file \<times> io_ctx \<times> 'm) option" where
  "fat32_update_fat B junk data_ptr ctx file cluster io m =
    do {
      let next = cluster;
      let delimiter = (0x0FFFFFFF :: u32);
      (_, io, m) \<leftarrow>
        (if fat_list file \<noteq> [] then
           io_write_nbytes B junk io (bytes32 next) (fat_begin_sector ctx * ucast SECTOR_SIZE + 4 * data_ptr) m
         else Some (0, io, m));
      let file = file\<lparr>fat_list := fat_list file @ [next]\<rparr>;
      (_, io, m) \<leftarrow> io_write_nbytes B junk io (bytes32 delimiter) (fat_begin_sector ctx * ucast SECTOR_SIZE + 4 * next) m;
      Some (0, file, io, m)
    }"

text \<open>Byte address of a slot of the root directory.\<close>

definition dir_slot :: "fat32_ctx \<Rightarrow> u32 \<Rightarrow> u32" where
  "dir_slot ctx loc = root_dir_sector ctx * ucast SECTOR_SIZE + 32 * loc"

text \<open>A failed read is not noticed: the entry then has what was in the variable before.\<close>

definition fat32_update_file_size ::
  "'m block_ops \<Rightarrow> (io_ctx \<Rightarrow> int) \<Rightarrow> u8 list \<Rightarrow> fat32_ctx \<Rightarrow> fat32_file \<Rightarrow> u32 \<Rightarrow> io_ctx \<Rightarrow> 'm \<Rightarrow>
    (int \<times> io_ctx \<times> 'm) option" where
  "fat32_update_file_size B junk e0 ctx file sz io m =
    do {
      (_, bs, io, m) \<leftarrow> io_read_nbytes B io e0 (dir_slot ctx (root_dir_offset file)) m;
      let e = entry_of bs;
      let e = e\<lparr>e_file_size := e_file_size e + sz\<rparr>;
      (_, io, m) \<leftarrow> io_write_nbytes B junk io (entry_bytes e) (dir_slot ctx (root_dir_offset file)) m;
      Some (0, io, m)
    }"

text \<open>The directory entry of a new file.\<close>

definition new_entry :: "fat32_file \<Rightarrow> u32 \<Rightarrow> FAT32Entry" where
  "new_entry file cluster =
    (entry_of (replicate 32 0))\<lparr>e_first_cluster_addr_high := ucast (drop_bit 16 cluster),
      e_first_cluster_addr_low := ucast cluster, e_filename := c_strncpy 8 (file_name file),
      e_filename_ext := c_strncpy 3 (file_ext file), e_file_size := 0\<rparr>"

definition fat32_creat_file ::
  "'m block_ops \<Rightarrow> (io_ctx \<Rightarrow> int) \<Rightarrow> fat32_ctx \<Rightarrow> fat32_file \<Rightarrow> io_ctx \<Rightarrow> 'm \<Rightarrow>
    (int \<times> fat32_file \<times> io_ctx \<times> 'm) option" where
  "fat32_creat_file B junk ctx file io m =
    do {
      (file, io, m) \<leftarrow>
        (case fat32_file_exists ctx file of
           Some f \<Rightarrow>
             Some (file\<lparr>root_dir_offset := root_dir_offset f, file_size := file_size f,
                        fat_list := fat_list f, current_cluster := current_cluster f\<rparr>, io, m)
         | None \<Rightarrow>
             do {
               loc \<leftarrow> fat32_get_next_root_dir_loc ctx;
               let file = file\<lparr>root_dir_offset := loc\<rparr>;
               first_cluster_addr \<leftarrow> fat32_get_next_cluster ctx;
               let e = new_entry file first_cluster_addr;
               let file = file\<lparr>file_size := 0\<rparr>;
               (_, io, m) \<leftarrow> io_write_nbytes B junk io (entry_bytes e) (dir_slot ctx (root_dir_offset file)) m;
               Some (file\<lparr>fat_list := [], current_cluster := first_cluster_addr\<rparr>, io, m)
             });
      let file = file\<lparr>start_byte_offset := cluster_begin_sector ctx * ucast SECTOR_SIZE +
            (current_cluster file - 2) * ucast (sectors_per_cluster ctx) * ucast SECTOR_SIZE\<rparr>;
      Some (0, file\<lparr>current_byte_offset := start_byte_offset file\<rparr>, io, m)
    }"

text \<open>The read cache is refreshed before the write cache is flushed; no result is looked at.\<close>

definition fat32_write_file_nbytes ::
  "'m block_ops \<Rightarrow> (io_ctx \<Rightarrow> int) \<Rightarrow> u8 list \<Rightarrow> fat32_ctx \<Rightarrow> fat32_file \<Rightarrow> u8 list \<Rightarrow> io_ctx \<Rightarrow> 'm \<Rightarrow>
    (int \<times> fat32_file \<times> io_ctx \<times> 'm) option" where
  "fat32_write_file_nbytes B junk e0 ctx file buf io m =
    do {
      (_, io, m) \<leftarrow> io_write_nbytes B junk io buf (current_byte_offset file) m;
      (_, io, m) \<leftarrow> io_flush_read_buffer B io m;
      (_, io, m) \<leftarrow> io_flush_write_buffer B io m;
      (_, io, m) \<leftarrow> fat32_update_file_size B junk e0 ctx file (of_nat (length buf)) io m;
      Some (0, file\<lparr>current_byte_offset := current_byte_offset file + of_nat (length buf)\<rparr>, io, m)
    }"

end
