(* ===== verification/Linked_List.thy ===== *)
theory Linked_List
  imports Prelude
begin

text \<open>
  src/list.c on an explicit heap. A pointer is a natural number with \<open>NULL\<close> 0; the heap holds the
  allocated nodes and the allocated data blocks. \<open>malloc\<close> is a parameter: it returns an address
  not in use, or \<open>NULL\<close>. An operation is \<open>None\<close> when it does not run to its end: when it reads
  or writes memory that is not allocated (a failed \<open>malloc\<close> is not checked by the code), or loops
  for ever on a cyclic list.
\<close>

section \<open>The heap and the operations\<close>

type_synonym addr = nat

record node =
  nd_data :: addr
  nd_next :: addr

record heap =
  hp_node :: "addr \<Rightarrow> node option"
  hp_data :: "addr \<Rightarrow> u8 list option"

text \<open>\<open>new_node = malloc(sizeof(struct node)); new_node->data = malloc(bytes)\<close>, the copy of the
  data, and the link.\<close>

definition list_new_node :: "(heap \<Rightarrow> addr) \<Rightarrow> u8 list \<Rightarrow> addr \<Rightarrow> heap \<Rightarrow> (addr \<times> heap) option" where
  "list_new_node malloc bytes nxt h =
    (let p = malloc h;
         h = h\<lparr>hp_node := (hp_node h)(p \<mapsto> \<lparr>nd_data = 0, nd_next = 0\<rparr>)\<rparr>;
         q = malloc h;
         h = h\<lparr>hp_data := (hp_data h)(q \<mapsto> bytes)\<rparr>
     in if p = 0 \<or> q = 0 then None
        else Some (p, h\<lparr>hp_node := (hp_node h)(p \<mapsto> \<lparr>nd_data = q, nd_next = nxt\<rparr>)\<rparr>))"

definition list_push_head :: "(heap \<Rightarrow> addr) \<Rightarrow> addr \<Rightarrow> u8 list \<Rightarrow> heap \<Rightarrow> (addr \<times> heap) option" where
  "list_push_head malloc head data h = list_new_node malloc data head h"

text \<open>\<open>while (ptr->next) ptr = ptr->next;\<close>\<close>

partial_function (option) list_find_tail :: "addr \<Rightarrow> heap \<Rightarrow> addr option" where
  "list_find_tail p h =
    do { n \<leftarrow> hp_node h p; if nd_next n \<noteq> 0 then list_find_tail (nd_next n) h else Some p }"

definition list_set_next :: "addr \<Rightarrow> addr \<Rightarrow> heap \<Rightarrow> heap option" where
  "list_set_next p nxt h =
    do { n \<leftarrow> hp_node h p; Some (h\<lparr>hp_node := (hp_node h)(p \<mapsto> n\<lparr>nd_next := nxt\<rparr>)\<rparr>) }"

definition list_push_tail :: "(heap \<Rightarrow> addr) \<Rightarrow> addr \<Rightarrow> u8 list \<Rightarrow> heap \<Rightarrow> (addr \<times> heap) option" where
  "list_push_tail malloc head data h =
    do {
      (new_node, h) \<leftarrow> list_new_node malloc data 0 h;
      if head = 0 then Some (new_node, h)
      else do {
        ptr \<leftarrow> list_find_tail head h;
        h \<leftarrow> list_set_next ptr new_node h;
        Some (head, h)
      }
    }"

text \<open>The node is freed before its \<open>next\<close> field is read.\<close>

definition list_free_node :: "addr \<Rightarrow> heap \<Rightarrow> heap" where
  "list_free_node p h = h\<lparr>hp_node := (hp_node h)(p := None)\<rparr>"

partial_function (option) list_free :: "addr \<Rightarrow> heap \<Rightarrow> heap option" where
  "list_free ptr h =
    (if ptr = 0 then Some h
     else do { h \<leftarrow> Some (list_free_node ptr h); n \<leftarrow> hp_node h ptr; list_free (nd_next n) h })"

text \<open>\<open>list_dump\<close> calls its function on the data of every node; the model returns these data in
  order.\<close>

partial_function (option) list_dump :: "addr \<Rightarrow> heap \<Rightarrow> u8 list list option" where
  "list_dump ptr h =
    (if ptr = 0 then Some []
     else do { n \<leftarrow> hp_node h ptr; d \<leftarrow> hp_data h (nd_data n); ds \<leftarrow> list_dump (nd_next n) h; Some (d # ds) })"

section \<open>The list a pointer stands for\<close>

fun list_rep :: "heap \<Rightarrow> addr \<Rightarrow> u8 list list \<Rightarrow> bool" where
  "list_rep h p [] \<longleftrightarrow> p = 0"
| "list_rep h p (x # xs) \<longleftrightarrow> p \<noteq> 0 \<and>
     (\<exists>q nxt. hp_node h p = Some \<lparr>nd_data = q, nd_next = nxt\<rparr> \<and> hp_data h q = Some x \<and> list_rep h nxt xs)"

definition malloc_ok :: "(heap \<Rightarrow> addr) \<Rightarrow> bool" where
  "malloc_ok malloc \<longleftrightarrow> (\<forall>h. malloc h \<noteq> 0 \<longrightarrow> hp_node h (malloc h) = None \<and> hp_data h (malloc h) = None)"

text \<open>One heap extends another: what was allocated is still there, unchanged.\<close>

definition heap_ext :: "heap \<Rightarrow> heap \<Rightarrow> bool" where
  "heap_ext h h' \<longleftrightarrow> hp_node h \<subseteq>\<^sub>m hp_node h' \<and> hp_data h \<subseteq>\<^sub>m hp_data h'"

lemma list_rep_ext: "heap_ext h h' \<Longrightarrow> list_rep h p xs \<Longrightarrow> list_rep h' p xs"
  by (induction xs arbitrary: p) (auto simp: heap_ext_def map_le_def dom_def)

lemma list_new_node_rep:
  assumes "malloc_ok malloc" and new: "list_new_node malloc x nxt h = Some (p, h')"
  shows "heap_ext h h' \<and> p \<noteq> 0 \<and> hp_node h p = None \<and>
    (\<exists>q. hp_node h' p = Some \<lparr>nd_data = q, nd_next = nxt\<rparr> \<and> hp_data h' q = Some x)"
proof -
  define h1 where "h1 = h\<lparr>hp_node := (hp_node h)(malloc h \<mapsto> \<lparr>nd_data = 0, nd_next = 0\<rparr>)\<rparr>"
  have ne: "malloc h \<noteq> 0" "malloc h1 \<noteq> 0" and p: "p = malloc h"
    and h': "h' = h1\<lparr>hp_data := (hp_data h1)(malloc h1 \<mapsto> x),
        hp_node := (hp_node h1)(malloc h \<mapsto> \<lparr>nd_data = malloc h1, nd_next = nxt\<rparr>)\<rparr>"
    using new unfolding list_new_node_def by (auto simp: Let_def h1_def split: if_splits)
  have f: "hp_node h (malloc h) = None" "hp_data h1 (malloc h1) = None"
    using assms(1) ne by (auto simp: malloc_ok_def)
  then have "hp_data h (malloc h1) = None" by (simp add: h1_def)
  with f(1) ne(1) show ?thesis unfolding p h' h1_def
    by (auto simp: heap_ext_def map_le_def dom_def)
qed

lemma list_find_tail_rep:
  "list_rep h p (x # xs) \<Longrightarrow> \<exists>t q. list_find_tail p h = Some t \<and> hp_node h t = Some \<lparr>nd_data = q, nd_next = 0\<rparr>"
proof (induction xs arbitrary: p x)
  case Nil
  then show ?case by (auto simp: list_find_tail.simps [of p])
next
  case (Cons y ys)
  then obtain q nxt where q: "hp_node h p = Some \<lparr>nd_data = q, nd_next = nxt\<rparr>" and nxt: "list_rep h nxt (y # ys)"
    by auto
  then have "nxt \<noteq> 0" by simp
  with q Cons.IH [OF nxt] show ?case by (auto simp: list_find_tail.simps [of p])
qed

lemma list_find_tail_ext:
  assumes ext: "heap_ext h h'" and "list_find_tail p h = Some t"
  shows "list_find_tail p h' = Some t"
proof -
  have "h0 = h \<longrightarrow> list_find_tail p h' = Some t" if "list_find_tail p h0 = Some t" for h0
  proof (rule list_find_tail.raw_induct [where P = "\<lambda>p h0 t. h0 = h \<longrightarrow> list_find_tail p h' = Some t", OF _ that], rule impI)
    fix f :: "addr \<Rightarrow> heap \<Rightarrow> addr option" and p h0 t
    assume IH: "\<And>p h0 t. f p h0 = Some t \<Longrightarrow> h0 = h \<longrightarrow> list_find_tail p h' = Some t"
      and step: "hp_node h0 p \<bind> (\<lambda>n. if nd_next n \<noteq> 0 then f (nd_next n) h0 else Some p) = Some t" and "h0 = h"
    then obtain n where n: "hp_node h p = Some n" by (auto simp: bind_eq_Some_conv)
    with ext have "hp_node h' p = Some n" by (auto simp: heap_ext_def map_le_def dom_def)
    with n step IH \<open>h0 = h\<close> show "list_find_tail p h' = Some t"
      by (subst list_find_tail.simps) (auto split: if_splits)
  qed
  with assms(2) show ?thesis by blast
qed

text \<open>Linking a one-node list behind the tail appends its element.\<close>

lemma list_rep_link:
  assumes "list_rep h p (x # xs)" and "list_find_tail p h = Some t"
    and t: "hp_node h t = Some \<lparr>nd_data = qt, nd_next = 0\<rparr>" and n: "list_rep h n [y]" "n \<noteq> t"
  shows "list_rep (h\<lparr>hp_node := (hp_node h)(t \<mapsto> \<lparr>nd_data = qt, nd_next = n\<rparr>)\<rparr>) p (x # xs @ [y])"
  using assms(1,2)
proof (induction xs arbitrary: p x)
  case Nil
  then have "t = p" by (auto simp: list_find_tail.simps [of p])
  with Nil t n show ?case by auto
next
  case (Cons z zs)
  then obtain q nxt where q: "hp_node h p = Some \<lparr>nd_data = q, nd_next = nxt\<rparr>" "hp_data h q = Some x" "p \<noteq> 0"
    and nxt: "list_rep h nxt (z # zs)"
    by auto
  have "nxt \<noteq> 0" using nxt by simp
  with Cons.prems(2) q(1) have tail: "list_find_tail nxt h = Some t" by (simp add: list_find_tail.simps [of p])
  define h' where "h' = h\<lparr>hp_node := (hp_node h)(t \<mapsto> \<lparr>nd_data = qt, nd_next = n\<rparr>)\<rparr>"
  from Cons.IH [OF nxt tail] have rest: "list_rep h' nxt (z # zs @ [y])" by (simp only: h'_def)
  have "p \<noteq> t" using q(1) t \<open>nxt \<noteq> 0\<close> by auto
  with q have "hp_node h' p = Some \<lparr>nd_data = q, nd_next = nxt\<rparr>" "hp_data h' q = Some x" "p \<noteq> 0"
    by (simp_all add: h'_def)
  with rest have "list_rep h' p (x # z # zs @ [y])" by (auto simp only: list_rep.simps(2) [of h' p])
  then show ?case by (simp only: h'_def append_Cons)
qed

lemma list_dump_rep: "list_rep h p xs \<Longrightarrow> list_dump p h = Some xs"
proof (induction xs arbitrary: p)
  case Nil
  then show ?case by (simp add: list_dump.simps [of 0])
next
  case (Cons x xs)
  then show ?case by (auto simp: list_dump.simps [of p])
qed

lemma list_free_rep: "list_rep h p (x # xs) \<Longrightarrow> list_free p h = None"
  by (subst list_free.simps) (simp add: list_free_node_def)

lemma list_push_head_rep:
  assumes "malloc_ok malloc" and "list_rep h p xs" and "list_push_head malloc p x h = Some (p', h')"
  shows "list_rep h' p' (x # xs)"
proof -
  from list_new_node_rep [OF assms(1), of x p h p' h'] assms(3)
  obtain q where "heap_ext h h'" "p' \<noteq> 0" "hp_node h' p' = Some \<lparr>nd_data = q, nd_next = p\<rparr>" "hp_data h' q = Some x"
    by (auto simp: list_push_head_def)
  with list_rep_ext [OF _ assms(2)] show ?thesis by auto
qed

lemma list_push_tail_rep:
  assumes malloc: "malloc_ok malloc" and rep: "list_rep h p xs"
    and mem: "list_new_node malloc x 0 h \<noteq> None"
  shows "\<exists>p' h'. list_push_tail malloc p x h = Some (p', h') \<and> list_rep h' p' (xs @ [x]) \<and> (p \<noteq> 0 \<longrightarrow> p' = p)"
proof -
  obtain n h1 where new: "list_new_node malloc x 0 h = Some (n, h1)" using mem by auto
  from list_new_node_rep [OF malloc new] obtain q where
    n: "heap_ext h h1" "n \<noteq> 0" "hp_node h n = None" "hp_node h1 n = Some \<lparr>nd_data = q, nd_next = 0\<rparr>"
    "hp_data h1 q = Some x" by auto
  then have n1: "list_rep h1 n [x]" by simp
  show ?thesis
  proof (cases xs)
    case Nil
    with rep new n1 show ?thesis by (simp add: list_push_tail_def)
  next
    case (Cons y ys)
    have rep1: "list_rep h1 p (y # ys)" using list_rep_ext [OF n(1) rep] Cons by simp
    obtain t qt where t: "list_find_tail p h1 = Some t" "hp_node h1 t = Some \<lparr>nd_data = qt, nd_next = 0\<rparr>"
      using list_find_tail_rep [OF rep1] by blast
    obtain t' qt' where t': "list_find_tail p h = Some t'" "hp_node h t' = Some \<lparr>nd_data = qt', nd_next = 0\<rparr>"
      using list_find_tail_rep rep Cons by blast
    have "list_find_tail p h1 = Some t'" by (rule list_find_tail_ext [OF n(1) t'(1)])
    with t(1) t'(2) n(3) have "n \<noteq> t" by auto
    from list_rep_link [OF rep1 t n1 this] new t rep Cons show ?thesis
      by (simp add: list_push_tail_def list_set_next_def)
  qed
qed

section \<open>The interface\<close>

text \<open>A loop that pushes one element after the other.\<close>

primrec push_all :: "('p \<Rightarrow> 'a \<Rightarrow> 'h \<Rightarrow> ('p \<times> 'h) option) \<Rightarrow> 'a list \<Rightarrow> 'p \<Rightarrow> 'h \<Rightarrow> ('p \<times> 'h) option" where
  "push_all push [] p h = Some (p, h)"
| "push_all push (x # xs) p h = do { (p, h) \<leftarrow> push p x h; push_all push xs p h }"

text \<open>What a client of the list relies on: a representation relation, and pushes that add the
  element at one end.\<close>

locale pushable =
  fixes rep :: "'h \<Rightarrow> 'p \<Rightarrow> 'a list \<Rightarrow> bool"
    and push :: "'p \<Rightarrow> 'a \<Rightarrow> 'h \<Rightarrow> ('p \<times> 'h) option"
    and add :: "'a \<Rightarrow> 'a list \<Rightarrow> 'a list"
  assumes rep_push: "\<lbrakk>rep h p xs; push p x h = Some (p', h')\<rbrakk> \<Longrightarrow> rep h' p' (add x xs)"
begin

lemma push_all_rep: "\<lbrakk>rep h p ys; push_all push xs p h = Some (p', h')\<rbrakk> \<Longrightarrow> rep h' p' (fold add xs ys)"
proof (induction xs arbitrary: h p ys)
  case Nil
  then show ?case by simp
next
  case (Cons x xs)
  then obtain p1 h1 where "push p x h = Some (p1, h1)" "push_all push xs p1 h1 = Some (p', h')"
    by (auto simp: bind_eq_Some_conv)
  with Cons.IH [OF rep_push] Cons.prems(1) show ?case by simp
qed

end

definition heap_list :: "(heap \<Rightarrow> addr) \<Rightarrow> heap \<Rightarrow> addr \<Rightarrow> u8 list list \<Rightarrow> bool" where
  "heap_list malloc h p xs \<longleftrightarrow> malloc_ok malloc \<and> list_rep h p xs"

interpretation heads: pushable "heap_list malloc" "list_push_head malloc" "\<lambda>x xs. x # xs" for malloc
  by unfold_locales (auto simp only: heap_list_def intro: list_push_head_rep)

lemma list_push_tail_some: "list_push_tail malloc p x h = Some r \<Longrightarrow> list_new_node malloc x 0 h \<noteq> None"
  by (auto simp: list_push_tail_def bind_eq_Some_conv)

interpretation tails: pushable "heap_list malloc" "list_push_tail malloc" "\<lambda>x xs. xs @ [x]" for malloc
proof
  fix h p xs x p' h'
  assume "heap_list malloc h p xs" and push: "list_push_tail malloc p x h = Some (p', h')"
  then have "malloc_ok malloc" "list_rep h p xs" by (simp_all only: heap_list_def)
  from list_push_tail_rep [OF this list_push_tail_some [OF push]] push \<open>malloc_ok malloc\<close>
  show "heap_list malloc h' p' (xs @ [x])" by (auto simp: heap_list_def)
qed

lemma fold_snoc: "fold (\<lambda>x xs. xs @ [x]) xs ys = ys @ xs"
  by (induction xs arbitrary: ys) simp_all

lemma fold_cons: "fold (\<lambda>x xs. x # xs) xs ys = rev xs @ ys"
  by (induction xs arbitrary: ys) simp_all

section \<open>Properties\<close>

text \<open>A \<open>malloc\<close> that hands out the free addresses up to a bound, for the examples.\<close>

primrec arena :: "nat \<Rightarrow> heap \<Rightarrow> addr" where
  "arena 0 h = 0"
| "arena (Suc n) h = (if hp_node h (Suc n) = None \<and> hp_data h (Suc n) = None then Suc n else arena n h)"

lemma arena_ok: "malloc_ok (arena n)"
proof -
  have "arena n h \<noteq> 0 \<longrightarrow> hp_node h (arena n h) = None \<and> hp_data h (arena n h) = None" for h
    by (induction n) simp_all
  then show ?thesis by (simp add: malloc_ok_def)
qed

definition empty_heap :: heap where
  "empty_heap = \<lparr>hp_node = (\<lambda>_. None), hp_data = (\<lambda>_. None)\<rparr>"

text \<open>C32. \<open>list_push_tail\<close> refines appending: on a pointer that stands for a list, as long as memory
  lasts, it terminates, the pointer then stands for the list with the element at its end, and the
  head only changes when the list was empty.\<close>

theorem list_push_tail_refines:
  assumes "malloc_ok malloc" and "list_rep h p xs" and "list_new_node malloc x 0 h \<noteq> None"
  shows "\<exists>p' h'. list_push_tail malloc p x h = Some (p', h') \<and> list_rep h' p' (xs @ [x]) \<and> (p \<noteq> 0 \<longrightarrow> p' = p)"
  by (rule list_push_tail_rep [OF assms])

theorem list_push_tail_refines_witness:
  "\<exists>p' h'. list_push_tail (arena 9) 0 [1, 2] empty_heap = Some (p', h') \<and> list_rep h' p' [[1, 2]]"
  using list_push_tail_refines [OF arena_ok, of empty_heap 0 "[]" 9 "[1, 2]"]
  by (simp add: list_new_node_def empty_heap_def eval_nat_numeral Let_def)

text \<open>Built up from an empty list, the tail pushes keep the order of the elements and the head
  pushes reverse it, and \<open>list_dump\<close> visits exactly those elements.\<close>

theorem list_build_dump:
  assumes "malloc_ok malloc"
  shows "(push_all (list_push_tail malloc) xs 0 h = Some (p, h1) \<longrightarrow> list_dump p h1 = Some xs) \<and>
    (push_all (list_push_head malloc) xs 0 h = Some (q, h2) \<longrightarrow> list_dump q h2 = Some (rev xs))"
  using tails.push_all_rep [of malloc h 0 "[]" xs p h1] heads.push_all_rep [of malloc h 0 "[]" xs q h2] assms
  by (auto simp: heap_list_def fold_snoc fold_cons intro: list_dump_rep)

theorem list_build_dump_witness:
  "\<exists>q h2. push_all (list_push_head (arena 4)) [[1], [2]] 0 empty_heap = Some (q, h2) \<and> list_dump q h2 = Some [[2], [1]]"
proof -
  have "\<exists>q h2. push_all (list_push_head (arena 4)) [[1], [2]] 0 empty_heap = Some (q, h2)"
    by (simp add: list_push_head_def list_new_node_def empty_heap_def eval_nat_numeral Let_def)
  with list_build_dump [OF arena_ok, of 4 "[[1], [2]]" empty_heap] show ?thesis by fastforce
qed

text \<open>\<open>list_free\<close> reads the \<open>next\<close> field of a node it has just freed: on every non-empty list it
  accesses memory that is not allocated.\<close>

theorem list_free_use_after_free:
  assumes "list_rep h p xs" and "xs \<noteq> []"
  shows "list_free p h = None"
  using assms list_free_rep by (cases xs) blast+

theorem list_free_use_after_free_witness:
  "list_free 1 \<lparr>hp_node = [1 \<mapsto> \<lparr>nd_data = 2, nd_next = 0\<rparr>], hp_data = [2 \<mapsto> [7]]\<rparr> = None"
  by (rule list_free_use_after_free [of _ _ "[[7]]"]) simp_all

end
