(* ===== verification/Obd_Table.thy ===== *)
theory Obd_Table
  imports C_String
begin

text \<open>
  The PIDs of src/include/obd.h and the command table of src/obd.c. A handler pointer is the name of
  the function it points to; \<open>Obd\<close> holds the functions. A C string is the list of its bytes without
  the terminating NUL, \<open>NULL\<close> is \<open>None\<close>.
\<close>

section \<open>The PID enumeration\<close>

text \<open>The enumerators in the order of the declaration; an enumerator's value is its position.\<close>

definition obd_pids_lo :: "string list" where
  "obd_pids_lo = [
    ''PIDS_SUPPORTED_01_02'', ''MONITOR_STATUS_SINCE_DTCS_CLEARED'', ''FREEZE_DTC'',
    ''FUEL_SYSTEM_STATUS'', ''CALCULATED_ENGINE_LOAD'', ''ENGINE_COOLANT_TEMP_1'',
    ''SHORT_TERM_FUEL_TRIM_1'', ''LONG_TERM_FUEL_TRIM_1'', ''SHORT_TERM_FUEL_TRIM_2'',
    ''LONG_TERM_FUEL_TRIM_2'', ''FUEL_PRESSURE'', ''INTAKE_MANIFOLD_ABS_PRESSURE_1'',
    ''ENGINE_RPM'', ''VEHICLE_SPEED'', ''TIMING_ADVANCE'', ''INTAKE_AIR_TEMP_1'', ''MAF_RATE'',
    ''THROTTLE_POSITION_1'', ''COMMANDED_SECONDARY_AIR_STAT'', ''TOTAL_OXYGEN_SENSORS_2_BANKS'',
    ''OXYGEN_SENSOR_1_2_BANK'', ''OXYGEN_SENSOR_2_2_BANK'', ''OXYGEN_SENSOR_3_2_BANK'',
    ''OXYGEN_SENSOR_4_2_BANK'', ''OXYGEN_SENSOR_5_2_BANK'', ''OXYGEN_SENSOR_6_2_BANK'',
    ''OXYGEN_SENSOR_7_2_BANK'', ''OXYGEN_SENSOR_8_2_BANK'', ''OBD_STANDARDS'',
    ''TOTAL_OXYGEN_SENSORS_4_BANKS'', ''AUXILIARY_INPUT_STATUS'', ''RUN_TIME_ENGINE_START'',
    ''PIDS_SUPPORTED_21_40'', ''DISTANCE_WITH_MIL_ON'', ''FUEL_PRESSURE_REL_TO_MANIFOLD'',
    ''FUEL_RAIL_PRESSURE'', ''OXYGEN_SENSOR_1_4_BANK_VOLTS'', ''OXYGEN_SENSOR_2_4_BANK_VOLTS'',
    ''OXYGEN_SENSOR_3_4_BANK_VOLTS'', ''OXYGEN_SENSOR_4_4_BANK_VOLTS'',
    ''OXYGEN_SENSOR_5_4_BANK_VOLTS'', ''OXYGEN_SENSOR_6_4_BANK_VOLTS'',
    ''OXYGEN_SENSOR_7_4_BANK_VOLTS'', ''OXYGEN_SENSOR_8_4_BANK_VOLTS'', ''COMMANDED_EGR'',
    ''EGR_ERROR'', ''COMMANDED_EVAPORATIVE_PURGE'', ''FUEL_TANK_LEVEL_INPUT'',
    ''WARM_UPS_SINCE_CODES_CLEARED'', ''DISTANCE_TRAVELED_SINCE_CODES_CLEARED'',
    ''EVAP_SYSTEM_VAPOR_PRESSURE_1'', ''ABS_BAROMETRIC_PRESSURE'', ''OXYGEN_SENSOR_1_4_BANK_CURR'',
    ''OXYGEN_SENSOR_2_4_BANK_CURR'', ''OXYGEN_SENSOR_3_4_BANK_CURR'',
    ''OXYGEN_SENSOR_4_4_BANK_CURR'', ''OXYGEN_SENSOR_5_4_BANK_CURR'',
    ''OXYGEN_SENSOR_6_4_BANK_CURR'', ''OXYGEN_SENSOR_7_4_BANK_CURR'',
    ''OXYGEN_SENSOR_8_4_BANK_CURR'', ''CAT_TEMP_BANK_1_SENSOR_1'', ''CAT_TEMP_BANK_2_SENSOR_1'',
    ''CAT_TEMP_BANK_1_SENSOR_2'', ''CAT_TEMP_BANK_2_SENSOR_2'', ''PIDS_SUPPORTED_41_60'',
    ''MONITOR_STATUS_THIS_DRIVE_CYCLE'', ''CONTROL_MODULE_VOLTAGE'', ''ABSOLUTE_LOAD'',
    ''COMMANDED_FUEL_AIR_RATIO'', ''RELATIVE_THROTTLE_POSITION'', ''AMBIENT_AIR_TEMP'',
    ''ABSOLUTE_THROTTLE_POSITION_B'', ''ABSOLUTE_THROTTLE_POSITION_C'',
    ''ACCELORATOR_PEDAL_POSITION_D'', ''ACCELORATOR_PEDAL_POSITION_E'',
    ''ACCELORATOR_PEDAL_POSITION_F'', ''COMMANDED_THROTTLE_ACTUATOR'', ''TIME_RUN_WITH_MIL_ON'',
    ''TIME_SINCE_TROUBLE_CODES_CLEARED'']"

definition obd_pids_hi :: "string list" where
  "obd_pids_hi = [
    ''MAX_FAR_O2V_O2C_ABS_MAN_PRES'', ''MAX_MAF_RATE'', ''FUEL_TYPE'', ''ETHANOL_FUEL_PERCENT'',
    ''ABS_EVAP_SYS_VAPOR_PRES'', ''EVAP_SYSTEM_VAPOR_PRESSURE_2'',
    ''SECONDARY_O2_TRIM_SHORT_TERM_BANK_1_3'', ''SECONDARY_O2_TRIM_LONG_TERM_BANK_1_3'',
    ''SECONDARY_O2_TRIM_SHORT_TERM_BANK_2_4'', ''SECONDARY_O2_TRIM_LONG_TERM_BANK_2_4'',
    ''FUEL_RAIL_ABS_PRESSURE'', ''RELATIVE_ACCEL_PEDAL_POS'', ''HYBRID_BATTERY_PACK_LIFE'',
    ''ENGINE_OIL_TEMP'', ''FUEL_INJECTION_TIMING'', ''ENGINE_FUEL_RATE_1'',
    ''EMISSIONS_REQUIREMENTS'', ''PIDS_SUPPORTED_61_80'', ''ENGINE_DEMAND_PERCENT_TORQUE'',
    ''ENGINE_ACTUAL_PERCENT_TORQUE'', ''ENGINE_REFERENCE_TORQUE'', ''ENGINE_DATA_PERCENT_TORQUE'',
    ''AUX_IO_SUPPORTED'', ''MAF_SENSOR'', ''ENGINE_COOLANT_TEMP_2'', ''INTAKE_AIR_TEMP_2'',
    ''COMMANDED_EGR_AND_EGR_ERR'', ''DIESEL_INTAKE_AIR_CONTROL'', ''EXHAUST_RECIRC_TEMP'',
    ''THROTTLE_CONTROL'', ''FUEL_PRESSURE_CONTROL'', ''INJECTION_PRESSURE_CONTROL'',
    ''TURBO_INLET_PRESSURE'', ''BOOST_PRESSURE_CONTROL'', ''VAR_TURBO_CONTROL'',
    ''WASTEGATE_CONTROL'', ''EXHAUST_PRESSURE'', ''TURBO_RPM'', ''TURBO_TEMP_1'', ''TURBO_TEMP_2'',
    ''INTERCOOLER_TEMP'', ''EXHAUST_TEMP_BANK_1'', ''EXHAUST_TEMP_BANK_2'',
    ''DIESEL_PARTICULATE_FILTER_1'', ''DIESEL_PARTICULATE_FILTER_2'',
    ''DIESEL_PARTICULATE_FILTER_TEMP'', ''NOX_CONTROL_STATUS'', ''PM_CONTROL_STATUS'',
    ''ENGINE_RUN_TIME'', ''PIDS_SUPPORTED_81_A0'', ''ENGINE_RUN_TIME_AUX_EMMISSION_1'',
    ''ENGINE_RUN_TIME_AUX_EMMISSION_2'', ''NOX_SENSOR'', ''MANIFOLD_SURFACE_TEMP'', ''NOX_REAGENT'',
    ''PM_SENSOR'', ''INTAKE_MANIFOLD_ABS_PRESSURE_2'', ''SCR_INDUCE_SYSTEM'',
    ''RUN_TIME_FOR_AECD_11_15'', ''RUN_TIME_FOR_AECD_16_20'', ''DIESEL_AFTERTREATMENT'',
    ''OXYGEN_WIDEBAND'', ''THROTTLE_POSITION_2'', ''ENGINE_FRICTION_PERCENT_TORQUE'',
    ''PM_SENSOR_BANK_1_2'', ''OBD_INFORMATION_1'', ''OBD_INFORMATION_2'', ''FUEL_SYSTEM_CONTROL'',
    ''OBD_COUNTERS'', ''NOX_WARNGING'', ''EXHAUST_TEMP_1'', ''EXHAUST_TEMP_2'', ''HYBRID_EV_DATA'',
    ''DIESEL_EXHAUST_FLUID'', ''OXYGEN_SENSOR_DATA'', ''ENGINE_FUEL_RATE_2'', ''EXHAUST_FLOW_RATE'',
    ''FUEL_SYSTEM_PERCENT'', ''PIDS_SUPPORTED_A1_C0'', ''NOX_SENSOR_CORRECTED_DATA'',
    ''CYLINDER_FUEL_RATE'', ''EVAP_SYSTEM_VAPOR_PRESSURE_3'', ''TRANSMISSION_GEAR'',
    ''DIESEL_EXHAUST_FLUID_TREATMENT'', ''ODOMETER'']"

definition obd_pid_of :: "string \<Rightarrow> u8" where
  "obd_pid_of name = of_nat (length (takeWhile (\<lambda>x. x \<noteq> name) (obd_pids_lo @ obd_pids_hi)))"

section \<open>The command table\<close>

datatype obd_handler = Set_supported_ops | Get_engine_load | Get_coolant_temp | Get_fuel_trim
  | Get_fuel_pressure | Get_manifold_pressure | Get_engine_rpm | Get_vehicle_speed | Get_timing_advance
  | Get_air_temp | Get_maf_rate | Get_throttle_pos | Get_oxygen_sensors | Get_oxygen_data

record obd_cmd =
  obd_pid :: u8
  resp_bytes :: u32
  obd_units :: "u8 list option"
  obd_cmd_text :: "u8 list"
  cmd_str :: "u8 list"
  handle_data :: "obd_handler option"

definition obd_entry ::
  "string \<Rightarrow> u32 \<Rightarrow> u8 list option \<Rightarrow> u8 list \<Rightarrow> u8 list \<Rightarrow> obd_handler option \<Rightarrow> obd_cmd" where
  "obd_entry pid n units cmd name h =
    \<lparr>obd_pid = obd_pid_of pid, resp_bytes = n, obd_units = units, obd_cmd_text = cmd, cmd_str = name,
     handle_data = h\<rparr>"

definition obd_cmds_lo :: "obd_cmd list" where
  "obd_cmds_lo = [
    obd_entry ''PIDS_SUPPORTED_01_02'' 4 (None) (cstr ''0100'' @ [13]) (cstr ''PIDS SUPPORTED 01 02'') (Some Set_supported_ops),
    obd_entry ''MONITOR_STATUS_SINCE_DTCS_CLEARED'' 4 (None) (cstr ''0101'' @ [13]) (cstr ''MONITOR STATUS SINCE DTCS CLEARED'') (None),
    obd_entry ''FREEZE_DTC'' 2 (None) (cstr ''0102'' @ [13]) (cstr ''FREEZE DTC'') (None),
    obd_entry ''FUEL_SYSTEM_STATUS'' 2 (None) (cstr ''0103'' @ [13]) (cstr ''FUEL SYSTEM STATUS'') (None),
    obd_entry ''CALCULATED_ENGINE_LOAD'' 1 (Some (cstr ''%'')) (cstr ''0104'' @ [13]) (cstr ''CALCULATED ENGINE LOAD'') (Some Get_engine_load),
    obd_entry ''ENGINE_COOLANT_TEMP_1'' 1 (Some (cstr ''* Celsius'')) (cstr ''0105'' @ [13]) (cstr ''ENGINE COOLANT TEMP 1'') (Some Get_coolant_temp),
    obd_entry ''SHORT_TERM_FUEL_TRIM_1'' 1 (Some (cstr ''%'')) (cstr ''0106'' @ [13]) (cstr ''SHORT TERM FUEL TRIM 1'') (Some Get_fuel_trim),
    obd_entry ''LONG_TERM_FUEL_TRIM_1'' 1 (Some (cstr ''%'')) (cstr ''0107'' @ [13]) (cstr ''LONG TERM FUEL TRIM 1'') (Some Get_fuel_trim),
    obd_entry ''SHORT_TERM_FUEL_TRIM_2'' 1 (Some (cstr ''%'')) (cstr ''0108'' @ [13]) (cstr ''SHORT TERM FUEL TRIM 2'') (Some Get_fuel_trim),
    obd_entry ''LONG_TERM_FUEL_TRIM_2'' 1 (Some (cstr ''%'')) (cstr ''0109'' @ [13]) (cstr ''LONG TERM FUEL TRIM 2'') (Some Get_fuel_trim),
    obd_entry ''FUEL_PRESSURE'' 1 (Some (cstr ''kPa'')) (cstr ''010A'' @ [13]) (cstr ''FUEL PRESSURE'') (Some Get_fuel_pressure),
    obd_entry ''INTAKE_MANIFOLD_ABS_PRESSURE_1'' 1 (Some (cstr ''kPa'')) (cstr ''010B'' @ [13]) (cstr ''INTAKE MANIFOLD ABS PRESSURE 1'') (Some Get_manifold_pressure),
    obd_entry ''ENGINE_RPM'' 2 (Some (cstr ''rpm'')) (cstr ''010C'' @ [13]) (cstr ''ENGINE RPM'') (Some Get_engine_rpm),
    obd_entry ''VEHICLE_SPEED'' 1 (Some (cstr ''km/h'')) (cstr ''010D'' @ [13]) (cstr ''VEHICLE SPEED'') (Some Get_vehicle_speed),
    obd_entry ''TIMING_ADVANCE'' 1 (Some ([0xC2, 0xB0] @ cstr '' before TDC'')) (cstr ''010E'' @ [13]) (cstr ''TIMING ADVANCE'') (Some Get_timing_advance),
    obd_entry ''INTAKE_AIR_TEMP_1'' 1 (Some ([0xC2, 0xB0] @ cstr '' Celsius'')) (cstr ''010F'' @ [13]) (cstr ''INTAKE AIR TEMP 1'') (Some Get_air_temp)]"

definition obd_cmds_hi :: "obd_cmd list" where
  "obd_cmds_hi = [
    obd_entry ''MAF_RATE'' 2 (Some (cstr ''g/s'')) (cstr ''0110'' @ [13]) (cstr ''MAF RATE'') (Some Get_maf_rate),
    obd_entry ''THROTTLE_POSITION_1'' 1 (Some (cstr ''%'')) (cstr ''0111'' @ [13]) (cstr ''THROTTLE POSITION 1'') (Some Get_throttle_pos),
    obd_entry ''COMMANDED_SECONDARY_AIR_STAT'' 1 (None) (cstr ''0112'' @ [13]) (cstr ''COMMANDED SECONDARY AIR STAT'') (None),
    obd_entry ''TOTAL_OXYGEN_SENSORS_2_BANKS'' 1 (Some (cstr ''Sensor(s)'')) (cstr ''0113'' @ [13]) (cstr ''TOTAL OXYGEN SENSORS 2 BANKS'') (Some Get_oxygen_sensors),
    obd_entry ''OXYGEN_SENSOR_1_2_BANK'' 2 (Some (cstr ''Volts'')) (cstr ''0114'' @ [13]) (cstr ''OXYGEN SENSOR 1 2 BANK'') (Some Get_oxygen_data),
    obd_entry ''OXYGEN_SENSOR_2_2_BANK'' 2 (Some (cstr ''Volts'')) (cstr ''0115'' @ [13]) (cstr ''OXYGEN SENSOR 2 2 BANK'') (Some Get_oxygen_data),
    obd_entry ''OXYGEN_SENSOR_3_2_BANK'' 2 (Some (cstr ''Volts'')) (cstr ''0116'' @ [13]) (cstr ''OXYGEN SENSOR 3 2 BANK'') (Some Get_oxygen_data),
    obd_entry ''OXYGEN_SENSOR_4_2_BANK'' 2 (Some (cstr ''Volts'')) (cstr ''0117'' @ [13]) (cstr ''OXYGEN SENSOR 4 2 BANK'') (Some Get_oxygen_data),
    obd_entry ''OXYGEN_SENSOR_5_2_BANK'' 2 (Some (cstr ''Volts'')) (cstr ''0118'' @ [13]) (cstr ''OXYGEN SENSOR 5 2 BANK'') (Some Get_oxygen_data),
    obd_entry ''OXYGEN_SENSOR_6_2_BANK'' 2 (Some (cstr ''Volts'')) (cstr ''0119'' @ [13]) (cstr ''OXYGEN SENSOR 6 2 BANK'') (Some Get_oxygen_data),
    obd_entry ''OXYGEN_SENSOR_7_2_BANK'' 2 (Some (cstr ''Volts'')) (cstr ''011A'' @ [13]) (cstr '' OXYGEN SENSOR 7 2 BANK'') (Some Get_oxygen_data),
    obd_entry ''OXYGEN_SENSOR_8_2_BANK'' 2 (Some (cstr ''Volts'')) (cstr ''011B'' @ [13]) (cstr ''OXYGEN SENSOR 8 2 BANK'') (Some Get_oxygen_data),
    obd_entry ''OBD_STANDARDS'' 1 (None) (cstr ''011C'' @ [13]) (cstr ''OBD STANDARDS'') (None),
    obd_entry ''TOTAL_OXYGEN_SENSORS_4_BANKS'' 1 (None) (cstr ''011D'' @ [13]) (cstr ''TOTAL OXYGEN SENSORS 4 BANKS'') (None),
    obd_entry ''AUXILIARY_INPUT_STATUS'' 1 (None) (cstr ''011E'' @ [13]) (cstr ''AUXILIARY INPUT STATUS'') (None),
    obd_entry ''RUN_TIME_ENGINE_START'' 2 (Some (cstr ''s'')) (cstr ''011F'' @ [13]) (cstr ''RUN TIME ENGINE START'') (None)]"

definition obd_cmds :: "obd_cmd list" where
  "obd_cmds = obd_cmds_lo @ obd_cmds_hi"

lemmas obd_cmds_defs = obd_cmds_def obd_cmds_lo_def obd_cmds_hi_def obd_entry_def

text \<open>The names in the table are the first 32 of the enumeration, in its order.\<close>

definition obd_cmd_names :: "string list" where
  "obd_cmd_names = take 32 obd_pids_lo"

lemma obd_pids_names: "obd_pids_lo = obd_cmd_names @ drop 32 obd_pids_lo"
  by (simp add: obd_cmd_names_def)

lemma takeWhile_index:
  "\<lbrakk>distinct xs; i < length xs\<rbrakk> \<Longrightarrow> length (takeWhile (\<lambda>x. x \<noteq> xs ! i) (xs @ ys)) = i"
proof (induction xs arbitrary: i)
  case Nil
  then show ?case by simp
next
  case (Cons x xs)
  then show ?case by (cases i) auto
qed

lemma obd_cmd_names_distinct: "distinct obd_cmd_names"
  by (simp add: obd_cmd_names_def obd_pids_lo_def)

lemma length_obd_cmd_names: "length obd_cmd_names = 32"
  by (simp add: obd_cmd_names_def obd_pids_lo_def)

lemma obd_pid_of_name: "i < 32 \<Longrightarrow> obd_pid_of (obd_cmd_names ! i) = of_nat i"
  unfolding obd_pid_of_def
  by (subst obd_pids_names, subst append_assoc)
    (simp add: takeWhile_index [OF obd_cmd_names_distinct] length_obd_cmd_names)

lemma obd_cmds_names: "map obd_pid obd_cmds = map obd_pid_of obd_cmd_names"
  by (simp add: obd_cmds_defs obd_cmd_names_def obd_pids_lo_def)

lemma obd_cmds_pids: "map obd_pid obd_cmds = map of_nat [0..<32]"
  unfolding obd_cmds_names
  by (rule nth_equalityI) (simp_all add: length_obd_cmd_names obd_pid_of_name)

lemma obd_text_literals:
  "map (\<lambda>s. cstr s @ [13]) [
    ''0100'', ''0101'', ''0102'', ''0103'',
    ''0104'', ''0105'', ''0106'', ''0107'',
    ''0108'', ''0109'', ''010A'', ''010B'',
    ''010C'', ''010D'', ''010E'', ''010F'',
    ''0110'', ''0111'', ''0112'', ''0113'',
    ''0114'', ''0115'', ''0116'', ''0117'',
    ''0118'', ''0119'', ''011A'', ''011B'',
    ''011C'', ''011D'', ''011E'', ''011F''] =
   map (\<lambda>i. cstr ''01'' @ hex_02 i @ [13]) [0..<32]"
  by code_simp

lemma obd_cmds_texts: "map obd_cmd_text obd_cmds = map (\<lambda>i. cstr ''01'' @ hex_02 i @ [13]) [0..<32]"
  unfolding obd_text_literals [symmetric] by (simp add: obd_cmds_defs)

section \<open>Properties\<close>

text \<open>The comments of the enumeration give the PIDs up to 94; from there on the enumerators are three
  less than the comments say, because the enumeration does not skip the unassigned 95 to 97.\<close>

theorem obd_pids_after_94:
  "obd_pid_of ''NOX_WARNGING'' = 0x94 \<and> obd_pid_of ''EXHAUST_TEMP_1'' = 0x95 \<and> obd_pid_of ''PIDS_SUPPORTED_A1_C0'' = 0x9D \<and>
   obd_pid_of ''ODOMETER'' = 0xA3"
  by code_simp

end
