(* ===== verification/Obd.thy ===== *)
theory Obd
  imports Elm Linked_List Obd_Table "HOL-Library.Signed_Division"
begin

text \<open>
  src/obd.c: requests to the vehicle through the ELM327 and the decoding of the answers.
  \<open>int\<close> has 16 bits: arithmetic on bytes is done in 16 bits (an overflow, undefined in C, wraps as
  avr-gcc compiles it) and \<open>%d\<close> prints the low 16 bits of an \<open>int32_t\<close>.
  The floating-point arithmetic and \<open>%.2f\<close> of the C library are a parameter: four operations on an
  arbitrary type of floats.
\<close>

section \<open>Decoding of the data bytes\<close>

record 'f float_ops =
  fl_of_int :: "int \<Rightarrow> 'f"
  fl_div :: "'f \<Rightarrow> int \<Rightarrow> 'f"
  fl_sub :: "'f \<Rightarrow> int \<Rightarrow> 'f"
  fl_fmt :: "'f \<Rightarrow> u8 list"

text \<open>\<open>fl_div x n\<close> is \<open>x / (n/100)\<close>: the divisors of the source are the literals 2.55 and 1.28.\<close>

definition int16 :: "int \<Rightarrow> int" where
  "int16 i = signed_take_bit 15 i"

definition fmt_d :: "int \<Rightarrow> u8 list" where
  "fmt_d calc = dec_int (int16 calc)"

definition obd_get_engine_load :: "'f float_ops \<Rightarrow> u8 list \<Rightarrow> u8 list" where
  "obd_get_engine_load fl res = fl_fmt fl (fl_div fl (fl_of_int fl (uint (res ! 2))) 255)"

definition obd_get_coolant_temp :: "u8 list \<Rightarrow> u8 list" where
  "obd_get_coolant_temp res = fmt_d (int16 (uint (res ! 2) - 40))"

definition obd_get_fuel_trim :: "'f float_ops \<Rightarrow> u8 list \<Rightarrow> u8 list" where
  "obd_get_fuel_trim fl res = fl_fmt fl (fl_sub fl (fl_div fl (fl_of_int fl (uint (res ! 2))) 128) 100)"

definition obd_get_fuel_pressure :: "u8 list \<Rightarrow> u8 list" where
  "obd_get_fuel_pressure res = fmt_d (int16 (uint (res ! 2) * 3))"

definition obd_get_manifold_pressure :: "u8 list \<Rightarrow> u8 list" where
  "obd_get_manifold_pressure res = fmt_d (uint (res ! 2))"

definition obd_get_engine_rpm :: "u8 list \<Rightarrow> u8 list" where
  "obd_get_engine_rpm res = fmt_d (int16 (int16 (uint (res ! 2) * 256) + uint (res ! 3)) sdiv 4)"

definition obd_get_vehicle_speed :: "u8 list \<Rightarrow> u8 list" where
  "obd_get_vehicle_speed res = fmt_d (uint (res ! 2))"

definition obd_get_timing_advance :: "u8 list \<Rightarrow> u8 list" where
  "obd_get_timing_advance res = fmt_d (int16 (uint (res ! 2) sdiv 2 - 64))"

definition obd_get_air_temp :: "u8 list \<Rightarrow> u8 list" where
  "obd_get_air_temp res = fmt_d (int16 (uint (res ! 2) - 40))"

definition obd_get_maf_rate :: "u8 list \<Rightarrow> u8 list" where
  "obd_get_maf_rate res = fmt_d (int16 (int16 (uint (res ! 2) * 256) + uint (res ! 3)) sdiv 100)"

definition obd_get_throttle_pos :: "'f float_ops \<Rightarrow> u8 list \<Rightarrow> u8 list" where
  "obd_get_throttle_pos fl res = fl_fmt fl (fl_div fl (fl_of_int fl (uint (res ! 2))) 255)"

definition obd_get_oxygen_sensors :: "u8 list \<Rightarrow> u8 list" where
  "obd_get_oxygen_sensors res =
    (let bank_1 = uint ((res ! 2) AND 15);
         bank_2 = uint (drop_bit 4 (res ! 2) AND 15)
     in fmt_d (bank_1 + bank_2))"

text \<open>The division is the integer one; its result is converted to a float.\<close>

definition obd_get_oxygen_data :: "'f float_ops \<Rightarrow> u8 list \<Rightarrow> u8 list" where
  "obd_get_oxygen_data fl res = fl_fmt fl (fl_of_int fl (uint (res ! 2) sdiv 200))"

section \<open>The supported PIDs\<close>

record obd_ctx =
  supported_devices :: u32
  linked_list :: addr

text \<open>\<open>img i\<close> are the \<open>sizeof (struct obd_cmd)\<close> bytes of \<open>obd_cmds[i]\<close> in memory; they hold the
  addresses of strings and handlers, which the linker chooses.\<close>

function set_ops_loop ::
  "(heap \<Rightarrow> addr) \<Rightarrow> (nat \<Rightarrow> u8 list) \<Rightarrow> u32 \<Rightarrow> nat \<Rightarrow> u32 \<Rightarrow> addr \<Rightarrow> heap \<Rightarrow> (addr \<times> heap) option" where
  "set_ops_loop malloc img res i msk p h =
    (if i < 0x20 then
       do {
         (p, h) \<leftarrow> (if res AND msk \<noteq> 0 then list_push_head malloc p (img i) h else Some (p, h));
         set_ops_loop malloc img res (i + 1) (drop_bit 1 msk) p h
       }
     else Some (p, h))"
  by pat_completeness auto
termination by (relation "measure (\<lambda>(_, _, _, i, _). 0x20 - i)") auto

declare set_ops_loop.simps [simp del]

definition obd_set_supported_ops ::
  "(heap \<Rightarrow> addr) \<Rightarrow> (nat \<Rightarrow> u8 list) \<Rightarrow> u32 \<Rightarrow> obd_ctx \<Rightarrow> heap \<Rightarrow> (obd_ctx \<times> heap) option" where
  "obd_set_supported_ops malloc img res ctx h =
    do {
      (p, h) \<leftarrow> set_ops_loop malloc img res 1 0x80000000 0 h;
      Some (ctx\<lparr>linked_list := p\<rparr>, h)
    }"

section \<open>Requests\<close>

definition NO_DATA :: "u8 list" where "NO_DATA = cstr ''NO DATA''"
definition NO_CONNECT :: "u8 list" where "NO_CONNECT = cstr ''UNABLE TO CONNECT''"
definition OBD_CMD_LEN :: nat where "OBD_CMD_LEN = 4 + 1"

text \<open>\<open>obd_resp\<close>: where the data begins in the buffer.\<close>

definition obd_resp :: "u8 list \<Rightarrow> u8 list \<Rightarrow> nat option" where
  "obd_resp cmd buf =
    (if c_strlen cmd \<noteq> OBD_CMD_LEN then None
     else let pream = take 2 cmd @ [0];
              pream = take 2 (hex_02 (nat (0x40 + c_strtol16 pream)))
          in c_strstr buf pream)"

text \<open>\<open>obd_fmt_resp\<close> works in place: the hexadecimal digits move to the front.\<close>

function obd_fmt_loop :: "nat \<Rightarrow> nat \<Rightarrow> u8 list \<Rightarrow> nat \<times> u8 list" where
  "obd_fmt_loop i n str =
    (if i < c_strlen str then
       if c_isspace (str ! i) then obd_fmt_loop (i + 1) n str
       else if c_isxdigit (str ! i) then obd_fmt_loop (i + 1) (n + 1) (str[n := str ! i])
       else obd_fmt_loop (i + 1) n str
     else (n, str))"
  by pat_completeness auto

termination
  by (relation "measure (\<lambda>(i, n, str). length str - i)")
    (auto intro: diff_less_mono2 order.strict_trans2 [OF _ c_strlen_le])

declare obd_fmt_loop.simps [simp del]

definition obd_fmt_resp :: "u8 list \<Rightarrow> int \<times> u8 list" where
  "obd_fmt_resp str =
    (let (n, str) = obd_fmt_loop 0 0 str;
         str = str[n := 0]
     in if c_strlen str mod 2 \<noteq> 0 then (- 1, str) else (0, str))"

text \<open>The conversion of the digits, two for a byte, into the caller's memory \<open>ret\<close>. Neither the
  argument \<open>size\<close> nor the size of that buffer bounds it: an answer that is longer than the memory listed
  has no result (\<open>None\<close>).\<close>

definition obd_byte :: "u8 list \<Rightarrow> nat \<Rightarrow> u8" where
  "obd_byte data i = word_of_int (c_strtol16 [data ! (i * 2), data ! (i * 2 + 1), 0])"

definition obd_store :: "u8 list \<Rightarrow> u8 list \<Rightarrow> u8 list option" where
  "obd_store data ret =
    (if c_strlen data div 2 \<le> length ret
     then Some (fold (\<lambda>i ret. ret[i := obd_byte data i]) [0..<c_strlen data div 2] ret)
     else None)"

text \<open>\<open>buf\<close> is the stack memory from the local array of 64 bytes on, \<open>dat\<close> the memory from the caller's
  buffer on.\<close>

definition obd_command ::
  "('e \<Rightarrow> u8 list \<times> 'e) \<Rightarrow> u8 list \<Rightarrow> u8 list \<Rightarrow> u8 list \<Rightarrow> nat \<Rightarrow> 'e elm_world \<Rightarrow>
    (int \<times> u8 list \<times> 'e elm_world) option" where
  "obd_command rx buf cmd dat sz w =
    (if c_strlen cmd \<noteq> OBD_CMD_LEN then Some (- 1, dat, w)
     else do {
       (r, buf, w) \<leftarrow> elm_command rx cmd buf 64 w;
       if r < 0 then Some (- 1, dat, w)
       else if c_strstr buf NO_DATA \<noteq> None \<or> c_strstr buf NO_CONNECT \<noteq> None then Some (- 1, dat, w)
       else case obd_resp cmd buf of
         None \<Rightarrow> Some (- 1, dat, w)
       | Some off \<Rightarrow>
           let (r, data) = obd_fmt_resp (drop off buf)
           in if r < 0 then Some (- 1, dat, w) else do { dat \<leftarrow> obd_store data dat; Some (0, dat, w) }
     })"

text \<open>\<open>initialize_obd\<close>: \<open>dat\<close> is its local array. The bytes are widened before they are shifted.\<close>

definition initialize_obd ::
  "('e \<Rightarrow> u8 list \<times> 'e) \<Rightarrow> (heap \<Rightarrow> addr) \<Rightarrow> (nat \<Rightarrow> u8 list) \<Rightarrow> u8 list \<Rightarrow> u8 list \<Rightarrow> obd_ctx \<Rightarrow> heap \<Rightarrow>
    'e elm_world \<Rightarrow> (int \<times> obd_ctx \<times> heap \<times> 'e elm_world) option" where
  "initialize_obd rx malloc img buf dat ctx h w =
    do {
      (r, dat, w) \<leftarrow> obd_command rx buf (obd_cmd_text (obd_cmds ! 0)) dat 32 w;
      if r < 0 then Some (- 1, ctx, h, w)
      else do {
        res \<leftarrow> Some (push_bit 24 (ucast (dat ! 2)) OR push_bit 16 (ucast (dat ! 3)) OR
          push_bit 8 (ucast (dat ! 4)) OR ucast (dat ! 5));
        (ctx, h) \<leftarrow> obd_set_supported_ops malloc img res ctx h;
        list_dump (linked_list ctx) h;
        Some (0, ctx, h, w)
      }
    }"

end
