(* ===== verification/I2c.thy ===== *)
theory I2c
  imports Prelude
begin

text \<open>
  src/i2c.c: the two-wire interface of the microcontroller as bus master. The hardware is a parameter:
  after a write of the control register it works until it sets TWINT (\<open>None\<close> when it never does, and the
  code's busy loop hangs) and then shows a status and a data register. The record \<open>twi\<close> keeps the data
  register, the hardware's state and the sequence of the control register writes, each with the data
  register at that moment: what the bus gets to see.
\<close>

section \<open>Registers\<close>

record 'h twi =
  tw_dr :: u8
  tw_sr :: u8
  tw_br :: u8
  tw_log :: "(u8 \<times> u8) list"
  tw_hw :: 'h

text \<open>What the hardware does on a command that sets TWINT when it is done, and on a STOP, which does not.\<close>

record 'h twi_hw =
  twi_exec :: "u8 \<Rightarrow> u8 \<Rightarrow> 'h \<Rightarrow> (u8 \<times> u8 \<times> 'h) option"
  twi_release :: "'h \<Rightarrow> 'h"

definition TWINT :: nat where "TWINT = 7"
definition TWEA :: nat where "TWEA = 6"
definition TWSTA :: nat where "TWSTA = 5"
definition TWSTO :: nat where "TWSTO = 4"
definition TWEN :: nat where "TWEN = 2"

definition TW_RUN :: u8 where "TW_RUN = push_bit TWINT 1 OR push_bit TWEN 1"
definition TW_START :: u8 where "TW_START = push_bit TWINT 1 OR push_bit TWEN 1 OR push_bit TWSTA 1"
definition TW_ACK :: u8 where "TW_ACK = push_bit TWINT 1 OR push_bit TWEN 1 OR push_bit TWEA 1"
definition TW_STOP :: u8 where "TW_STOP = push_bit TWINT 1 OR push_bit TWEN 1 OR push_bit TWSTO 1"

text \<open>A write of TWCR, the wait for TWINT, and \<open>status = TWSR & 0xf8\<close>.\<close>

definition twi_run :: "'h twi_hw \<Rightarrow> u8 \<Rightarrow> 'h twi \<Rightarrow> (u8 \<times> 'h twi) option" where
  "twi_run hw cr w =
    do {
      (sr, dr, h) \<leftarrow> twi_exec hw cr (tw_dr w) (tw_hw w);
      Some (sr AND 0xf8, w\<lparr>tw_dr := dr, tw_sr := sr, tw_log := tw_log w @ [(cr, tw_dr w)], tw_hw := h\<rparr>)
    }"

text \<open>The STOP condition is not waited for.\<close>

definition twi_stop :: "'h twi_hw \<Rightarrow> 'h twi \<Rightarrow> 'h twi" where
  "twi_stop hw w = w\<lparr>tw_log := tw_log w @ [(TW_STOP, tw_dr w)], tw_hw := twi_release hw (tw_hw w)\<rparr>"

section \<open>i2c_io\<close>

text \<open>How a part of the function ends: it goes on, jumps to \<open>nakstop\<close>, or returns.\<close>

datatype i2c_exit = Go | Nakstop u8 | Return u8

text \<open>The two loops over the \<open>an\<close> bytes at \<open>ap\<close> and the \<open>wn\<close> bytes at \<open>wp\<close>.\<close>

fun i2c_send_bytes :: "'h twi_hw \<Rightarrow> u8 list \<Rightarrow> 'h twi \<Rightarrow> (i2c_exit \<times> 'h twi) option" where
  "i2c_send_bytes hw [] w = Some (Go, w)"
| "i2c_send_bytes hw (b # bs) w =
    do {
      (status, w) \<leftarrow> twi_run hw TW_RUN (w\<lparr>tw_dr := b\<rparr>);
      if status \<noteq> 0x28 then Some (if status = 0x30 then Nakstop status else Return status, w)
      else i2c_send_bytes hw bs w
    }"

text \<open>START and the address byte.\<close>

definition i2c_address ::
  "'h twi_hw \<Rightarrow> u8 \<Rightarrow> u8 \<Rightarrow> u8 \<Rightarrow> u8 \<Rightarrow> 'h twi \<Rightarrow> (i2c_exit \<times> 'h twi) option" where
  "i2c_address hw start_stat byte ack nak w =
    do {
      (status, w) \<leftarrow> twi_run hw TW_START w;
      if status \<noteq> start_stat then Some (Return status, w)
      else do {
        (status, w) \<leftarrow> twi_run hw TW_RUN (w\<lparr>tw_dr := byte\<rparr>);
        if status \<noteq> ack then Some (if status = nak then Nakstop status else Return status, w)
        else Some (Go, w)
      }
    }"

definition i2c_write_part ::
  "'h twi_hw \<Rightarrow> u8 \<Rightarrow> u8 list \<Rightarrow> u8 list \<Rightarrow> 'h twi \<Rightarrow> (i2c_exit \<times> 'h twi) option" where
  "i2c_write_part hw device_addr ap wp w =
    do {
      (x, w) \<leftarrow> i2c_address hw 0x08 (device_addr AND 0xfe) 0x18 0x20 w;
      if x \<noteq> Go then Some (x, w)
      else do {
        (x, w) \<leftarrow> i2c_send_bytes hw ap w;
        if x \<noteq> Go then Some (x, w) else i2c_send_bytes hw wp w
      }
    }"

text \<open>All bytes but the last are acknowledged; \<open>rp\<close> is the caller's memory, \<open>i\<close> the position in it.\<close>

fun i2c_read_bytes :: "'h twi_hw \<Rightarrow> nat \<Rightarrow> nat \<Rightarrow> u8 list \<Rightarrow> 'h twi \<Rightarrow> (i2c_exit \<times> u8 list \<times> 'h twi) option" where
  "i2c_read_bytes hw 0 i rp w =
    do {
      (status, w) \<leftarrow> twi_run hw TW_RUN w;
      if status \<noteq> 0x58 then Some (Return status, rp, w) else Some (Go, rp[i := tw_dr w], w)
    }"
| "i2c_read_bytes hw (Suc rn) i rp w =
    do {
      (status, w) \<leftarrow> twi_run hw TW_ACK w;
      if status \<noteq> 0x50 then Some (Return status, rp, w)
      else i2c_read_bytes hw rn (Suc i) (rp[i := tw_dr w]) w
    }"

definition i2c_read_part ::
  "'h twi_hw \<Rightarrow> u8 \<Rightarrow> bool \<Rightarrow> nat \<Rightarrow> u8 list \<Rightarrow> 'h twi \<Rightarrow> (i2c_exit \<times> u8 list \<times> 'h twi) option" where
  "i2c_read_part hw device_addr wrote rn rp w =
    do {
      (x, w) \<leftarrow> i2c_address hw (if wrote then 0x10 else 0x08) (device_addr OR 0x01) 0x40 0x48 w;
      if x \<noteq> Go then Some (x, rp, w) else i2c_read_bytes hw (rn - 1) 0 rp w
    }"

text \<open>The label \<open>nakstop\<close> and the end of the function; \<open>send_stop\<close> says whether a transfer was begun.\<close>

definition i2c_finish :: "'h twi_hw \<Rightarrow> bool \<Rightarrow> i2c_exit \<times> u8 list \<times> 'h twi \<Rightarrow> u8 \<times> u8 list \<times> 'h twi" where
  "i2c_finish hw send_stop r =
    (case r of (x, rp, w) \<Rightarrow>
       case x of
         Return status \<Rightarrow> (status, rp, w)
       | Nakstop status \<Rightarrow> (status, rp, twi_stop hw w)
       | Go \<Rightarrow> (0, rp, if send_stop then twi_stop hw w else w))"

definition i2c_io ::
  "'h twi_hw \<Rightarrow> u8 \<Rightarrow> u8 list \<Rightarrow> u8 list \<Rightarrow> nat \<Rightarrow> u8 list \<Rightarrow> 'h twi \<Rightarrow> (u8 \<times> u8 list \<times> 'h twi) option" where
  "i2c_io hw device_addr ap wp rn rp w =
    (let wrote = (0 < length ap \<or> 0 < length wp)
     in do {
       (x, w) \<leftarrow> (if wrote then i2c_write_part hw device_addr ap wp w else Some (Go, w));
       r \<leftarrow> (if x = Go \<and> 0 < rn then i2c_read_part hw device_addr wrote rn rp w else Some (x, rp, w));
       Some (i2c_finish hw (wrote \<or> 0 < rn) r)
     })"

definition initialize_i2c :: "'h twi \<Rightarrow> 'h twi" where
  "initialize_i2c w = w\<lparr>tw_sr := 0, tw_br := 200\<rparr>"

section \<open>The transfer the bus is meant to see\<close>

text \<open>One step of a transfer: the value for the control register, the byte in the data register where one is
  sent, the status the hardware shows when the step succeeded, and the status of a slave's NAK where the code has a
  case for it.\<close>

record i2c_step =
  is_write :: "u8 \<times> u8 option"
  is_good :: u8
  is_nak :: "u8 option"

text \<open>A complete transfer: START, address and bytes; (repeated) START, address, all bytes but the last with an
  acknowledge, and the last one.\<close>

definition i2c_addressing :: "u8 \<Rightarrow> u8 \<Rightarrow> u8 \<Rightarrow> u8 \<Rightarrow> i2c_step list" where
  "i2c_addressing start byte ack nak =
    [\<lparr>is_write = (TW_START, None), is_good = start, is_nak = None\<rparr>, \<lparr>is_write = (TW_RUN, Some byte), is_good = ack, is_nak = Some nak\<rparr>]"

definition i2c_data :: "u8 list \<Rightarrow> i2c_step list" where
  "i2c_data = map (\<lambda>b. \<lparr>is_write = (TW_RUN, Some b), is_good = 0x28, is_nak = Some 0x30\<rparr>)"

definition i2c_reads :: "nat \<Rightarrow> i2c_step list" where
  "i2c_reads n = replicate n \<lparr>is_write = (TW_ACK, None), is_good = 0x50, is_nak = None\<rparr> @
    [\<lparr>is_write = (TW_RUN, None), is_good = 0x58, is_nak = None\<rparr>]"

definition i2c_transfer :: "u8 \<Rightarrow> u8 list \<Rightarrow> nat \<Rightarrow> i2c_step list" where
  "i2c_transfer a bs rn =
    (if bs = [] then [] else i2c_addressing 0x08 (a AND 0xfe) 0x18 0x20 @ i2c_data bs) @
    (if rn = 0 then [] else i2c_addressing (if bs = [] then 0x08 else 0x10) (a OR 1) 0x40 0x48 @ i2c_reads (rn - 1))"

text \<open>A sequence of control register writes is the one of some steps; and what the hardware answers to it.\<close>

fun log_matches :: "(u8 \<times> u8 option) list \<Rightarrow> (u8 \<times> u8) list \<Rightarrow> bool" where
  "log_matches [] [] \<longleftrightarrow> True"
| "log_matches ((c, d) # ts) ((c', d') # es) \<longleftrightarrow> c = c' \<and> (d = None \<or> d = Some d') \<and> log_matches ts es"
| "log_matches _ _ \<longleftrightarrow> False"

fun hw_answers :: "'h twi_hw \<Rightarrow> (u8 \<times> u8) list \<Rightarrow> 'h \<Rightarrow> (u8 list \<times> 'h) option" where
  "hw_answers hw [] h = Some ([], h)"
| "hw_answers hw ((c, d) # es) h =
    do { (sr, _, h) \<leftarrow> twi_exec hw c d h; (ss, h) \<leftarrow> hw_answers hw es h; Some ((sr AND 0xf8) # ss, h) }"

text \<open>The steps one after the other, up to the first that does not succeed: what the parts of the code amount to.\<close>

definition step_load :: "i2c_step \<Rightarrow> 'h twi \<Rightarrow> 'h twi" where
  "step_load t w = (case snd (is_write t) of None \<Rightarrow> w | Some b \<Rightarrow> w\<lparr>tw_dr := b\<rparr>)"

definition step_exit :: "i2c_step \<Rightarrow> u8 \<Rightarrow> i2c_exit" where
  "step_exit t st = (if is_nak t = Some st then Nakstop st else Return st)"

fun i2c_play :: "'h twi_hw \<Rightarrow> i2c_step list \<Rightarrow> 'h twi \<Rightarrow> (i2c_exit \<times> 'h twi) option" where
  "i2c_play hw [] w = Some (Go, w)"
| "i2c_play hw (t # ts) w =
    do {
      (st, w) \<leftarrow> twi_run hw (fst (is_write t)) (step_load t w);
      if st \<noteq> is_good t then Some (step_exit t st, w) else i2c_play hw ts w
    }"

lemma step_exit_Go [simp]: "step_exit t st \<noteq> Go"
  by (simp add: step_exit_def)

lemma play_append:
  "i2c_play hw (ts @ us) w =
    do { (x, w) \<leftarrow> i2c_play hw ts w; if x \<noteq> Go then Some (x, w) else i2c_play hw us w }"
  by (induction ts arbitrary: w) (auto split: bind_splits)

lemma play_data: "i2c_send_bytes hw bs w = i2c_play hw (i2c_data bs) w"
  by (induction bs arbitrary: w) (simp_all add: i2c_data_def step_load_def step_exit_def cong: if_cong)

lemma play_address: "i2c_address hw ss byte ack nak w = i2c_play hw (i2c_addressing ss byte ack nak) w"
  by (cases "twi_run hw TW_START w") (auto simp: i2c_address_def i2c_addressing_def step_load_def step_exit_def split: bind_splits)

lemma play_write: "i2c_write_part hw a ap wp w = i2c_play hw (i2c_addressing 0x08 (a AND 0xfe) 0x18 0x20 @ i2c_data (ap @ wp)) w"
proof -
  have d: "i2c_data (ap @ wp) = i2c_data ap @ i2c_data wp" by (simp add: i2c_data_def)
  show ?thesis unfolding i2c_write_part_def play_data play_address d play_append by simp
qed

lemma play_reads: "map_option (\<lambda>(x, _, w). (x, w)) (i2c_read_bytes hw n i rp w) = i2c_play hw (i2c_reads n) w"
proof (induction n arbitrary: i rp w)
  case 0
  then show ?case
    by (cases "twi_run hw TW_RUN w") (auto simp: i2c_reads_def step_load_def step_exit_def)
next
  case (Suc n)
  then show ?case
    by (cases "twi_run hw TW_ACK w") (auto simp: i2c_reads_def step_load_def step_exit_def)
qed

lemma play_read:
  "map_option (\<lambda>(x, _, w). (x, w)) (i2c_read_part hw a wrote rn rp w) =
    i2c_play hw (i2c_addressing (if wrote then 0x10 else 0x08) (a OR 1) 0x40 0x48 @ i2c_reads (rn - 1)) w"
  unfolding i2c_read_part_def play_address play_append
  by (cases "i2c_play hw (i2c_addressing (if wrote then 0x10 else 0x08) (a OR 1) 0x40 0x48) w") (auto simp: play_reads)

text \<open>The whole function: the transfer is played, then comes the end.\<close>

definition i2c_end :: "'h twi_hw \<Rightarrow> bool \<Rightarrow> i2c_exit \<Rightarrow> 'h twi \<Rightarrow> u8 \<Rightarrow> 'h twi \<Rightarrow> bool" where
  "i2c_end hw begun x w1 st w' \<longleftrightarrow>
    (case x of Return s \<Rightarrow> st = s \<and> w' = w1 | Nakstop s \<Rightarrow> st = s \<and> w' = twi_stop hw w1
     | Go \<Rightarrow> st = 0 \<and> w' = (if begun then twi_stop hw w1 else w1))"

lemma finish_end: "i2c_finish hw begun (x, rp, w1) = (st, rp', w') \<Longrightarrow> i2c_end hw begun x w1 st w'"
  by (cases x) (auto simp: i2c_finish_def i2c_end_def)

lemma i2c_io_plays:
  assumes "i2c_io hw a ap wp rn rp w = Some (st, rp', w')"
  shows "\<exists>x w1. i2c_play hw (i2c_transfer a (ap @ wp) rn) w = Some (x, w1) \<and> i2c_end hw (ap @ wp \<noteq> [] \<or> 0 < rn) x w1 st w'"
proof -
  let ?wrote = "0 < length ap \<or> 0 < length wp"
  let ?s = "if ap @ wp = [] then [] else i2c_addressing 0x08 (a AND 0xfe) 0x18 0x20 @ i2c_data (ap @ wp)"
  let ?r = "if rn = 0 then [] else i2c_addressing (if ap @ wp = [] then 0x08 else 0x10) (a OR 1) 0x40 0x48 @ i2c_reads (rn - 1)"
  have tr: "i2c_transfer a (ap @ wp) rn = ?s @ ?r" by (simp only: i2c_transfer_def)
  have wr: "?wrote \<longleftrightarrow> ap @ wp \<noteq> []" by auto
  have 0: "(if ?wrote then i2c_write_part hw a ap wp w else Some (Go, w)) = i2c_play hw ?s w"
    by (auto simp: play_write)
  obtain x1 w1 where 1: "i2c_play hw ?s w = Some (x1, w1)"
    using assms unfolding i2c_io_def Let_def 0 by (cases "i2c_play hw ?s w") auto
  obtain x2 rp2 w2 where 2: "(if x1 = Go \<and> 0 < rn then i2c_read_part hw a ?wrote rn rp w1 else Some (x1, rp, w1)) = Some (x2, rp2, w2)"
    using assms unfolding i2c_io_def Let_def 0 1 bind.bind_lunit prod.case
    by (cases "if x1 = Go \<and> 0 < rn then i2c_read_part hw a ?wrote rn rp w1 else Some (x1, rp, w1)")
      (simp_all split del: if_split, blast intro: prod_cases3)
  have fin: "i2c_finish hw (?wrote \<or> 0 < rn) (x2, rp2, w2) = (st, rp', w')"
    using assms unfolding i2c_io_def Let_def 0 1 bind.bind_lunit prod.case 2 by simp
  have "i2c_play hw (?s @ ?r) w = Some (x2, w2)"
  proof (cases "x1 = Go \<and> 0 < rn")
    case True
    with 2 have "i2c_read_part hw a ?wrote rn rp w1 = Some (x2, rp2, w2)" by simp
    then have "map_option (\<lambda>(x, _, w). (x, w)) (i2c_read_part hw a ?wrote rn rp w1) = Some (x2, w2)" by simp
    then have "i2c_play hw ?r w1 = Some (x2, w2)" using True unfolding play_read by (cases "ap @ wp = []") auto
    with 1 True show ?thesis unfolding play_append by simp
  next
    case False
    with 2 have e: "x2 = x1" "w2 = w1" by (auto split: if_splits)
    show ?thesis
    proof (cases "x1 = Go")
      case True
      with False have "rn = 0" by simp
      with 1 e True show ?thesis by simp
    next
      case ne: False
      with 1 e show ?thesis unfolding play_append by simp
    qed
  qed
  with finish_end [OF fin] show ?thesis unfolding tr by (auto simp del: length_greater_0_conv simp: wr [simplified])
qed

text \<open>How far a play comes: through all steps with the good statuses, or up to a step with another status.\<close>

definition played :: "'h twi_hw \<Rightarrow> i2c_step list \<Rightarrow> i2c_exit \<Rightarrow> 'h twi \<Rightarrow> 'h twi \<Rightarrow> bool" where
  "played hw ts x w w1 \<longleftrightarrow> (\<exists>es ss. tw_log w1 = tw_log w @ es \<and> hw_answers hw es (tw_hw w) = Some (ss, tw_hw w1) \<and>
     log_matches (map is_write (take (length es) ts)) es \<and>
     (if x = Go then ss = map is_good ts
      else \<exists>k < length ts. \<exists>st. length es = Suc k \<and> ss = map is_good (take k ts) @ [st] \<and> st \<noteq> is_good (ts ! k) \<and>
        x = step_exit (ts ! k) st))"

lemma play_played: "i2c_play hw ts w = Some (x, w1) \<Longrightarrow> played hw ts x w w1"
proof (induction ts arbitrary: w)
  case Nil
  then show ?case by (auto simp: played_def intro!: exI [of _ "[]"])
next
  case (Cons t ts)
  obtain c b where t: "is_write t = (c, b)" by (cases "is_write t")
  from Cons.prems obtain st w2 where run: "twi_run hw c (step_load t w) = Some (st, w2)"
    and rest: "(if st \<noteq> is_good t then Some (step_exit t st, w2) else i2c_play hw ts w2) = Some (x, w1)"
    by (auto simp: t bind_eq_Some_conv)
  define d where "d = tw_dr (step_load t w)"
  have l: "tw_log (step_load t w) = tw_log w" "tw_hw (step_load t w) = tw_hw w" "b = None \<or> b = Some d"
    by (auto simp: step_load_def d_def t split: option.splits)
  from run obtain sr dr h where e: "twi_exec hw c d (tw_hw w) = Some (sr, dr, h)" "st = sr AND 0xf8"
    "tw_log w2 = tw_log w @ [(c, d)]" "tw_hw w2 = h"
    by (auto simp: twi_run_def bind_eq_Some_conv l d_def [symmetric])
  show ?case
  proof (cases "st = is_good t")
    case False
    with rest have x: "x = step_exit t st" "w1 = w2" by simp_all
    show ?thesis unfolding played_def
      by (rule exI [of _ "[(c, d)]"], rule exI [of _ "[st]"]) (use e l(3) x False t in \<open>auto intro!: exI [of _ 0]\<close>)
  next
    case True
    with rest have "i2c_play hw ts w2 = Some (x, w1)" by simp
    from Cons.IH [OF this] obtain es ss where i: "tw_log w1 = tw_log w2 @ es" "hw_answers hw es (tw_hw w2) = Some (ss, tw_hw w1)"
      "log_matches (map is_write (take (length es) ts)) es"
      "if x = Go then ss = map is_good ts
       else \<exists>k < length ts. \<exists>st. length es = Suc k \<and> ss = map is_good (take k ts) @ [st] \<and> st \<noteq> is_good (ts ! k) \<and>
         x = step_exit (ts ! k) st"
      unfolding played_def by blast
    have "tw_log w1 = tw_log w @ (c, d) # es" "hw_answers hw ((c, d) # es) (tw_hw w) = Some (st # ss, tw_hw w1)"
      "log_matches (map is_write (take (length ((c, d) # es)) (t # ts))) ((c, d) # es)"
      using i(1-3) e l(3) t by simp_all
    moreover have "if x = Go then st # ss = map is_good (t # ts)
       else \<exists>k < length (t # ts). \<exists>s. length ((c, d) # es) = Suc k \<and> st # ss = map is_good (take k (t # ts)) @ [s] \<and>
         s \<noteq> is_good ((t # ts) ! k) \<and> x = step_exit ((t # ts) ! k) s"
    proof (cases "x = Go")
      case True
      with i(4) \<open>st = is_good t\<close> show ?thesis by simp
    next
      case False
      with i(4) obtain k s where "k < length ts" "length es = Suc k" "ss = map is_good (take k ts) @ [s]" "s \<noteq> is_good (ts ! k)"
        "x = step_exit (ts ! k) s" by auto
      with False \<open>st = is_good t\<close> show ?thesis by (auto intro!: exI [of _ "Suc k"])
    qed
    ultimately show ?thesis unfolding played_def by blast
  qed
qed

section \<open>A bus that answers\<close>

text \<open>The documented answers of the hardware when the addressed slave acknowledges everything: the view is
  the state of the bus, the bytes the slave has received, and the bytes it has to send.\<close>

datatype tw_mode = TW_idle | TW_started | TW_transmit | TW_receive

type_synonym 'h tw_view = "'h \<Rightarrow> tw_mode \<times> u8 list \<times> u8 list"

definition tw_answers :: "'h twi_hw \<Rightarrow> 'h tw_view \<Rightarrow> u8 \<Rightarrow> u8 \<Rightarrow> 'h \<Rightarrow> u8 \<Rightarrow> u8 \<Rightarrow> tw_mode \<times> u8 list \<times> u8 list \<Rightarrow> bool" where
  "tw_answers hw view cr d h st d' v \<longleftrightarrow> (\<exists>sr h'. twi_exec hw cr d h = Some (sr, d', h') \<and> sr AND 0xf8 = st \<and> view h' = v)"

definition twi_conforms :: "'h twi_hw \<Rightarrow> 'h tw_view \<Rightarrow> bool" where
  "twi_conforms hw view \<longleftrightarrow> (\<forall>h d. case view h of (m, r, s) \<Rightarrow>
    view (twi_release hw h) = (TW_idle, r, s) \<and>
    (m = TW_idle \<longrightarrow> tw_answers hw view TW_START d h 0x08 d (TW_started, r, s)) \<and>
    (m = TW_transmit \<longrightarrow> tw_answers hw view TW_START d h 0x10 d (TW_started, r, s) \<and>
       tw_answers hw view TW_RUN d h 0x28 d (TW_transmit, r @ [d], s)) \<and>
    (m = TW_started \<and> bit d 0 \<longrightarrow> tw_answers hw view TW_RUN d h 0x40 d (TW_receive, r, s)) \<and>
    (m = TW_started \<and> \<not> bit d 0 \<longrightarrow> tw_answers hw view TW_RUN d h 0x18 d (TW_transmit, r, s)) \<and>
    (m = TW_receive \<and> s \<noteq> [] \<longrightarrow>
       tw_answers hw view TW_ACK d h 0x50 (hd s) (TW_receive, r, tl s) \<and>
       tw_answers hw view TW_RUN d h 0x58 (hd s) (TW_receive, r, tl s)))"

lemma twi_run_answers:
  "tw_answers hw view cr (tw_dr w) (tw_hw w) st d' v \<Longrightarrow>
    \<exists>w'. twi_run hw cr w = Some (st, w') \<and> tw_dr w' = d' \<and> view (tw_hw w') = v"
  by (auto simp: tw_answers_def twi_run_def)

lemma twi_conformsD:
  assumes "twi_conforms hw view" and "view (tw_hw w) = (m, r, s)"
  shows "m = TW_idle \<Longrightarrow> \<exists>w'. twi_run hw TW_START w = Some (0x08, w') \<and> view (tw_hw w') = (TW_started, r, s)"
    and "m = TW_transmit \<Longrightarrow> \<exists>w'. twi_run hw TW_START w = Some (0x10, w') \<and> view (tw_hw w') = (TW_started, r, s)"
    and "m = TW_transmit \<Longrightarrow> \<exists>w'. twi_run hw TW_RUN w = Some (0x28, w') \<and> view (tw_hw w') = (TW_transmit, r @ [tw_dr w], s)"
    and "\<lbrakk>m = TW_started; \<not> bit (tw_dr w) 0\<rbrakk> \<Longrightarrow> \<exists>w'. twi_run hw TW_RUN w = Some (0x18, w') \<and> view (tw_hw w') = (TW_transmit, r, s)"
    and "\<lbrakk>m = TW_started; bit (tw_dr w) 0\<rbrakk> \<Longrightarrow> \<exists>w'. twi_run hw TW_RUN w = Some (0x40, w') \<and> view (tw_hw w') = (TW_receive, r, s)"
    and "\<lbrakk>m = TW_receive; s \<noteq> []\<rbrakk> \<Longrightarrow> \<exists>w'. twi_run hw TW_ACK w = Some (0x50, w') \<and> tw_dr w' = hd s \<and> view (tw_hw w') = (TW_receive, r, tl s)"
    and "\<lbrakk>m = TW_receive; s \<noteq> []\<rbrakk> \<Longrightarrow> \<exists>w'. twi_run hw TW_RUN w = Some (0x58, w') \<and> tw_dr w' = hd s \<and> view (tw_hw w') = (TW_receive, r, tl s)"
proof -
  note c = spec [OF spec [OF assms(1) [unfolded twi_conforms_def], of "tw_hw w"], of "tw_dr w", unfolded assms(2) prod.case]
  show "m = TW_idle \<Longrightarrow> \<exists>w'. twi_run hw TW_START w = Some (0x08, w') \<and> view (tw_hw w') = (TW_started, r, s)"
    using c twi_run_answers by blast
  show "m = TW_transmit \<Longrightarrow> \<exists>w'. twi_run hw TW_START w = Some (0x10, w') \<and> view (tw_hw w') = (TW_started, r, s)"
    using c twi_run_answers by blast
  show "m = TW_transmit \<Longrightarrow> \<exists>w'. twi_run hw TW_RUN w = Some (0x28, w') \<and> view (tw_hw w') = (TW_transmit, r @ [tw_dr w], s)"
    using c twi_run_answers by blast
  show "\<lbrakk>m = TW_started; \<not> bit (tw_dr w) 0\<rbrakk> \<Longrightarrow> \<exists>w'. twi_run hw TW_RUN w = Some (0x18, w') \<and> view (tw_hw w') = (TW_transmit, r, s)"
    using c twi_run_answers by blast
  show "\<lbrakk>m = TW_started; bit (tw_dr w) 0\<rbrakk> \<Longrightarrow> \<exists>w'. twi_run hw TW_RUN w = Some (0x40, w') \<and> view (tw_hw w') = (TW_receive, r, s)"
    using c twi_run_answers by blast
  show "\<lbrakk>m = TW_receive; s \<noteq> []\<rbrakk> \<Longrightarrow> \<exists>w'. twi_run hw TW_ACK w = Some (0x50, w') \<and> tw_dr w' = hd s \<and> view (tw_hw w') = (TW_receive, r, tl s)"
    using c twi_run_answers by blast
  show "\<lbrakk>m = TW_receive; s \<noteq> []\<rbrakk> \<Longrightarrow> \<exists>w'. twi_run hw TW_RUN w = Some (0x58, w') \<and> tw_dr w' = hd s \<and> view (tw_hw w') = (TW_receive, r, tl s)"
    using c twi_run_answers by blast
qed

lemma twi_conforms_stop:
  assumes "twi_conforms hw view" and "view (tw_hw w) = (m, r, s)"
  shows "view (tw_hw (twi_stop hw w)) = (TW_idle, r, s)"
  using spec [OF spec [OF assms(1) [unfolded twi_conforms_def], of "tw_hw w"], of "tw_dr w", unfolded assms(2) prod.case]
  by (simp add: twi_stop_def)

lemma send_bytes_conf:
  "\<lbrakk>twi_conforms hw view; view (tw_hw w) = (TW_transmit, r, s)\<rbrakk> \<Longrightarrow>
    \<exists>w'. i2c_send_bytes hw bs w = Some (Go, w') \<and> view (tw_hw w') = (TW_transmit, r @ bs, s)"
proof (induction bs arbitrary: w r)
  case (Cons b bs)
  have "view (tw_hw (w\<lparr>tw_dr := b\<rparr>)) = (TW_transmit, r, s)" using Cons.prems(2) by simp
  from twi_conformsD(3) [OF Cons.prems(1) this refl] obtain w1 where
    w1: "twi_run hw TW_RUN (w\<lparr>tw_dr := b\<rparr>) = Some (0x28, w1)" "view (tw_hw w1) = (TW_transmit, r @ [b], s)" by auto
  from Cons.IH [OF Cons.prems(1) w1(2)] w1(1) show ?case by auto
qed auto

lemma read_bytes_conf:
  "\<lbrakk>twi_conforms hw view; view (tw_hw w) = (TW_receive, r, s); n < length s; i + n < length rp\<rbrakk> \<Longrightarrow>
    \<exists>w'. i2c_read_bytes hw n i rp w = Some (Go, take i rp @ take (Suc n) s @ drop (i + Suc n) rp, w') \<and>
      view (tw_hw w') = (TW_receive, r, drop (Suc n) s)"
proof (induction n arbitrary: i rp w s)
  case 0
  then obtain b s' where s: "s = b # s'" by (cases s) auto
  from twi_conformsD(7) [OF 0(1,2) refl] s obtain w1 where
    "twi_run hw TW_RUN w = Some (0x58, w1)" "tw_dr w1 = b" "view (tw_hw w1) = (TW_receive, r, s')" by auto
  then show ?case using s 0(4) by (simp add: upd_conv_take_nth_drop)
next
  case (Suc n)
  then obtain b s' where s: "s = b # s'" by (cases s) auto
  from twi_conformsD(6) [OF Suc.prems(1,2) refl] s obtain w1 where
    w1: "twi_run hw TW_ACK w = Some (0x50, w1)" "tw_dr w1 = b" "view (tw_hw w1) = (TW_receive, r, s')" by auto
  have "n < length s'" "Suc i + n < length (rp[i := b])" using Suc.prems(3,4) s by auto
  from Suc.IH [OF Suc.prems(1) w1(3) this] obtain w' where
    "i2c_read_bytes hw n (Suc i) (rp[i := b]) w1 =
      Some (Go, take (Suc i) (rp[i := b]) @ take (Suc n) s' @ drop (Suc i + Suc n) (rp[i := b]), w')"
    "view (tw_hw w') = (TW_receive, r, drop (Suc n) s')" by blast
  moreover have "take (Suc i) (rp[i := b]) = take i rp @ [b]" using Suc.prems(4) by (simp add: take_Suc_conv_app_nth)
  ultimately show ?case using w1(1,2) s by simp
qed

lemma bit_rw: "\<not> bit ((a :: u8) AND 0xfe) 0" "bit ((a :: u8) OR 1) 0"
  by (simp_all add: bit_simps)

lemma write_part_conf:
  assumes conf: "twi_conforms hw view" and v: "view (tw_hw w) = (TW_idle, r, s)"
  shows "\<exists>w'. i2c_write_part hw a ap wp w = Some (Go, w') \<and> view (tw_hw w') = (TW_transmit, r @ ap @ wp, s)"
proof -
  from twi_conformsD(1) [OF conf v refl] obtain w1 where
    w1: "twi_run hw TW_START w = Some (0x08, w1)" "view (tw_hw w1) = (TW_started, r, s)" by blast
  have "view (tw_hw (w1\<lparr>tw_dr := a AND 0xfe\<rparr>)) = (TW_started, r, s)" using w1(2) by simp
  from twi_conformsD(4) [OF conf this refl] bit_rw(1) [of a] obtain w2 where
    w2: "twi_run hw TW_RUN (w1\<lparr>tw_dr := a AND 0xfe\<rparr>) = Some (0x18, w2)" "view (tw_hw w2) = (TW_transmit, r, s)" by auto
  from send_bytes_conf [OF conf w2(2), of ap] obtain w3 where
    w3: "i2c_send_bytes hw ap w2 = Some (Go, w3)" "view (tw_hw w3) = (TW_transmit, r @ ap, s)" by blast
  from send_bytes_conf [OF conf w3(2), of wp] w1 w2 w3 show ?thesis
    by (auto simp: i2c_write_part_def i2c_address_def)
qed

lemma read_part_conf:
  assumes conf: "twi_conforms hw view" and v: "view (tw_hw w) = (if wrote then TW_transmit else TW_idle, r, s)"
    and "0 < rn" and "rn \<le> length s" and "rn \<le> length rp"
  shows "\<exists>w'. i2c_read_part hw a wrote rn rp w = Some (Go, take rn s @ drop rn rp, w') \<and>
    view (tw_hw w') = (TW_receive, r, drop rn s)"
proof -
  obtain w1 where
    w1: "twi_run hw TW_START w = Some (if wrote then 0x10 else 0x08, w1)" "view (tw_hw w1) = (TW_started, r, s)"
    using twi_conformsD(1,2) [OF conf v] by (cases wrote) auto
  have "view (tw_hw (w1\<lparr>tw_dr := a OR 1\<rparr>)) = (TW_started, r, s)" using w1(2) by simp
  from twi_conformsD(5) [OF conf this refl] bit_rw(2) [of a] obtain w2 where
    w2: "twi_run hw TW_RUN (w1\<lparr>tw_dr := a OR 1\<rparr>) = Some (0x40, w2)" "view (tw_hw w2) = (TW_receive, r, s)" by auto
  have "rn - 1 < length s" "0 + (rn - 1) < length rp" "Suc (rn - 1) = rn" using assms(3-5) by auto
  with read_bytes_conf [OF conf w2(2), of "rn - 1" 0 rp] w1 w2 show ?thesis
    by (auto simp: i2c_read_part_def i2c_address_def)
qed

lemma i2c_io_conf:
  assumes conf: "twi_conforms hw view" and v: "view (tw_hw w) = (TW_idle, r, s)"
    and "rn \<le> length s" and "rn \<le> length rp"
  shows "\<exists>w'. i2c_io hw a ap wp rn rp w = Some (0, take rn s @ drop rn rp, w') \<and>
    view (tw_hw w') = (TW_idle, r @ ap @ wp, drop rn s)"
proof -
  let ?wrote = "0 < length ap \<or> 0 < length wp"
  obtain w1 where 1: "(if ?wrote then i2c_write_part hw a ap wp w else Some (Go, w)) = Some (Go, w1)"
    "view (tw_hw w1) = (if ?wrote then TW_transmit else TW_idle, r @ ap @ wp, s)"
    using write_part_conf [OF conf v, of a ap wp] v by (cases ?wrote) auto
  have "\<exists>w2 m. (\<not> (?wrote \<or> 0 < rn) \<longrightarrow> m = TW_idle) \<and> (if (Go = Go) \<and> 0 < rn then i2c_read_part hw a ?wrote rn rp w1 else Some (Go, rp, w1)) =
      Some (Go, take rn s @ drop rn rp, w2) \<and> view (tw_hw w2) = (m, r @ ap @ wp, drop rn s)"
  proof (cases "0 < rn")
    case True
    from read_part_conf [OF conf 1(2) True assms(3,4), of a] True show ?thesis by auto
  next
    case False
    with 1(2) show ?thesis by simp
  qed
  then obtain w2 m where m: "\<not> (?wrote \<or> 0 < rn) \<longrightarrow> m = TW_idle" and 2: "(if (Go = Go) \<and> 0 < rn then i2c_read_part hw a ?wrote rn rp w1 else Some (Go, rp, w1)) =
      Some (Go, take rn s @ drop rn rp, w2)" "view (tw_hw w2) = (m, r @ ap @ wp, drop rn s)" by blast
  show ?thesis unfolding i2c_io_def Let_def 1 bind.bind_lunit prod.case 2(1)
    using 2(2) m twi_conforms_stop [OF conf 2(2)] by (auto simp: i2c_finish_def)
qed

lemma send_bytes_append:
  "i2c_send_bytes hw (ap @ wp) w =
    do { (x, w) \<leftarrow> i2c_send_bytes hw ap w; if x \<noteq> Go then Some (x, w) else i2c_send_bytes hw wp w }"
proof (induction ap arbitrary: w)
  case (Cons b ap)
  then show ?case by (cases "twi_run hw TW_RUN (w\<lparr>tw_dr := b\<rparr>)") auto
qed simp

lemma write_part_split: "i2c_write_part hw a ap wp w = i2c_write_part hw a (ap @ wp) [] w"
proof -
  have id: "(\<lambda>(x, w). if x \<noteq> Go then Some (x, w) else Some (Go, w)) = Some" by auto
  show ?thesis
    by (simp only: i2c_write_part_def send_bytes_append i2c_send_bytes.simps(1) id Option.bind_runit)
qed

section \<open>Properties\<close>

text \<open>A simulated bus: mode, received bytes, bytes to send; and one whose arbitration fails.\<close>

definition sim_twi_exec ::
  "u8 \<Rightarrow> u8 \<Rightarrow> tw_mode \<times> u8 list \<times> u8 list \<Rightarrow> (u8 \<times> u8 \<times> tw_mode \<times> u8 list \<times> u8 list) option" where
  "sim_twi_exec cr d h =
    (case h of (m, r, s) \<Rightarrow>
      if cr = TW_START then Some (if m = TW_idle then 0x08 else 0x10, d, (TW_started, r, s))
      else if m = TW_started then Some (if bit d 0 then 0x40 else 0x18, d, (if bit d 0 then TW_receive else TW_transmit, r, s))
      else if m = TW_transmit then Some (0x28, d, (TW_transmit, r @ [d], s))
      else if s = [] then None
      else Some (if cr = TW_ACK then 0x50 else 0x58, hd s, (TW_receive, r, tl s)))"

definition sim_twi :: "(tw_mode \<times> u8 list \<times> u8 list) twi_hw" where
  "sim_twi = \<lparr>twi_exec = sim_twi_exec, twi_release = (\<lambda>(m, r, s). (TW_idle, r, s))\<rparr>"

lemmas TW_defs = TW_RUN_def TW_START_def TW_ACK_def TW_STOP_def TWINT_def TWEA_def TWSTA_def TWSTO_def TWEN_def

lemma sim_twi_conforms: "twi_conforms sim_twi (\<lambda>h. h)"
  by (auto simp: twi_conforms_def tw_answers_def sim_twi_def sim_twi_exec_def TW_defs)

definition demo_twi :: "'h \<Rightarrow> 'h twi" where
  "demo_twi h = \<lparr>tw_dr = 0, tw_sr = 0, tw_br = 200, tw_log = [], tw_hw = h\<rparr>"

text \<open>C17. On a bus whose slave acknowledges, a call returns 0, the slave has received the bytes at \<open>ap\<close>
  followed by those at \<open>wp\<close>, and the memory at \<open>rp\<close> holds the slave's next \<open>rn\<close> bytes, in order, the
  rest of it unchanged; the bus is free again.\<close>

theorem i2c_io_transfers:
  assumes "twi_conforms hw view" and "view (tw_hw w) = (TW_idle, r, s)"
    and "rn \<le> length s" and "rn \<le> length rp"
  shows "\<exists>w'. i2c_io hw a ap wp rn rp w = Some (0, take rn s @ drop rn rp, w') \<and>
    view (tw_hw w') = (TW_idle, r @ ap @ wp, drop rn s)"
  by (rule i2c_io_conf [OF assms])

theorem i2c_io_transfers_witness:
  "\<exists>w'. i2c_io sim_twi 0x50 [0xFE, 0x46] [1] 2 [9, 9, 9] (demo_twi (TW_idle, [], [5, 6, 7])) =
      Some (0, [5, 6, 9], w') \<and> tw_hw w' = (TW_idle, [0xFE, 0x46, 1], [7])"
  using i2c_io_transfers [OF sim_twi_conforms, of "demo_twi (TW_idle, [], [5, 6, 7])" "[]" "[5, 6, 7]" 2 "[9, 9, 9]" "0x50" "[0xFE, 0x46]" "[1]"]
  by (simp add: demo_twi_def)

definition i2c_stopped :: "'h twi_hw \<Rightarrow> bool \<Rightarrow> (u8 \<times> u8) list \<Rightarrow> 'h \<Rightarrow> 'h twi \<Rightarrow> bool" where
  "i2c_stopped hw stop bs h w' \<longleftrightarrow>
    (if stop then (\<exists>d. tw_log w' = bs @ [(TW_STOP, d)]) \<and> tw_hw w' = twi_release hw h else tw_log w' = bs \<and> tw_hw w' = h)"

text \<open>C28. The protocol of a call that returns, whatever the hardware answers. The control register writes \<open>es\<close>, with the
  data bytes, are the intended transfer up to some point, and the statuses \<open>ss\<close> that the hardware shows for them
  decide how the call ends. Either every step shows its good status: the transfer is complete, the result is 0, and
  a STOP follows if anything was transferred. Or the last step made is the first one with another status: that
  status is the result, and a STOP follows exactly if it is the NAK of that step (0x20 and 0x48 for the address,
  0x30 for a byte); otherwise the bus is left without a STOP.\<close>

theorem i2c_io_protocol:
  assumes "i2c_io hw a ap wp rn rp w = Some (st, rp', w')" and "ts = i2c_transfer a (ap @ wp) rn"
  shows "\<exists>es ss h. hw_answers hw es (tw_hw w) = Some (ss, h) \<and> log_matches (map is_write (take (length es) ts)) es \<and>
    (ss = map is_good ts \<and> st = 0 \<and> i2c_stopped hw (ts \<noteq> []) (tw_log w @ es) h w' \<or>
     (\<exists>k < length ts. length es = Suc k \<and> ss = map is_good (take k ts) @ [st] \<and> st \<noteq> is_good (ts ! k) \<and>
        i2c_stopped hw (is_nak (ts ! k) = Some st) (tw_log w @ es) h w'))"
proof -
  obtain x w1 where p: "i2c_play hw ts w = Some (x, w1)" and e: "i2c_end hw (ap @ wp \<noteq> [] \<or> 0 < rn) x w1 st w'"
    using i2c_io_plays [OF assms(1)] unfolding assms(2) by blast
  have ne: "ts \<noteq> [] \<longleftrightarrow> ap @ wp \<noteq> [] \<or> 0 < rn" by (auto simp: assms(2) i2c_transfer_def i2c_addressing_def)
  from play_played [OF p] obtain es ss where r: "tw_log w1 = tw_log w @ es" "hw_answers hw es (tw_hw w) = Some (ss, tw_hw w1)"
    "log_matches (map is_write (take (length es) ts)) es"
    and c: "if x = Go then ss = map is_good ts
      else \<exists>k < length ts. \<exists>st. length es = Suc k \<and> ss = map is_good (take k ts) @ [st] \<and> st \<noteq> is_good (ts ! k) \<and>
        x = step_exit (ts ! k) st"
    unfolding played_def by blast
  have "ss = map is_good ts \<and> st = 0 \<and> i2c_stopped hw (ts \<noteq> []) (tw_log w @ es) (tw_hw w1) w' \<or>
     (\<exists>k < length ts. length es = Suc k \<and> ss = map is_good (take k ts) @ [st] \<and> st \<noteq> is_good (ts ! k) \<and>
        i2c_stopped hw (is_nak (ts ! k) = Some st) (tw_log w @ es) (tw_hw w1) w')"
  proof (cases "x = Go")
    case True
    with c e r(1) show ?thesis unfolding ne by (auto simp: i2c_end_def i2c_stopped_def twi_stop_def)
  next
    case False
    with c obtain k s where k: "k < length ts" "length es = Suc k" "ss = map is_good (take k ts) @ [s]" "s \<noteq> is_good (ts ! k)"
      "x = step_exit (ts ! k) s" by auto
    with e r(1) have "st = s" "i2c_stopped hw (is_nak (ts ! k) = Some s) (tw_log w @ es) (tw_hw w1) w'"
      by (auto simp: i2c_end_def step_exit_def i2c_stopped_def twi_stop_def split: if_splits)
    with k show ?thesis by blast
  qed
  with r(2,3) show ?thesis by blast
qed

definition nak_twi :: "unit twi_hw" where
  "nak_twi = \<lparr>twi_exec = (\<lambda>cr d h. Some (if cr = TW_START then 0x08 else 0x20, d, h)), twi_release = (\<lambda>h. h)\<rparr>"

lemma nak_transfer:
  "i2c_transfer 0x50 [7] 0 = i2c_addressing 0x08 0x50 0x18 0x20 @ i2c_data [7]"
  by (simp add: i2c_transfer_def)

text \<open>On a bus where nobody answers the address, the call ends with START, the address, a STOP and the status 0x20.\<close>

theorem i2c_io_protocol_witness:
  "\<exists>w' d. i2c_io nak_twi 0x50 [7] [] 0 [] (demo_twi ()) = Some (0x20, [], w') \<and>
    tw_log w' = [(TW_START, 0), (TW_RUN, 0x50), (TW_STOP, d)]"
proof -
  obtain w' where io: "i2c_io nak_twi 0x50 [7] [] 0 [] (demo_twi ()) = Some (0x20, [], w')" and start: "fst (hd (tw_log w')) = TW_START \<and> snd (hd (tw_log w')) = 0"
    by (simp add: i2c_io_def i2c_write_part_def i2c_address_def twi_run_def nak_twi_def demo_twi_def i2c_finish_def twi_stop_def TW_defs)
  let ?ts = "i2c_transfer 0x50 [7] 0"
  from i2c_io_protocol [OF io, of ?ts] obtain es ss h k where
    k: "log_matches (map is_write (take (length es) ?ts)) es" "hw_answers nak_twi es () = Some (ss, h)"
      "k < length ?ts" "length es = Suc k" "ss = map is_good (take k ?ts) @ [0x20]" "i2c_stopped nak_twi (is_nak (?ts ! k) = Some 0x20) es h w'"
    by (auto simp: demo_twi_def)
  have l3: "length ?ts = 3" by (simp add: nak_transfer i2c_addressing_def i2c_data_def)
  with k(3) have "k = 0 \<or> k = 1 \<or> k = 2" by auto
  then show ?thesis
  proof (elim disjE)
    assume "k = 1"
    with k(4) obtain e1 e2 where es: "es = [e1, e2]" by (auto simp: numeral_2_eq_2 length_Suc_conv)
    with k(1,6) start io \<open>k = 1\<close> show ?thesis
      by (cases e1; cases e2) (auto simp: nak_transfer i2c_addressing_def i2c_data_def i2c_stopped_def)
  next
    assume "k = 0"
    with k(1,2,4,5) show ?thesis
      by (cases es) (auto simp: nak_transfer i2c_addressing_def nak_twi_def TW_defs)
  next
    assume "k = 2"
    with k(4) obtain e1 e2 e3 where es: "es = [e1, e2, e3]" by (auto simp: numeral_3_eq_3 length_Suc_conv)
    with k(1,2,5) \<open>k = 2\<close> show ?thesis
      by (cases e1; cases e2; cases e3) (auto simp: nak_transfer i2c_addressing_def i2c_data_def nak_twi_def TW_defs)
  qed
qed

text \<open>Splitting the bytes to be sent between the two buffers makes no difference: a call with \<open>ap\<close> and
  \<open>wp\<close> behaves as the call with both in one buffer, on every hardware.\<close>

theorem i2c_io_split_equivalent:
  "i2c_io hw a ap wp rn rp w = i2c_io hw a (ap @ wp) [] rn rp w"
  unfolding i2c_io_def write_part_split [of hw a ap wp] by simp

text \<open>A bus error (status 0, which the hardware shows after an illegal START or STOP) is reported as
  success: the call returns 0 although nothing but the START condition was sent.\<close>

theorem i2c_bus_error_is_success:
  assumes "twi_exec hw TW_START (tw_dr w) (tw_hw w) = Some (0, d, h)" and "ap @ wp \<noteq> [] \<or> 0 < rn"
  shows "\<exists>w'. i2c_io hw a ap wp rn rp w = Some (0, rp, w') \<and> tw_log w' = tw_log w @ [(TW_START, tw_dr w)]"
  using assms
  by (auto simp: i2c_io_def i2c_write_part_def i2c_read_part_def i2c_address_def twi_run_def i2c_finish_def Let_def)

theorem i2c_bus_error_is_success_witness:
  "\<exists>w'. i2c_io \<lparr>twi_exec = (\<lambda>cr d h. Some (0, d, h)), twi_release = (\<lambda>h. h)\<rparr> 0x50 [0xFE, 0x46] [] 0 [] (demo_twi ()) = Some (0, [], w') \<and>
    tw_log w' = [] @ [(TW_START, 0)]"
  using i2c_bus_error_is_success [of "\<lparr>twi_exec = (\<lambda>cr d h. Some (0, d, h)), twi_release = (\<lambda>h. h)\<rparr>" "demo_twi ()" 0 "()" "[0xFE, 0x46]" "[]" 0 "0x50" "[]"]
  by (simp add: demo_twi_def)

end
