(* ===== verification/Usart.thy ===== *)
theory Usart
  imports Utils C_String
begin

text \<open>
  The serial ports of src/uart.c as the code drives them: a table of descriptors that name the registers
  and bits of each port, and operations that poll the status register before they touch the data register.
  The register file is the device header's and the hardware behind it is a parameter \<open>mmio\<close>: what a read
  of a register gives, and what a write does. A port that never becomes ready makes an operation \<open>None\<close>.
  src/astdio.c, the stream behind \<open>printf\<close>, is the last section.
\<close>

section \<open>Registers and descriptors\<close>

datatype uart_reg = UCSR0A | UCSR0B | UCSR0C | UBRR0L | UBRR0H | UDR0 | UCSR1A | UCSR1B | UCSR1C | UBRR1L | UBRR1H | UDR1

record 'd mmio =
  mm_read :: "uart_reg \<Rightarrow> 'd \<Rightarrow> u8 \<times> 'd"
  mm_write :: "uart_reg \<Rightarrow> u8 \<Rightarrow> 'd \<Rightarrow> 'd"

record uart_port =
  ucsra :: uart_reg
  ucsrb :: uart_reg
  ucsrc :: uart_reg
  ubrrl :: uart_reg
  ubrrh :: uart_reg
  udr :: uart_reg
  ucsz0 :: nat
  ucsz1 :: nat
  rxen :: nat
  txen :: nat
  rxc :: nat
  udre :: nat

text \<open>The bit numbers of the device header, the same for both ports.\<close>

definition UCSZ0 :: nat where "UCSZ0 = 1"
definition UCSZ1 :: nat where "UCSZ1 = 2"
definition RXEN :: nat where "RXEN = 4"
definition TXEN :: nat where "TXEN = 3"
definition RXC :: nat where "RXC = 7"
definition UDRE :: nat where "UDRE = 5"
definition RXCIE :: nat where "RXCIE = 7"

definition uart_ports :: "uart_port list" where
  "uart_ports =
    [\<lparr>ucsra = UCSR0A, ucsrb = UCSR0B, ucsrc = UCSR0C, ubrrl = UBRR0L, ubrrh = UBRR0H, udr = UDR0,
      ucsz0 = UCSZ0, ucsz1 = UCSZ1, rxen = RXEN, txen = TXEN, rxc = RXC, udre = UDRE\<rparr>,
     \<lparr>ucsra = UCSR1A, ucsrb = UCSR1B, ucsrc = UCSR1C, ubrrl = UBRR1L, ubrrh = UBRR1H, udr = UDR1,
      ucsz0 = UCSZ0, ucsz1 = UCSZ1, rxen = RXEN, txen = TXEN, rxc = RXC, udre = UDRE\<rparr>]"

definition UART_PORT_0 :: nat where "UART_PORT_0 = 0"
definition UART_PORT_1 :: nat where "UART_PORT_1 = 1"

section \<open>Input and output\<close>

partial_function (option) uart_read_char :: "'d mmio \<Rightarrow> nat \<Rightarrow> 'd \<Rightarrow> (u8 \<times> 'd) option" where
  "uart_read_char io port d =
    do {
      (sr, d) \<leftarrow> Some (mm_read io (ucsra (uart_ports ! port)) d);
      if sr AND push_bit (rxc (uart_ports ! port)) 1 = 0 then uart_read_char io port d
      else Some (mm_read io (udr (uart_ports ! port)) d)
    }"

definition uart_data_available :: "'d mmio \<Rightarrow> nat \<Rightarrow> 'd \<Rightarrow> u8 \<times> 'd" where
  "uart_data_available io port d =
    (let (sr, d) = mm_read io (ucsra (uart_ports ! port)) d in (sr AND push_bit (rxc (uart_ports ! port)) 1, d))"

text \<open>The test for ASCII looks at what the buffer holds before the byte is read into it; as in
  \<open>uart_write_strn\<close> a failed test leaves the position where it is for the remaining rounds.\<close>

fun uart_read_strn :: "'d mmio \<Rightarrow> nat \<Rightarrow> u8 list \<Rightarrow> nat \<Rightarrow> 'd \<Rightarrow> (u8 list \<times> 'd) option" where
  "uart_read_strn io port buf 0 d = Some (buf, d)"
| "uart_read_strn io port [] (Suc n) d = None"
| "uart_read_strn io port (b # buf) (Suc n) d =
    (if \<not> b < 128 then uart_read_strn io port (b # buf) n d
     else do {
       (c, d) \<leftarrow> uart_read_char io port d;
       (bs, d) \<leftarrow> uart_read_strn io port buf n d;
       Some (c # bs, d)
     })"

partial_function (option) uart_write_char :: "'d mmio \<Rightarrow> nat \<Rightarrow> u8 \<Rightarrow> 'd \<Rightarrow> 'd option" where
  "uart_write_char io port dat d =
    do {
      (sr, d) \<leftarrow> Some (mm_read io (ucsra (uart_ports ! port)) d);
      if sr AND push_bit (udre (uart_ports ! port)) 1 = 0 then uart_write_char io port dat d
      else Some (mm_write io (udr (uart_ports ! port)) dat d)
    }"

text \<open>The functions built on it; \<open>Utils\<close> has the bytes each of them sends.\<close>

fun uart_put_str :: "'d mmio \<Rightarrow> nat \<Rightarrow> u8 list \<Rightarrow> 'd \<Rightarrow> 'd option" where
  "uart_put_str io port [] d = Some d"
| "uart_put_str io port (b # buf) d =
    (if b = 0 then Some d else do { d \<leftarrow> uart_write_char io port b d; uart_put_str io port buf d })"

fun uart_put_strn :: "'d mmio \<Rightarrow> nat \<Rightarrow> u8 list \<Rightarrow> nat \<Rightarrow> 'd \<Rightarrow> 'd option" where
  "uart_put_strn io port buf 0 d = Some d"
| "uart_put_strn io port [] (Suc n) d = None"
| "uart_put_strn io port (b # buf) (Suc n) d =
    (if \<not> b < 128 then uart_put_strn io port (b # buf) n d
     else do { d \<leftarrow> uart_write_char io port b d; uart_put_strn io port buf n d })"

definition uart_put_hex :: "'d mmio \<Rightarrow> nat \<Rightarrow> u8 \<Rightarrow> 'd \<Rightarrow> 'd option" where
  "uart_put_hex io port n d =
    do {
      d \<leftarrow> (if drop_bit 4 n AND 15 < 10 then uart_write_char io port (48 + (drop_bit 4 n AND 15)) d
            else uart_write_char io port (65 + (drop_bit 4 n AND 15) - 10) d);
      let n = push_bit 4 n;
      if drop_bit 4 n AND 15 < 10 then uart_write_char io port (48 + (drop_bit 4 n AND 15)) d
      else uart_write_char io port (65 + (drop_bit 4 n AND 15) - 10) d
    }"

definition uart_put_32 :: "'d mmio \<Rightarrow> nat \<Rightarrow> u32 \<Rightarrow> 'd \<Rightarrow> 'd option" where
  "uart_put_32 io port val d =
    do {
      d \<leftarrow> uart_put_hex io port (ucast (drop_bit 24 val)) d;
      d \<leftarrow> uart_put_hex io port (ucast (drop_bit 16 val)) d;
      d \<leftarrow> uart_put_hex io port (ucast (drop_bit 8 val)) d;
      uart_put_hex io port (ucast val) d
    }"

section \<open>Configuration\<close>

definition FOSC :: nat where "FOSC = 7372800"
definition BUAD_UART_0 :: nat where "BUAD_UART_0 = 38400"
definition BUAD_UART_1 :: nat where "BUAD_UART_1 = 38400"

definition MYUBRR :: "nat \<Rightarrow> u32" where
  "MYUBRR x = of_nat (FOSC div 16 div x - 1)"

definition initialize_uart :: "'d mmio \<Rightarrow> nat \<Rightarrow> u32 \<Rightarrow> 'd \<Rightarrow> 'd" where
  "initialize_uart io port ubrr_value d =
    (let p = uart_ports ! port;
         d = mm_write io (ubrrh p) (ucast (drop_bit 8 ubrr_value)) d;
         d = mm_write io (ubrrl p) (ucast (ubrr_value AND 255)) d;
         d = mm_write io (ucsrc p) (push_bit (ucsz1 p) 1 OR push_bit (ucsz0 p) 1) d
     in mm_write io (ucsrb p) (push_bit (rxen p) 1 OR push_bit (txen p) 1) d)"

section \<open>Standard output\<close>

text \<open>The wait and the write of \<open>stdio_putchar\<close>, on the registers of port 0.\<close>

partial_function (option) stdio_emit :: "'d mmio \<Rightarrow> u8 \<Rightarrow> 'd \<Rightarrow> 'd option" where
  "stdio_emit io c d =
    do {
      (sr, d) \<leftarrow> Some (mm_read io UCSR0A d);
      if sr AND push_bit UDRE 1 = 0 then stdio_emit io c d else Some (mm_write io UDR0 c d)
    }"

text \<open>The call before a newline is for a carriage return, which is no newline.\<close>

definition stdio_putchar :: "'d mmio \<Rightarrow> u8 \<Rightarrow> 'd \<Rightarrow> (int \<times> 'd) option" where
  "stdio_putchar io c d =
    do {
      d \<leftarrow> (if c = 10 then stdio_emit io 13 d else Some d);
      d \<leftarrow> stdio_emit io c d;
      Some (0, d)
    }"

text \<open>A stream of the C library: its output function and its flags.\<close>

record 'd stdio_file =
  fs_put :: "u8 \<Rightarrow> 'd \<Rightarrow> (int \<times> 'd) option"
  fs_get :: "('d \<Rightarrow> (int \<times> 'd) option) option"
  fs_write :: bool

definition avr_stream :: "'d mmio \<Rightarrow> 'd stdio_file" where
  "avr_stream io = \<lparr>fs_put = stdio_putchar io, fs_get = None, fs_write = True\<rparr>"

text \<open>\<open>initialize_stdio(&stdout)\<close> returns the stream that standard output is from now on.\<close>

definition initialize_stdio :: "'d mmio \<Rightarrow> 'd stdio_file option \<Rightarrow> 'd stdio_file option" where
  "initialize_stdio io stream = Some (avr_stream io)"

text \<open>What the C library does with a text: it hands the characters to the stream, one after the other.\<close>

fun c_fputs :: "'d stdio_file \<Rightarrow> u8 list \<Rightarrow> 'd \<Rightarrow> 'd option" where
  "c_fputs f [] d = Some d"
| "c_fputs f (c # cs) d = do { (_, d) \<leftarrow> fs_put f c d; c_fputs f cs d }"

section \<open>A port as documented\<close>

text \<open>What the code relies on: the data register is free again some polls after a byte was written to it,
  a byte that has arrived (each some polls after the one before) stays until it is read, and the
  configuration registers keep what is written to them. The hypothesis speaks of one port; what happens on
  the other one meanwhile is left open.\<close>

record usart_view =
  uv_cfg :: "uart_reg \<Rightarrow> u8"
  uv_rx :: "(nat \<times> u8) list"
  uv_tx :: "u8 list"
  uv_wait :: nat

fun rx_ready :: "(nat \<times> u8) list \<Rightarrow> bool" where
  "rx_ready ((0, b) # xs) \<longleftrightarrow> True"
| "rx_ready xs \<longleftrightarrow> False"

fun rx_tick :: "(nat \<times> u8) list \<Rightarrow> (nat \<times> u8) list" where
  "rx_tick [] = []"
| "rx_tick ((k, b) # xs) = (k - 1, b) # xs"

definition usart_status :: "'d mmio \<Rightarrow> uart_port \<Rightarrow> ('d \<Rightarrow> usart_view) \<Rightarrow> bool" where
  "usart_status io p V \<longleftrightarrow> (\<forall>d. \<exists>sr d'. mm_read io (ucsra p) d = (sr, d') \<and>
     bit sr UDRE = (uv_wait (V d) = 0) \<and> bit sr RXC = rx_ready (uv_rx (V d)) \<and>
     V d' = (V d)\<lparr>uv_wait := uv_wait (V d) - 1, uv_rx := rx_tick (uv_rx (V d))\<rparr>)"

definition usart_data :: "'d mmio \<Rightarrow> uart_port \<Rightarrow> ('d \<Rightarrow> usart_view) \<Rightarrow> bool" where
  "usart_data io p V \<longleftrightarrow>
     (\<forall>d b xs. uv_rx (V d) = (0, b) # xs \<longrightarrow> (\<exists>d'. mm_read io (udr p) d = (b, d') \<and> V d' = (V d)\<lparr>uv_rx := xs\<rparr>)) \<and>
     (\<forall>d b. uv_wait (V d) = 0 \<longrightarrow> (\<exists>k. V (mm_write io (udr p) b d) = (V d)\<lparr>uv_tx := uv_tx (V d) @ [b], uv_wait := k\<rparr>))"

definition usart_config :: "'d mmio \<Rightarrow> uart_port \<Rightarrow> ('d \<Rightarrow> usart_view) \<Rightarrow> bool" where
  "usart_config io p V \<longleftrightarrow> (\<forall>r \<in> {ucsrb p, ucsrc p, ubrrl p, ubrrh p}. \<forall>x d.
     V (mm_write io r x d) = (V d)\<lparr>uv_cfg := (uv_cfg (V d))(r := x)\<rparr>)"

definition usart_conforms :: "'d mmio \<Rightarrow> nat \<Rightarrow> ('d \<Rightarrow> usart_view) \<Rightarrow> bool" where
  "usart_conforms io port V \<longleftrightarrow> port < 2 \<and> usart_status io (uart_ports ! port) V \<and> usart_data io (uart_ports ! port) V \<and>
     usart_config io (uart_ports ! port) V"

text \<open>Some bytes were sent, and nothing else: no byte received is lost, and the configuration is as it was.\<close>

definition uart_sent :: "('d \<Rightarrow> usart_view) \<Rightarrow> u8 list \<Rightarrow> 'd \<Rightarrow> 'd \<Rightarrow> bool" where
  "uart_sent V bs d d' \<longleftrightarrow> uv_tx (V d') = uv_tx (V d) @ bs \<and> map snd (uv_rx (V d')) = map snd (uv_rx (V d)) \<and>
     uv_cfg (V d') = uv_cfg (V d)"

lemma uart_sent_nil [simp]: "uart_sent V [] d d"
  by (simp add: uart_sent_def)

lemma uart_sent_append: "\<lbrakk>uart_sent V xs d d'; uart_sent V ys d' d''\<rbrakk> \<Longrightarrow> uart_sent V (xs @ ys) d d''"
  by (simp add: uart_sent_def)

lemma rx_tick_bytes [simp]: "map snd (rx_tick xs) = map snd xs"
  by (cases xs rule: rx_tick.cases) simp_all

lemma rx_tick_eq: "rx_tick xs = ys \<Longrightarrow> rx_ready xs \<Longrightarrow> ys = xs"
  by (cases xs rule: rx_ready.cases) auto

lemma uart_ports_bits:
  "port < 2 \<Longrightarrow> rxc (uart_ports ! port) = RXC \<and> udre (uart_ports ! port) = UDRE \<and> rxen (uart_ports ! port) = RXEN \<and>
    txen (uart_ports ! port) = TXEN \<and> ucsz0 (uart_ports ! port) = UCSZ0 \<and> ucsz1 (uart_ports ! port) = UCSZ1"
  by (auto simp: uart_ports_def less_Suc_eq eval_nat_numeral)

lemma uart_port_0:
  "ucsra (uart_ports ! UART_PORT_0) = UCSR0A" "udr (uart_ports ! UART_PORT_0) = UDR0"
  by (simp_all add: uart_ports_def UART_PORT_0_def)

text \<open>Any function with the loop of \<open>uart_write_char\<close> sends its byte.\<close>

lemma poll_sends:
  assumes c: "usart_status io p V" "usart_data io p V"
    and f: "\<And>d. f d = do {
      (sr, d) \<leftarrow> Some (mm_read io (ucsra p) d);
      if sr AND push_bit UDRE 1 = 0 then f d else Some (mm_write io (udr p) b d) }"
  shows "\<exists>d'. f d = Some d' \<and> uart_sent V [b] d d'"
proof (induction "uv_wait (V d)" arbitrary: d rule: less_induct)
  case less
  obtain sr d1 where s: "mm_read io (ucsra p) d = (sr, d1)" "bit sr UDRE = (uv_wait (V d) = 0)"
    "V d1 = (V d)\<lparr>uv_wait := uv_wait (V d) - 1, uv_rx := rx_tick (uv_rx (V d))\<rparr>"
    using c(1) unfolding usart_status_def by blast
  show ?case
  proof (cases "uv_wait (V d) = 0")
    case True
    then have "uv_wait (V d1) = 0" using s(3) by simp
    then obtain k where "V (mm_write io (udr p) b d1) = (V d1)\<lparr>uv_tx := uv_tx (V d1) @ [b], uv_wait := k\<rparr>"
      using c(2) unfolding usart_data_def by blast
    with s True show ?thesis by (subst f) (simp add: and_exp_eq_0_iff_not_bit uart_sent_def)
  next
    case False
    then have "uv_wait (V d1) < uv_wait (V d)" using s(3) by simp
    from less.hyps [OF this] obtain d' where "f d1 = Some d'" "uart_sent V [b] d1 d'" by blast
    with s False show ?thesis by (subst f) (simp add: and_exp_eq_0_iff_not_bit uart_sent_def)
  qed
qed

lemma write_char_sends: "usart_conforms io port V \<Longrightarrow> \<exists>d'. uart_write_char io port b d = Some d' \<and> uart_sent V [b] d d'"
  using uart_ports_bits [of port] uart_write_char.simps [of io port b]
  by (intro poll_sends [where p = "uart_ports ! port"]) (auto simp: usart_conforms_def)

lemma read_char_gets:
  assumes "usart_conforms io port V" and "uv_rx (V d) = (k, b) # xs"
  shows "\<exists>d'. uart_read_char io port d = Some (b, d') \<and> uv_rx (V d') = xs \<and> uv_tx (V d') = uv_tx (V d) \<and>
    uv_cfg (V d') = uv_cfg (V d)"
  using assms(2)
proof (induction k arbitrary: d)
  case (0 d)
  have c: "usart_status io (uart_ports ! port) V" "usart_data io (uart_ports ! port) V" "rxc (uart_ports ! port) = RXC"
    using assms(1) uart_ports_bits [of port] by (auto simp: usart_conforms_def)
  obtain sr d1 where s: "mm_read io (ucsra (uart_ports ! port)) d = (sr, d1)" "bit sr RXC = rx_ready (uv_rx (V d))"
    "V d1 = (V d)\<lparr>uv_wait := uv_wait (V d) - 1, uv_rx := rx_tick (uv_rx (V d))\<rparr>"
    using c(1) unfolding usart_status_def by blast
  then have "uv_rx (V d1) = (0, b) # xs" using 0 by simp
  then obtain d2 where "mm_read io (udr (uart_ports ! port)) d1 = (b, d2)" "V d2 = (V d1)\<lparr>uv_rx := xs\<rparr>"
    using c(2) unfolding usart_data_def by blast
  with s 0 c(3) show ?case by (simp add: uart_read_char.simps [of io port d] and_exp_eq_0_iff_not_bit)
next
  case (Suc k d)
  have c: "usart_status io (uart_ports ! port) V" "rxc (uart_ports ! port) = RXC"
    using assms(1) uart_ports_bits [of port] by (auto simp: usart_conforms_def)
  obtain sr d1 where s: "mm_read io (ucsra (uart_ports ! port)) d = (sr, d1)" "bit sr RXC = rx_ready (uv_rx (V d))"
    "V d1 = (V d)\<lparr>uv_wait := uv_wait (V d) - 1, uv_rx := rx_tick (uv_rx (V d))\<rparr>"
    using c(1) unfolding usart_status_def by blast
  with Suc.IH [of d1] Suc.prems c(2) show ?case by (simp add: uart_read_char.simps [of io port d] and_exp_eq_0_iff_not_bit)
qed

lemma read_strn_gets:
  assumes "usart_conforms io port V"
  shows "\<lbrakk>map snd (uv_rx (V d)) = bs @ rest; list_all (\<lambda>b. b < 128) buf; length buf = length bs\<rbrakk> \<Longrightarrow>
    \<exists>d'. uart_read_strn io port buf (length bs) d = Some (bs, d') \<and> map snd (uv_rx (V d')) = rest \<and> uv_tx (V d') = uv_tx (V d)"
proof (induction bs arbitrary: buf d)
  case Nil
  then show ?case by simp
next
  case (Cons b bs)
  then obtain k xs where rx: "uv_rx (V d) = (k, b) # xs" "map snd xs = bs @ rest" by (cases "uv_rx (V d)") auto
  obtain o1 os where buf: "buf = o1 # os" using Cons.prems(3) by (cases buf) auto
  obtain d1 where 1: "uart_read_char io port d = Some (b, d1)" "uv_rx (V d1) = xs" "uv_tx (V d1) = uv_tx (V d)"
    using read_char_gets [OF assms rx(1)] by blast
  from Cons.IH [of d1 os] Cons.prems(2,3) buf rx(2) 1(2) obtain d2 where
    "uart_read_strn io port os (length bs) d1 = Some (bs, d2)" "map snd (uv_rx (V d2)) = rest" "uv_tx (V d2) = uv_tx (V d1)"
    by auto
  with 1 Cons.prems(2) show ?case by (simp add: buf)
qed

lemma data_available_ready:
  assumes "usart_conforms io port V"
  shows "fst (uart_data_available io port d) \<noteq> 0 \<longleftrightarrow> rx_ready (uv_rx (V d))"
proof -
  have c: "usart_status io (uart_ports ! port) V" "rxc (uart_ports ! port) = RXC"
    using assms uart_ports_bits [of port] by (auto simp: usart_conforms_def)
  obtain sr d1 where "mm_read io (ucsra (uart_ports ! port)) d = (sr, d1)" "bit sr RXC = rx_ready (uv_rx (V d))"
    using c(1) unfolding usart_status_def by blast
  then show ?thesis using c(2) by (simp add: uart_data_available_def and_exp_eq_0_iff_not_bit)
qed

text \<open>The functions send exactly the bytes that \<open>Utils\<close> says.\<close>

lemma put_str_sends:
  assumes "usart_conforms io port V"
  shows "\<exists>d'. uart_put_str io port buf d = Some d' \<and> uart_sent V (uart_write_str buf) d d'"
proof (induction buf arbitrary: d)
  case (Cons b buf)
  obtain d1 where 1: "uart_write_char io port b d = Some d1" "uart_sent V [b] d d1" using write_char_sends [OF assms] by blast
  from Cons.IH [of d1] obtain d2 where "uart_put_str io port buf d1 = Some d2" "uart_sent V (uart_write_str buf) d1 d2" by blast
  with 1 uart_sent_append [OF 1(2)] show ?case by (fastforce simp: uart_write_str_def)
qed (simp add: uart_write_str_def)

lemma put_strn_sends:
  assumes "usart_conforms io port V"
  shows "n \<le> length buf \<Longrightarrow> \<exists>d'. uart_put_strn io port buf n d = Some d' \<and> uart_sent V (uart_write_strn buf n) d d'"
proof (induction n arbitrary: buf d)
  case (Suc n)
  then obtain b bs where buf: "buf = b # bs" by (cases buf) auto
  show ?case
  proof (cases "b < 128")
    case True
    obtain d1 where 1: "uart_write_char io port b d = Some d1" "uart_sent V [b] d d1" using write_char_sends [OF assms] by blast
    from Suc.IH [of bs d1] Suc.prems buf obtain d2 where
      "uart_put_strn io port bs n d1 = Some d2" "uart_sent V (uart_write_strn bs n) d1 d2" by auto
    with 1 True uart_sent_append [OF 1(2)] show ?thesis by (fastforce simp: buf)
  next
    case False
    with Suc.IH [of buf d] Suc.prems buf show ?thesis by simp
  qed
qed simp

lemma put_hex_sends:
  assumes "usart_conforms io port V"
  shows "\<exists>d'. uart_put_hex io port n d = Some d' \<and> uart_sent V (uart_write_hex n) d d'"
proof -
  let ?h = "hex_digit (drop_bit 4 n AND 15)" and ?l = "hex_digit (drop_bit 4 (push_bit 4 n) AND 15)"
  obtain d1 where 1: "uart_write_char io port ?h d = Some d1" "uart_sent V [?h] d d1" using write_char_sends [OF assms] by blast
  obtain d2 where 2: "uart_write_char io port ?l d1 = Some d2" "uart_sent V [?l] d1 d2" using write_char_sends [OF assms] by blast
  have "uart_put_hex io port n d = do { d \<leftarrow> uart_write_char io port ?h d; uart_write_char io port ?l d }"
    by (simp add: uart_put_hex_def hex_digit_def Let_def)
  with 1 2 uart_sent_append [OF 1(2) 2(2)] show ?thesis by (simp add: uart_write_hex_def Let_def)
qed

lemma put_32_sends:
  assumes "usart_conforms io port V"
  shows "\<exists>d'. uart_put_32 io port v d = Some d' \<and> uart_sent V (uart_write_32 v) d d'"
proof -
  note h = put_hex_sends [OF assms]
  obtain d1 where 1: "uart_put_hex io port (ucast (drop_bit 24 v)) d = Some d1" "uart_sent V (uart_write_hex (ucast (drop_bit 24 v))) d d1"
    using h by blast
  obtain d2 where 2: "uart_put_hex io port (ucast (drop_bit 16 v)) d1 = Some d2" "uart_sent V (uart_write_hex (ucast (drop_bit 16 v))) d1 d2"
    using h by blast
  obtain d3 where 3: "uart_put_hex io port (ucast (drop_bit 8 v)) d2 = Some d3" "uart_sent V (uart_write_hex (ucast (drop_bit 8 v))) d2 d3"
    using h by blast
  obtain d4 where 4: "uart_put_hex io port (ucast v) d3 = Some d4" "uart_sent V (uart_write_hex (ucast v)) d3 d4"
    using h by blast
  from 1 2 3 4 uart_sent_append [OF 1(2) uart_sent_append [OF 2(2) uart_sent_append [OF 3(2) 4(2)]]]
  show ?thesis by (simp add: uart_put_32_def uart_write_32_def)
qed

text \<open>Standard output: a newline is sent as carriage return and newline.\<close>

definition stdio_bytes :: "u8 \<Rightarrow> u8 list" where
  "stdio_bytes c = (if c = 10 then [13, 10] else [c])"

lemma stdio_emit_sends: "usart_conforms io UART_PORT_0 V \<Longrightarrow> \<exists>d'. stdio_emit io c d = Some d' \<and> uart_sent V [c] d d'"
proof -
  assume c: "usart_conforms io UART_PORT_0 V"
  have "stdio_emit io c d = do {
      (sr, d) \<leftarrow> Some (mm_read io (ucsra (uart_ports ! UART_PORT_0)) d);
      if sr AND push_bit UDRE 1 = 0 then stdio_emit io c d else Some (mm_write io (udr (uart_ports ! UART_PORT_0)) c d) }" for d
    unfolding uart_port_0 by (rule stdio_emit.simps)
  from poll_sends [OF _ _ this] c show ?thesis by (simp add: usart_conforms_def)
qed

lemma stdio_putchar_sends:
  assumes "usart_conforms io UART_PORT_0 V"
  shows "\<exists>d'. stdio_putchar io c d = Some (0, d') \<and> uart_sent V (stdio_bytes c) d d'"
proof (cases "c = 10")
  case True
  obtain d1 where 1: "stdio_emit io 13 d = Some d1" "uart_sent V [13] d d1" using stdio_emit_sends [OF assms] by blast
  obtain d2 where 2: "stdio_emit io 10 d1 = Some d2" "uart_sent V [10] d1 d2" using stdio_emit_sends [OF assms] by blast
  with 1 True uart_sent_append [OF 1(2) 2(2)] show ?thesis by (simp add: stdio_putchar_def stdio_bytes_def)
next
  case False
  with stdio_emit_sends [OF assms, of c d] show ?thesis by (auto simp: stdio_putchar_def stdio_bytes_def)
qed

lemma fputs_sends:
  assumes "usart_conforms io UART_PORT_0 V"
  shows "\<exists>d'. c_fputs (avr_stream io) t d = Some d' \<and> uart_sent V (concat (map stdio_bytes t)) d d'"
proof (induction t arbitrary: d)
  case (Cons c t)
  obtain d1 where 1: "stdio_putchar io c d = Some (0, d1)" "uart_sent V (stdio_bytes c) d d1"
    using stdio_putchar_sends [OF assms] by blast
  from Cons.IH [of d1] obtain d2 where "c_fputs (avr_stream io) t d1 = Some d2" "uart_sent V (concat (map stdio_bytes t)) d1 d2" by blast
  with 1 uart_sent_append [OF 1(2)] show ?case by (simp add: avr_stream_def)
qed simp

section \<open>Configuration\<close>

text \<open>The rate of the clock divided by \<open>16 (UBRR + 1)\<close>.\<close>

definition uart_baud :: "(uart_reg \<Rightarrow> u8) \<Rightarrow> uart_port \<Rightarrow> nat" where
  "uart_baud c p = FOSC div (16 * (unat (le16 (c (ubrrl p)) (c (ubrrh p))) + 1))"

lemma mask_255: "(255 :: u32) = mask 8"
  by (simp add: mask_eq_exp_minus_1)

lemma uart_divisor: "unat (v :: u32) < 65536 \<Longrightarrow> unat (le16 (ucast (v AND 255)) (ucast (drop_bit 8 v))) = unat v"
proof -
  assume v: "unat v < 65536"
  have "le16 (ucast (v AND 255)) (ucast (drop_bit 8 v)) = (ucast v :: u16)"
    unfolding le16_def mask_255 by (rule bit_word_eqI) (auto simp: bit_simps)
  then show ?thesis using unat_ucast_32_16 [OF v] by simp
qed

lemma uart_regs_distinct:
  "port < 2 \<Longrightarrow> distinct [udr (uart_ports ! port), ubrrh (uart_ports ! port), ubrrl (uart_ports ! port),
    ucsrc (uart_ports ! port), ucsrb (uart_ports ! port), ucsra (uart_ports ! port)]"
  by (auto simp: uart_ports_def less_Suc_eq eval_nat_numeral)

text \<open>What the four writes leave in the registers of the port.\<close>

definition uart_setup :: "nat \<Rightarrow> u32 \<Rightarrow> (uart_reg \<Rightarrow> u8) \<Rightarrow> uart_reg \<Rightarrow> u8" where
  "uart_setup port v c =
    (let p = uart_ports ! port
     in c(ubrrh p := ucast (drop_bit 8 v), ubrrl p := ucast (v AND 255), ucsrc p := push_bit UCSZ1 1 OR push_bit UCSZ0 1,
          ucsrb p := push_bit RXEN 1 OR push_bit TXEN 1))"

lemma initialize_uart_view:
  assumes "usart_conforms io port V"
  shows "V (initialize_uart io port v d) = (V d)\<lparr>uv_cfg := uart_setup port v (uv_cfg (V d))\<rparr>"
proof -
  have c: "usart_config io (uart_ports ! port) V" "port < 2" using assms by (simp_all add: usart_conforms_def)
  have w: "V (mm_write io r x d) = (V d)\<lparr>uv_cfg := (uv_cfg (V d))(r := x)\<rparr>"
    if "r \<in> {ucsrb (uart_ports ! port), ucsrc (uart_ports ! port), ubrrl (uart_ports ! port), ubrrh (uart_ports ! port)}" for r x d
    using c(1) that by (simp only: usart_config_def)
  show ?thesis using uart_ports_bits [OF c(2)] by (simp add: initialize_uart_def uart_setup_def w Let_def)
qed

text \<open>The registers alone, as memory.\<close>

definition reg_file :: "(uart_reg \<Rightarrow> u8) mmio" where
  "reg_file = \<lparr>mm_read = (\<lambda>r c. (c r, c)), mm_write = (\<lambda>r x c. c(r := x))\<rparr>"

lemma initialize_uart_regs: "port < 2 \<Longrightarrow> initialize_uart reg_file port v c = uart_setup port v c"
  using uart_ports_bits [of port] by (simp add: initialize_uart_def uart_setup_def reg_file_def Let_def)

lemma uart_setup_baud:
  assumes port: "port < 2" and x: "0 < x" "FOSC mod (16 * x) = 0" "FOSC div 16 div x \<le> 65536" "x \<le> FOSC div 16"
  shows "uart_baud (uart_setup port (MYUBRR x) c) (uart_ports ! port) = x"
proof -
  obtain k where k: "FOSC = 16 * x * k" using x(2) by auto
  then have "FOSC div 16 = x * k" unfolding mult.assoc by simp
  then have d: "FOSC div 16 div x = k" using x(1) by simp
  have kp: "0 < k" "k \<le> 65536" using d x(1,3,4) k by (auto simp: FOSC_def intro: gr0I)
  have "unat (MYUBRR x) = k - 1" unfolding MYUBRR_def d using kp by (intro unat_of_nat_u32) simp
  with uart_divisor [of "MYUBRR x"] kp uart_regs_distinct [OF port]
  have "uart_baud (uart_setup port (MYUBRR x) c) (uart_ports ! port) = FOSC div (16 * k)"
    by (simp add: uart_baud_def uart_setup_def Let_def)
  also have "\<dots> = x" unfolding k using kp(1) by simp
  finally show ?thesis .
qed

section \<open>Properties\<close>

text \<open>A port with a receiver and a transmitter, for the examples: three polls after each byte sent until the
  next one.\<close>

definition sim_usart :: "usart_view mmio" where
  "sim_usart = \<lparr>
     mm_read = (\<lambda>r v.
       if r = UCSR0A then
         ((if uv_wait v = 0 then push_bit UDRE 1 else 0) OR (if rx_ready (uv_rx v) then push_bit RXC 1 else 0),
          v\<lparr>uv_wait := uv_wait v - 1, uv_rx := rx_tick (uv_rx v)\<rparr>)
       else if r = UDR0 then (if rx_ready (uv_rx v) then (snd (hd (uv_rx v)), v\<lparr>uv_rx := tl (uv_rx v)\<rparr>) else (0, v))
       else (uv_cfg v r, v)),
     mm_write = (\<lambda>r x v.
       if r = UDR0 then (if uv_wait v = 0 then v\<lparr>uv_tx := uv_tx v @ [x], uv_wait := 3\<rparr> else v)
       else v\<lparr>uv_cfg := (uv_cfg v)(r := x)\<rparr>)\<rparr>"

definition usart_reset :: "(nat \<times> u8) list \<Rightarrow> usart_view" where
  "usart_reset rx = \<lparr>uv_cfg = (\<lambda>_. 0), uv_rx = rx, uv_tx = [], uv_wait = 2\<rparr>"

lemma sim_usart_conforms: "usart_conforms sim_usart UART_PORT_0 (\<lambda>v. v)"
proof -
  have p: "uart_ports ! 0 = \<lparr>ucsra = UCSR0A, ucsrb = UCSR0B, ucsrc = UCSR0C, ubrrl = UBRR0L, ubrrh = UBRR0H, udr = UDR0,
      ucsz0 = UCSZ0, ucsz1 = UCSZ1, rxen = RXEN, txen = TXEN, rxc = RXC, udre = UDRE\<rparr>"
    by (simp add: uart_ports_def)
  have "usart_status sim_usart (uart_ports ! 0) (\<lambda>v. v)"
    by (simp add: usart_status_def p sim_usart_def UDRE_def RXC_def bit_simps)
  moreover have "usart_data sim_usart (uart_ports ! 0) (\<lambda>v. v)"
    by (auto simp: usart_data_def p sim_usart_def)
  moreover have "usart_config sim_usart (uart_ports ! 0) (\<lambda>v. v)"
    by (auto simp: usart_config_def p sim_usart_def)
  ultimately show ?thesis by (simp add: usart_conforms_def UART_PORT_0_def)
qed

text \<open>Where the clock divides evenly, the configured port runs at exactly the rate asked for, with both
  directions enabled and eight data bits, and nothing was sent or taken from the receiver.\<close>

theorem initialize_uart_exact:
  assumes "usart_conforms io port V" and "0 < x" and "FOSC mod (16 * x) = 0" and "FOSC div 16 div x \<le> 65536" and "x \<le> FOSC div 16"
    and "p = uart_ports ! port" and "c = uv_cfg (V (initialize_uart io port (MYUBRR x) d))"
  shows "uart_baud c p = x \<and> bit (c (ucsrb p)) RXEN \<and> bit (c (ucsrb p)) TXEN \<and> bit (c (ucsrc p)) UCSZ0 \<and>
    bit (c (ucsrc p)) UCSZ1 \<and> uv_tx (V (initialize_uart io port (MYUBRR x) d)) = uv_tx (V d) \<and>
    uv_rx (V (initialize_uart io port (MYUBRR x) d)) = uv_rx (V d)"
proof -
  have port: "port < 2" using assms(1) by (simp add: usart_conforms_def)
  have c: "c = uart_setup port (MYUBRR x) (uv_cfg (V d))" by (simp add: assms(7) initialize_uart_view [OF assms(1)])
  have "uart_baud c p = x" unfolding c assms(6) by (rule uart_setup_baud [OF port assms(2-5)])
  moreover have "c (ucsrb p) = push_bit RXEN 1 OR push_bit TXEN 1" "c (ucsrc p) = push_bit UCSZ1 1 OR push_bit UCSZ0 1"
    using uart_regs_distinct [OF port] by (simp_all add: c assms(6) uart_setup_def Let_def)
  ultimately show ?thesis
    by (simp add: initialize_uart_view [OF assms(1)] RXEN_def TXEN_def UCSZ0_def UCSZ1_def bit_simps)
qed

theorem initialize_uart_exact_witness:
  "uart_baud (uv_cfg (initialize_uart sim_usart UART_PORT_0 (MYUBRR BUAD_UART_0) (usart_reset []))) (uart_ports ! UART_PORT_0) = 38400"
  using initialize_uart_exact [OF sim_usart_conforms, of BUAD_UART_0 _ _ "usart_reset []"] by (simp add: BUAD_UART_0_def FOSC_def)

text \<open>C38. After \<open>initialize_stdio\<close>, a text printed to standard output terminates on a working port and is sent
  on port 0 in order, each newline as carriage return and newline; of the bytes that arrive on the port, which
  the model lets wait for a read, none is taken.\<close>

theorem stdio_prints:
  assumes "usart_conforms io UART_PORT_0 V"
  shows "\<exists>d'. c_fputs (the (initialize_stdio io stream)) t d = Some d' \<and>
    uv_tx (V d') = uv_tx (V d) @ concat (map stdio_bytes t) \<and> map snd (uv_rx (V d')) = map snd (uv_rx (V d)) \<and>
    uv_cfg (V d') = uv_cfg (V d)"
  using fputs_sends [OF assms] by (simp add: initialize_stdio_def uart_sent_def)

theorem stdio_prints_witness:
  "\<exists>d'. c_fputs (the (initialize_stdio sim_usart None)) [111, 107, 10] (usart_reset [(1, 62)]) = Some d' \<and>
    uv_tx d' = [111, 107, 13, 10] \<and> map snd (uv_rx d') = [62]"
  using stdio_prints [OF sim_usart_conforms, of None "[111, 107, 10]" "usart_reset [(1, 62)]"]
  by (auto simp: stdio_bytes_def usart_reset_def simp del: c_fputs.simps)

end
