(* ===== verification/Uart.thy ===== *)
theory Uart
  imports Usart
begin

text \<open>
  The memory dumps of src/utils.c, as the bytes they send to a serial port (\<open>Usart\<close> shows that a port sends
  them), and the hexadecimal output, which reads back.
\<close>

section \<open>Dumps\<close>

text \<open>\<open>"0x%02X "\<close>.\<close>

definition fmt_0x :: "u8 \<Rightarrow> u8 list" where
  "fmt_0x b = cstr ''0x'' @ hex_02 (unat b) @ [32]"

definition dump_byte :: "u8 \<Rightarrow> u8 list" where
  "dump_byte b = fmt_0x b"

definition dump_nbytes :: "u8 list \<Rightarrow> u8 list" where
  "dump_nbytes ptr = concat (map fmt_0x ptr) @ [10, 13]"

definition uart_trace :: "u8 list" where
  "uart_trace = cstr ''trace'' @ [13, 10]"

text \<open>\<open>dump_bin\<close>: \<open>ascii\<close> is the local array of 18 bytes, not initialised; it holds the printable form of
  the row that was dumped last.\<close>

fun dump_bin_loop :: "nat \<Rightarrow> u8 list \<Rightarrow> u8 list \<Rightarrow> u8 list \<times> nat \<times> u8 list" where
  "dump_bin_loop i ascii [] = ([], i, ascii)"
| "dump_bin_loop i ascii (b # bs) =
    (let row = (if i mod 16 = 0
           then (if i \<noteq> 0 then [32, 32] else []) @ uart_write_str ascii @ [13, 10] @ [32, 32] @
             uart_write_hex (of_nat (i div 256)) @ uart_write_hex (of_nat i) @ [32, 32]
           else []);
         cell = [32] @ uart_write_hex b;
         ascii = ascii[i mod 16 := if \<not> c_isprint b then 46 else b];
         ascii = ascii[i mod 16 + 1 := 0];
         (out, i, ascii) = dump_bin_loop (i + 1) ascii bs
     in (row @ cell @ out, i, ascii))"

definition dump_bin :: "u8 list \<Rightarrow> u8 list \<Rightarrow> u8 list" where
  "dump_bin ascii bin =
    (let (out, i, ascii) = dump_bin_loop 0 ascii bin
     in cstr ''HEXDATA'' @ [13, 10, 13, 10] @ out @ replicate ((16 - i mod 16) mod 16) 32 @
       [32, 32] @ uart_write_str ascii @ [13, 10])"

section \<open>Hexadecimal output reads back\<close>

lemma hex_digit_value:
  "n < 16 \<Longrightarrow> c_isxdigit (hex_digit n) \<and> hex_val (hex_digit n) = uint n"
proof -
  assume "n < 16"
  have "list_all (\<lambda>d. c_isxdigit (hex_digit (of_nat d)) \<and> hex_val (hex_digit (of_nat d)) = int d) [0..<16]"
    by code_simp
  then have "unat n < 16 \<Longrightarrow> c_isxdigit (hex_digit (of_nat (unat n))) \<and> hex_val (hex_digit (of_nat (unat n))) = int (unat n)"
    by (simp only: list_all_iff set_upt Ball_def atLeastLessThan_iff) blast
  moreover have "unat n < 16" using \<open>n < 16\<close> by (simp add: word_less_nat_alt)
  ultimately show ?thesis by simp
qed

lemma mask_15: "(15 :: u8) = mask 4"
  by (simp add: mask_eq_exp_minus_1)

lemma take_bit_uint_self: "take_bit 8 (uint (n :: u8)) = uint n" "take_bit 32 (uint (v :: u32)) = uint v"
  using unsigned_less [of n, where ?'a = int] unsigned_less [of v, where ?'a = int]
  by (simp_all add: take_bit_int_eq_self)

lemma nibble_high: "drop_bit 4 n AND 15 < (16 :: u8) \<and> uint (drop_bit 4 n AND 15 :: u8) = uint n div 16"
proof -
  have "uint n < 256" "0 \<le> uint n" using unsigned_less [of n, where ?'a = int] by simp_all
  then have u: "uint n div 16 < 16" "0 \<le> uint n div 16" by linarith+
  have "uint (drop_bit 4 n AND 15) = take_bit 4 (drop_bit 4 (uint n))"
    by (simp add: mask_15 take_bit_eq_mask [symmetric] unsigned_take_bit_eq unsigned_drop_bit_eq take_bit_uint_self)
  also have "\<dots> = uint n div 16" using u by (simp add: take_bit_eq_mod drop_bit_eq_div)
  finally show ?thesis using u by (simp add: word_less_def)
qed

lemma nibble_low: "drop_bit 4 (push_bit 4 n) AND 15 < (16 :: u8) \<and> uint (drop_bit 4 (push_bit 4 n) AND 15 :: u8) = uint n mod 16"
proof -
  have "drop_bit 4 (push_bit 4 n) AND 15 = take_bit 4 n"
    unfolding mask_15 by (rule bit_word_eqI) (auto simp: bit_simps)
  then have "uint (drop_bit 4 (push_bit 4 n) AND 15) = take_bit 4 (uint n)" by (simp only: unsigned_take_bit_eq)
  also have "\<dots> = uint n mod 16" by (simp add: take_bit_eq_mod)
  finally have "uint (drop_bit 4 (push_bit 4 n) AND 15) = uint n mod 16" .
  then show ?thesis by (simp add: word_less_def)
qed

lemma uart_write_hex_value:
  "\<exists>a b. uart_write_hex n = [a, b] \<and> c_isxdigit a \<and> c_isxdigit b \<and> 16 * hex_val a + hex_val b = uint n"
  using hex_digit_value [OF conjunct1 [OF nibble_high [of n]]] hex_digit_value [OF conjunct1 [OF nibble_low [of n]]]
    nibble_high [of n] nibble_low [of n]
  by (auto simp: uart_write_hex_def Let_def)

definition hex_fold :: "int \<Rightarrow> u8 list \<Rightarrow> int" where
  "hex_fold = foldl (\<lambda>n b. 16 * n + hex_val b)"

lemma uart_write_hex_fold:
  "list_all c_isxdigit (uart_write_hex n) \<and> hex_fold k (uart_write_hex n @ xs) = hex_fold (256 * k + uint n) xs"
proof -
  obtain a b where h: "uart_write_hex n = [a, b]" "c_isxdigit a" "c_isxdigit b" and v: "16 * hex_val a + hex_val b = uint n"
    using uart_write_hex_value [of n] by blast
  have "16 * (16 * k + hex_val a) + hex_val b = 256 * k + uint n" using v by simp
  then show ?thesis using h by (simp add: hex_fold_def del: distrib_left_numeral)
qed

lemma u32_bytes: "256 * (256 * (256 * (256 * 0 + uint (ucast (drop_bit 24 v) :: u8)) + uint (ucast (drop_bit 16 v) :: u8)) +
    uint (ucast (drop_bit 8 v) :: u8)) + uint (ucast v :: u8) = uint (v :: u32)"
proof -
  have b: "uint (ucast (drop_bit k v) :: u8) = (uint v div 2 ^ k) mod 256" for k
  proof -
    have "uint (ucast (drop_bit k v) :: u8) = take_bit 8 (drop_bit k (uint v))"
      by (simp only: unsigned_ucast_eq unsigned_drop_bit_eq) (simp add: take_bit_uint_self)
    also have "\<dots> = (uint v div 2 ^ k) mod 256" by (simp only: take_bit_eq_mod drop_bit_eq_div) simp
    finally show ?thesis .
  qed
  have b0: "uint (ucast v :: u8) = uint v mod 256" using b [of 0] by simp
  have r: "0 \<le> uint v" "uint v < 4294967296" using unsigned_less [of v, where ?'a = int] by simp_all
  define x y z where "x = uint v" and "y = x div 256" and "z = y div 256"
  have y: "uint v div 2 ^ 8 = y" and z: "uint v div 2 ^ 16 = z" and t: "uint v div 2 ^ 24 = z div 256"
    by (simp_all add: x_def y_def z_def flip: zdiv_zmult2_eq)
  have "z div 256 < 256" "0 \<le> z div 256" using r unfolding x_def [symmetric] z_def y_def by linarith+
  then have "z div 256 mod 256 = z div 256" by simp
  then show ?thesis unfolding b b0 y z t unfolding x_def [symmetric]
    using mult_div_mod_eq [of 256 z] mult_div_mod_eq [of 256 y, folded z_def] mult_div_mod_eq [of 256 x, folded y_def]
    by (simp only: mult_zero_right add_0)
qed

lemma c_strtol16_digits:
  assumes "list_all c_isxdigit s" and "s \<noteq> []"
  shows "c_strtol16 (s @ [0]) = hex_fold 0 s"
proof -
  have x: "b \<noteq> 0 \<and> \<not> c_isspace b \<and> b \<noteq> 45 \<and> b \<noteq> 43" if "c_isxdigit b" for b
    using that by (auto simp: c_isxdigit_def c_isspace_def word_le_nat_alt)
  then have str: "c_str (s @ [0]) = s" using assms(1) by (intro c_str_append) (auto simp: list_all_iff)
  obtain b t where s: "s = b # t" using assms(2) by (cases s) auto
  have t: "takeWhile c_isxdigit t = t" using assms(1) s by (simp add: list_all_iff)
  then show ?thesis using assms(1) x s str by (simp add: c_strtol16_def hex_digits_def hex_fold_def t)
qed

theorem uart_write_32_roundtrip:
  "length (uart_write_32 v) = 8 \<and> c_strtol16 (uart_write_32 v @ [0]) = uint v"
proof -
  let ?b = "\<lambda>k. ucast (drop_bit k v) :: u8"
  have dig: "list_all c_isxdigit (uart_write_32 v)"
    using uart_write_hex_fold [of "?b 24"] uart_write_hex_fold [of "?b 16"] uart_write_hex_fold [of "?b 8"]
      uart_write_hex_fold [of "ucast v"]
    by (simp add: uart_write_32_def)
  have len: "length (uart_write_32 v) = 8" by (simp add: uart_write_32_def uart_write_hex_def Let_def)
  then have "uart_write_32 v \<noteq> []" by auto
  then have "c_strtol16 (uart_write_32 v @ [0]) = hex_fold 0 (uart_write_32 v)" by (rule c_strtol16_digits [OF dig])
  also have "\<dots> = hex_fold (256 * (256 * (256 * (256 * 0 + uint (?b 24)) + uint (?b 16)) + uint (?b 8)) + uint (ucast v :: u8)) []"
    unfolding uart_write_32_def using uart_write_hex_fold [of "ucast v :: u8" _ "[]"]
    by (simp only: append.assoc append_Nil2 conjunct2 [OF uart_write_hex_fold])
  also have "\<dots> = uint v" unfolding u32_bytes by (simp add: hex_fold_def)
  finally show ?thesis using len by simp
qed

section \<open>Properties\<close>

text \<open>A 32-bit value written to a working port with \<open>uart_write_32\<close> arrives as eight hexadecimal digits that
  read back as the value; the call terminates and no byte received meanwhile is lost.\<close>

theorem uart_put_32_roundtrip:
  assumes "usart_conforms io port V"
  shows "\<exists>d' h. uart_put_32 io port v d = Some d' \<and> uv_tx (V d') = uv_tx (V d) @ h \<and> length h = 8 \<and>
    c_strtol16 (h @ [0]) = uint v \<and> map snd (uv_rx (V d')) = map snd (uv_rx (V d))"
  using put_32_sends [OF assms] uart_write_32_roundtrip [of v] by (fastforce simp: uart_sent_def)

theorem uart_put_32_roundtrip_witness:
  "\<exists>d' h. uart_put_32 sim_usart UART_PORT_0 0xDEAD0459 (usart_reset []) = Some d' \<and> uv_tx d' = h \<and> length h = 8 \<and>
    c_strtol16 (h @ [0]) = 0xDEAD0459"
  using uart_put_32_roundtrip [OF sim_usart_conforms, of "0xDEAD0459" "usart_reset []"] by (simp add: usart_reset_def) blast

end
