(* ===== verification/Firmware.thy ===== *)
theory Firmware
  imports Fat Obd I2c Uart
begin

text \<open>
  src/main.c: the start-up sequence and the display loop, which bring the components together. What
  surrounds the firmware (the devices on the buses, the receive interrupt, the allocator, the memory
  image of the command table, the floating-point library, the uninitialised stack) is collected in the
  record \<open>platform\<close>; the firmware's globals are in the record \<open>fw\<close>. That they are separate fields is right as long
  as every store stays inside its array; a store outside the memory listed for it (\<open>pl_stack\<close> from the local
  buffers of the ELM327 code on, \<open>fw_buf\<close> for \<open>buf\<close> of \<open>main\<close>, which is followed by \<open>pl_behind\<close>) has no result
  here. Messages to the debug console are not modelled, and the display is a device on the I2C bus.
\<close>

record ('c, 'e, 'h, 'f) platform =
  pl_bus :: "'c spi_bus"
  pl_rx :: "'e \<Rightarrow> u8 list \<times> 'e"
  pl_twi :: "'h twi_hw"
  pl_fl :: "'f float_ops"
  pl_malloc :: "heap \<Rightarrow> addr"
  pl_image :: "nat \<Rightarrow> u8 list"
  pl_cmd :: "u8 list \<Rightarrow> obd_cmd"
  pl_stack :: "u8 list"
  pl_ret :: "u8 list"
  pl_behind :: "u8 list"
  pl_junk_file :: fat32_file

record ('c, 'e, 'h) fw =
  fw_mcu :: "'c mcu"
  fw_elm :: "'e elm_world"
  fw_twi :: "'h twi"
  fw_sd :: sd_ctx
  fw_io :: io_ctx
  fw_fat :: fat32_ctx
  fw_obd :: obd_ctx
  fw_heap :: heap
  fw_buf :: "u8 list"
  fw_uart :: "uart_reg \<Rightarrow> u8"

section \<open>The display\<close>

text \<open>\<open>snprintf(dst, n, ...)\<close> of a text.\<close>

definition c_snprintf :: "nat \<Rightarrow> u8 list \<Rightarrow> u8 list \<Rightarrow> u8 list" where
  "c_snprintf n text dst = (let t = take (n - 1) text in t @ 0 # drop (Suc (length t)) dst)"

text \<open>Where a value is shown, and its label; the other PIDs are not displayed.\<close>

definition fw_line :: "u8 \<Rightarrow> (u8 \<times> u8 list) option" where
  "fw_line pid =
    (if pid = obd_pid_of ''ENGINE_RPM'' then Some (0x00, cstr ''RPM: '')
     else if pid = obd_pid_of ''CALCULATED_ENGINE_LOAD'' then Some (0x40, cstr ''LOAD: '')
     else if pid = obd_pid_of ''ENGINE_COOLANT_TEMP_1'' then Some (0x14, cstr ''TEMP: '')
     else if pid = obd_pid_of ''VEHICLE_SPEED'' then Some (0x54, cstr ''SPEED: '')
     else None)"

text \<open>The cursor command, then 20 bytes of \<open>lcd_screen\<close>, which was cleared before.\<close>

definition lcd_print :: "'h twi_hw \<Rightarrow> u8 \<Rightarrow> u8 list \<Rightarrow> u8 list \<Rightarrow> 'h twi \<Rightarrow> (u8 list \<times> 'h twi) option" where
  "lcd_print hw pos text buf w =
    do {
      buf \<leftarrow> Some (buf[0 := 0xFE, 1 := 0x45, 2 := pos]);
      (_, _, w) \<leftarrow> i2c_io hw 0x50 (take 3 buf) [] 0 [] w;
      (_, _, w) \<leftarrow> i2c_io hw 0x50 (c_snprintf 20 text (replicate 20 0)) [] 0 [] w;
      Some (buf, w)
    }"

section \<open>One pass of the loop\<close>

text \<open>The call through \<open>handle_data\<close>; \<open>ret\<close> is the text in the local array before the call.\<close>

definition obd_handle ::
  "('c, 'e, 'h, 'f) platform \<Rightarrow> obd_handler \<Rightarrow> u8 list \<Rightarrow> u8 list \<Rightarrow> obd_ctx \<Rightarrow> heap \<Rightarrow> (u8 list \<times> obd_ctx \<times> heap) option" where
  "obd_handle P hnd dat ret ctx h =
    (case hnd of
       Set_supported_ops \<Rightarrow>
         do {
           (ctx, h) \<leftarrow> obd_set_supported_ops (pl_malloc P) (pl_image P) (le32 (dat ! 0) (dat ! 1) (dat ! 2) (dat ! 3)) ctx h;
           Some (ret, ctx, h)
         }
     | Get_engine_load \<Rightarrow> Some (obd_get_engine_load (pl_fl P) dat, ctx, h)
     | Get_coolant_temp \<Rightarrow> Some (obd_get_coolant_temp dat, ctx, h)
     | Get_fuel_trim \<Rightarrow> Some (obd_get_fuel_trim (pl_fl P) dat, ctx, h)
     | Get_fuel_pressure \<Rightarrow> Some (obd_get_fuel_pressure dat, ctx, h)
     | Get_manifold_pressure \<Rightarrow> Some (obd_get_manifold_pressure dat, ctx, h)
     | Get_engine_rpm \<Rightarrow> Some (obd_get_engine_rpm dat, ctx, h)
     | Get_vehicle_speed \<Rightarrow> Some (obd_get_vehicle_speed dat, ctx, h)
     | Get_timing_advance \<Rightarrow> Some (obd_get_timing_advance dat, ctx, h)
     | Get_air_temp \<Rightarrow> Some (obd_get_air_temp dat, ctx, h)
     | Get_maf_rate \<Rightarrow> Some (obd_get_maf_rate dat, ctx, h)
     | Get_throttle_pos \<Rightarrow> Some (obd_get_throttle_pos (pl_fl P) dat, ctx, h)
     | Get_oxygen_sensors \<Rightarrow> Some (obd_get_oxygen_sensors dat, ctx, h)
     | Get_oxygen_data \<Rightarrow> Some (obd_get_oxygen_data (pl_fl P) dat, ctx, h))"

text \<open>The body of the inner loop for one command. A displayed command without units would print a null
  pointer; the model stops there (\<open>None\<close>).\<close>

definition fw_visit ::
  "('c, 'e, 'h, 'f) platform \<Rightarrow> obd_cmd \<Rightarrow> ('c, 'e, 'h) fw \<Rightarrow> ('c, 'e, 'h) fw option" where
  "fw_visit P cmd s =
    (case handle_data cmd of
       None \<Rightarrow> Some s
     | Some hnd \<Rightarrow>
         do {
           (r, buf, w) \<leftarrow> obd_command (pl_rx P) (pl_stack P) (obd_cmd_text cmd) (fw_buf s) 64 (fw_elm s);
           let s = s\<lparr>fw_elm := w, fw_buf := buf\<rparr>;
           if r < 0 then Some s
           else do {
             (ret, ctx, h) \<leftarrow> obd_handle P hnd (fw_buf s) (pl_ret P) (fw_obd s) (fw_heap s);
             let s = s\<lparr>fw_obd := ctx, fw_heap := h\<rparr>;
             case fw_line (obd_pid cmd) of
               None \<Rightarrow> Some s
             | Some (pos, label) \<Rightarrow>
                 do {
                   units \<leftarrow> obd_units cmd;
                   (buf, w) \<leftarrow> lcd_print (pl_twi P) pos (label @ ret @ units) (fw_buf s) (fw_twi s);
                   Some (s\<lparr>fw_twi := w, fw_buf := buf\<rparr>)
                 }
           }
         })"

partial_function (option) fw_loop ::
  "('c, 'e, 'h, 'f) platform \<Rightarrow> addr \<Rightarrow> ('c, 'e, 'h) fw \<Rightarrow> ('c, 'e, 'h) fw option" where
  "fw_loop P ptr s =
    (if ptr = 0 then Some s
     else do {
       n \<leftarrow> hp_node (fw_heap s) ptr;
       d \<leftarrow> hp_data (fw_heap s) (nd_data n);
       s \<leftarrow> fw_visit P (pl_cmd P d) s;
       n \<leftarrow> hp_node (fw_heap s) ptr;
       fw_loop P (nd_next n) s
     })"

text \<open>The body of \<open>while (1)\<close>: the home command, the list, and the toggled pin.\<close>

definition fw_toggle :: "'c spi_bus \<Rightarrow> 'c mcu \<Rightarrow> 'c mcu" where
  "fw_toggle bus m =
    (let g = m_gpio m;
         g = g\<lparr>port_out := (port_out g)(PORTB := port_out g PORTB XOR push_bit 0 1)\<rparr>
     in m\<lparr>m_gpio := g, m_dev := bus_lines bus g (m_dev m)\<rparr>)"

definition fw_pass :: "('c, 'e, 'h, 'f) platform \<Rightarrow> ('c, 'e, 'h) fw \<Rightarrow> ('c, 'e, 'h) fw option" where
  "fw_pass P s =
    do {
      buf \<leftarrow> Some ((fw_buf s)[0 := 0xFE, 1 := 0x46]);
      (_, _, w) \<leftarrow> i2c_io (pl_twi P) 0x50 (take 2 buf) [] 0 [] (fw_twi s);
      s \<leftarrow> fw_loop P (linked_list (fw_obd s)) (s\<lparr>fw_buf := buf, fw_twi := w\<rparr>);
      Some (s\<lparr>fw_mcu := fw_toggle (pl_bus P) (fw_mcu s)\<rparr>)
    }"

section \<open>Start-up\<close>

text \<open>The devices see the port lines once they are all set. The results of the initialisations are only
  reported on the debug console; the start-up goes on in any case.\<close>

definition fw_hardware :: "('c, 'e, 'h, 'f) platform \<Rightarrow> ('c, 'e, 'h) fw \<Rightarrow> ('c, 'e, 'h) fw" where
  "fw_hardware P s =
    (let g = initialize_pins atmega1284_pins (m_gpio (fw_mcu s));
         s = s\<lparr>fw_mcu := (fw_mcu s)\<lparr>m_gpio := g, m_dev := bus_lines (pl_bus P) g (m_dev (fw_mcu s))\<rparr>\<rparr>;
         s = s\<lparr>fw_uart := initialize_uart reg_file UART_PORT_0 (MYUBRR BUAD_UART_0) (fw_uart s)\<rparr>;
         s = s\<lparr>fw_uart := initialize_uart reg_file UART_PORT_1 (MYUBRR BUAD_UART_1) (fw_uart s)\<rparr>;
         s = s\<lparr>fw_uart := (fw_uart s)(UCSR1B := fw_uart s UCSR1B OR push_bit RXCIE 1)\<rparr>;
         s = s\<lparr>fw_elm := (fw_elm s)\<lparr>ew_fifo := initialize_fifo (ew_fifo (fw_elm s))\<rparr>\<rparr>;
         s = s\<lparr>fw_mcu := initialize_spi (pl_bus P) (fw_mcu s)\<rparr>
     in s\<lparr>fw_twi := initialize_i2c (fw_twi s)\<rparr>)"

definition fw_storage :: "('c, 'e, 'h, 'f) platform \<Rightarrow> ('c, 'e, 'h) fw \<Rightarrow> ('c, 'e, 'h) fw option" where
  "fw_storage P s =
    do {
      (_, sd, m) \<leftarrow> initialize_sd (pl_bus P) (fw_sd s) (fw_mcu s);
      (_, io, m) \<leftarrow> initialize_io (sd_ops (pl_bus P)) (fw_io s) sd m;
      (_, fat, io, m) \<leftarrow> initialize_fat32 (sd_ops (pl_bus P)) (pl_junk_file P) (fw_fat s) io sd m;
      Some (s\<lparr>fw_sd := sd, fw_io := io, fw_fat := fat, fw_mcu := m\<rparr>)
    }"

definition fw_vehicle :: "('c, 'e, 'h, 'f) platform \<Rightarrow> ('c, 'e, 'h) fw \<Rightarrow> ('c, 'e, 'h) fw option" where
  "fw_vehicle P s =
    do {
      (_, w) \<leftarrow> initialize_elm (pl_rx P) (pl_stack P) (fw_elm s);
      (_, ctx, h, w) \<leftarrow> initialize_obd (pl_rx P) (pl_malloc P) (pl_image P) (pl_stack P) (pl_stack P) (fw_obd s) (fw_heap s) w;
      Some (s\<lparr>fw_elm := w, fw_obd := ctx, fw_heap := h\<rparr>)
    }"

text \<open>The 13 bytes of the array on the stack of \<open>main\<close>, FE 54 and eleven zeros, sent to the display.\<close>

definition fw_lcd_on :: "('c, 'e, 'h, 'f) platform \<Rightarrow> ('c, 'e, 'h) fw \<Rightarrow> ('c, 'e, 'h) fw option" where
  "fw_lcd_on P s =
    do {
      buf \<leftarrow> Some ([0xFE, 0x54] @ replicate 11 0 @ pl_behind P);
      (_, _, w) \<leftarrow> i2c_io (pl_twi P) 0x50 (take 13 buf) [] 0 [] (fw_twi s);
      Some (s\<lparr>fw_twi := w, fw_buf := buf\<rparr>)
    }"

definition fw_start :: "('c, 'e, 'h, 'f) platform \<Rightarrow> ('c, 'e, 'h) fw \<Rightarrow> ('c, 'e, 'h) fw option" where
  "fw_start P s =
    do {
      s \<leftarrow> fw_storage P (fw_hardware P s);
      s \<leftarrow> fw_vehicle P s;
      fw_lcd_on P s
    }"

text \<open>The firmware after a number of passes of its endless loop.\<close>

primrec fw_run :: "('c, 'e, 'h, 'f) platform \<Rightarrow> nat \<Rightarrow> ('c, 'e, 'h) fw \<Rightarrow> ('c, 'e, 'h) fw option" where
  "fw_run P 0 s = Some s"
| "fw_run P (Suc n) s = do { s \<leftarrow> fw_pass P s; fw_run P n s }"

end
