(* ===== verification/Obd_Props.thy ===== *)
theory Obd_Props
  imports Obd
begin

text \<open>
  What src/obd.c does with the answers of the ELM327: the loop over the supported PIDs as pushes on
  the list, the in-place compaction as a filter, and the whole of \<open>obd_command\<close> and
  \<open>initialize_obd\<close> on an answer in hexadecimal.
\<close>

section \<open>Loops\<close>


lemma set_ops_push_all:
  "\<lbrakk>1 \<le> i; i \<le> 32\<rbrakk> \<Longrightarrow> set_ops_loop malloc img res i (push_bit (32 - i) 1) p h =
    push_all (list_push_head malloc) (map img (filter (\<lambda>j. bit res (32 - j)) [i..<32])) p h"
proof (induction "32 - i" arbitrary: i p h)
  case 0
  then show ?case by (simp add: set_ops_loop.simps)
next
  case (Suc k)
  then have i: "i < 32" "[i..<32] = i # [Suc i..<32]" "k = 32 - Suc i" by (auto simp: upt_conv_Cons)
  have m: "drop_bit 1 (push_bit (32 - i) (1 :: u32)) = push_bit (32 - Suc i) 1"
    using i Suc.prems by (intro bit_word_eqI) (auto simp: bit_simps)
  have b: "res AND push_bit (32 - i) 1 \<noteq> 0 \<longleftrightarrow> bit res (32 - i)"
    by (simp add: and_exp_eq_0_iff_not_bit push_bit_eq_mult)
  show ?case
    using Suc.hyps(1) [OF i(3)] i Suc.prems m b
    by (subst set_ops_loop.simps, cases "list_push_head malloc p (img i) h") (auto split: prod.split)
qed

lemma find_sub_none: "\<lbrakk>c \<in> set s; c \<notin> set t\<rbrakk> \<Longrightarrow> find_sub s t = None"
proof (induction t)
  case (Cons b t)
  then have "take (length s) (b # t) \<noteq> s" by (metis in_set_takeD)
  with Cons show ?case by auto
qed auto

lemma find_sub_skip:
  "c1 \<notin> set pre \<Longrightarrow> find_sub [c1, c2] (pre @ c1 # c2 # rest) = Some (length pre)"
  by (induction pre) auto

lemma takeWhile_append_stop: "\<forall>x\<in>set s. P x \<Longrightarrow> \<not> P z \<Longrightarrow> takeWhile P (s @ z # r) = s"
  by (induction s) auto

lemma obd_fmt_loop_run:
  assumes "0 \<notin> set s" and "i \<le> length s" and "n = length (filter c_isxdigit (take i s))"
    and "length str = length s + Suc (length r)" and "take n str = filter c_isxdigit (take i s)"
    and "drop i str = drop i s @ 0 # r" and "0 \<notin> set (take i str)"
  shows "\<exists>str'. obd_fmt_loop i n str = (length (filter c_isxdigit s), str') \<and> length str' = length str \<and>
    take (length (filter c_isxdigit s)) str' = filter c_isxdigit s"
  using assms
proof (induction "length s - i" arbitrary: i n str)
  case 0
  then have i: "i = length s" by simp
  have "str = take i str @ 0 # r" using 0 i by (metis append_take_drop_id drop_all le_refl append_Nil)
  then have "c_str str = take i str" using c_str_append [OF 0(8)] by metis
  then have "c_strlen str = length s" using 0 i by (simp add: c_strlen_def)
  then show ?case using 0 i by (subst obd_fmt_loop.simps) simp
next
  case (Suc k)
  then have i: "i < length s" by simp
  have str: "str = (take i str @ drop i s) @ 0 # r" using Suc.prems(6) by (metis append_take_drop_id append_assoc)
  have nz: "0 \<notin> set (take i str @ drop i s)" using Suc.prems(1,7) by (auto dest: in_set_dropD)
  have len: "c_strlen str = length s"
    using c_str_append [OF nz, of r] str i Suc.prems(4) by (simp add: c_strlen_def)
  have si: "str ! i = s ! i" using Suc.prems(6) i Suc.prems(4)
    by (metis Cons_nth_drop_Suc append_Cons hd_drop_conv_nth list.sel(1) less_trans less_add_same_cancel1 zero_less_Suc)
  have d: "drop (Suc i) str = drop (Suc i) s @ 0 # r"
    using Suc.prems(6) i by (metis drop_Suc tl_drop tl_append2 drop_eq_Nil linorder_not_le)
  have sub: "n \<le> i" using Suc.prems(3) i by (metis length_filter_le length_take min.absorb4 le_trans less_imp_le min.absorb2)
  have tk: "take (Suc i) s = take i s @ [s ! i]" using i by (rule take_Suc_conv_app_nth)
  have tks: "take (Suc i) str = take i str @ [s ! i]"
    using i Suc.prems(4) si by (simp add: take_Suc_conv_app_nth)
  have szi: "s ! i \<noteq> 0" using Suc.prems(1) i by (metis nth_mem)
  have disj: "c_isspace b \<Longrightarrow> \<not> c_isxdigit b" for b
    by (auto simp: c_isspace_def c_isxdigit_def word_le_nat_alt)
  show ?case
  proof (cases "c_isxdigit (s ! i)")
    case True
    let ?str = "str[n := s ! i]"
    have step: "obd_fmt_loop i n str = obd_fmt_loop (Suc i) (Suc n) ?str"
      using True disj len i si by (subst obd_fmt_loop.simps) auto
    have nl: "n < length str" using sub i Suc.prems(4) by simp
    have "take (Suc n) ?str = filter c_isxdigit (take (Suc i) s)"
      using Suc.prems(3,5) True tk nl by (simp add: take_Suc_conv_app_nth)
    moreover have "drop (Suc i) ?str = drop (Suc i) s @ 0 # r" using d sub by simp
    moreover have "0 \<notin> set (take (Suc i) ?str)"
      using Suc.prems(7) tks szi set_update_subset_insert [of "take (Suc i) str" n "s ! i"]
      by (auto simp: take_update_swap)
    moreover have "k = length s - Suc i" using Suc.hyps(2) by simp
    moreover have "Suc n = length (filter c_isxdigit (take (Suc i) s))" using Suc.prems(3) True tk by simp
    ultimately show ?thesis
      using Suc.hyps(1) [of "Suc i" "Suc n" ?str] Suc.prems(1,4) i step by simp
  next
    case False
    have step: "obd_fmt_loop i n str = obd_fmt_loop (Suc i) n str"
      using False len i si by (subst obd_fmt_loop.simps) auto
    show ?thesis
      using Suc.hyps(1) [of "Suc i" n str] Suc.hyps(2) Suc.prems False tk tks szi d i step by simp
  qed
qed

lemma obd_fmt_resp_filter:
  assumes "0 \<notin> set s"
  shows "\<exists>str'. obd_fmt_resp (s @ 0 # r) = (if odd (length (filter c_isxdigit s)) then - 1 else 0, str') \<and>
    c_str str' = filter c_isxdigit s \<and> length str' = Suc (length s + length r)"
proof -
  let ?f = "filter c_isxdigit s"
  obtain str where str: "obd_fmt_loop 0 0 (s @ 0 # r) = (length ?f, str)" "length str = length (s @ 0 # r)"
    "take (length ?f) str = ?f"
    using obd_fmt_loop_run [OF assms, of 0 0 "s @ 0 # r" r] by auto
  have "length ?f < length str" using str(2) by (simp add: le_imp_less_Suc trans_le_add1)
  then have "str[length ?f := 0] = ?f @ 0 # drop (Suc (length ?f)) str"
    using str(3) by (simp add: upd_conv_take_nth_drop)
  then have "c_str (str[length ?f := 0]) = ?f" using assms by (auto intro!: c_str_append)
  then show ?thesis using str by (simp add: obd_fmt_resp_def c_strlen_def odd_iff_mod_2_eq_one)
qed

section \<open>An answer in hexadecimal\<close>

definition hex_pair :: "u8 \<Rightarrow> u8 list" where
  "hex_pair b = [hex_char (unat b div 16), hex_char (unat b mod 16)]"

definition elm_hex :: "u8 list \<Rightarrow> u8 list" where
  "elm_hex bs = concat (map (\<lambda>b. hex_pair b @ [32]) bs)"

lemma hex_pair_digits: "unat (b :: u8) div 16 < 16" "unat b mod 16 < 16"
  using unat_u8_less [of b] by (simp_all add: less_mult_imp_div_less)

lemma hex_pair_filter: "filter c_isxdigit (hex_pair b) = hex_pair b"
  by (simp add: hex_pair_def hex_char_props hex_pair_digits)

lemma hex_pair_value: "word_of_int (c_strtol16 (hex_pair b @ [0])) = b"
proof -
  let ?h = "hex_char (unat b div 16)" and ?l = "hex_char (unat b mod 16)"
  note h = hex_char_props [OF hex_pair_digits(1), of b] and l = hex_char_props [OF hex_pair_digits(2), of b]
  have z: "\<not> c_isxdigit 0" by (simp add: c_isxdigit_def)
  have s: "c_str [?h, ?l, 0] = [?h, ?l]" using h l by (simp add: c_str_def)
  have "c_strtol16 [?h, ?l, 0] = 16 * int (unat b div 16) + int (unat b mod 16)"
    using h l by (simp add: c_strtol16_def s hex_digits_def)
  also have "\<dots> = int (16 * (unat b div 16) + unat b mod 16)" by (simp only: of_nat_add of_nat_mult of_nat_numeral)
  also have "\<dots> = int (unat b)" by (simp only: mult_div_mod_eq)
  finally show ?thesis by (simp add: hex_pair_def)
qed

lemma elm_hex_Cons: "elm_hex (b # bs) = hex_pair b @ 32 # elm_hex bs"
  by (simp add: elm_hex_def)

lemma hex_pair_set: "c \<in> {0, 62, 79} \<Longrightarrow> c \<notin> set (hex_pair b)"
  using hex_char_props [OF hex_pair_digits(1), of b] hex_char_props [OF hex_pair_digits(2), of b]
  by (auto simp: hex_pair_def)

lemma elm_hex_set: "c \<in> {0, 62, 79} \<Longrightarrow> c \<notin> set (elm_hex bs)"
  using hex_pair_set [of c] by (induction bs) (auto simp: elm_hex_def)

lemma elm_hex_filter: "filter c_isxdigit (elm_hex bs) = concat (map hex_pair bs)"
proof (induction bs)
  case Nil
  then show ?case by (simp add: elm_hex_def)
next
  case (Cons b bs)
  have "\<not> c_isxdigit 32" by (simp add: c_isxdigit_def)
  then show ?case using Cons by (simp add: elm_hex_Cons hex_pair_filter)
qed

lemma length_elm_hex: "length (elm_hex bs) = 3 * length bs"
  by (induction bs) (simp_all add: elm_hex_def hex_pair_def)

lemma length_hex_pairs: "length (concat (map hex_pair bs)) = 2 * length bs"
  by (induction bs) (simp_all add: hex_pair_def)

lemma hex_pairs_nth:
  "i < length bs \<Longrightarrow> [concat (map hex_pair bs) ! (i * 2), concat (map hex_pair bs) ! (i * 2 + 1)] = hex_pair (bs ! i)"
proof (induction bs arbitrary: i)
  case (Cons b bs)
  then show ?case by (cases i) (auto simp: hex_pair_def)
qed simp

lemma c_str_nth: "i < c_strlen s \<Longrightarrow> s ! i = c_str s ! i"
  by (simp add: c_strlen_def c_str_def takeWhile_nth)

lemma obd_byte_hex:
  assumes "c_str data = concat (map hex_pair bs)" and "i < length bs"
  shows "obd_byte data i = bs ! i"
proof -
  have "c_strlen data = 2 * length bs" using assms(1) by (simp add: c_strlen_def length_hex_pairs)
  then have "[data ! (i * 2), data ! (i * 2 + 1)] = hex_pair (bs ! i)"
    using assms c_str_nth [of "i * 2" data] c_str_nth [of "i * 2 + 1" data] hex_pairs_nth [OF assms(2)] by simp
  then have "[data ! (i * 2), data ! (i * 2 + 1), 0] = hex_pair (bs ! i) @ [0]" by simp
  then show ?thesis by (simp only: obd_byte_def hex_pair_value)
qed

lemma fold_store: "n \<le> length ret \<Longrightarrow> fold (\<lambda>i ret. ret[i := f i]) [0..<n] ret = map f [0..<n] @ drop n ret"
proof (induction n)
  case (Suc n)
  then have "drop n ret = ret ! n # drop (Suc n) ret" by (simp add: Cons_nth_drop_Suc)
  with Suc show ?case by (simp add: list_update_append)
qed simp

lemma obd_store_hex:
  assumes "c_str data = concat (map hex_pair bs)"
  shows "obd_store data ret = (if length bs \<le> length ret then Some (bs @ drop (length bs) ret) else None)"
proof -
  have "c_strlen data div 2 = length bs" using assms(1) by (simp add: c_strlen_def length_hex_pairs)
  moreover have "map (obd_byte data) [0..<length bs] = bs"
    using obd_byte_hex [OF assms] by (intro nth_equalityI) simp_all
  ultimately show ?thesis using fold_store [of "length bs" ret "obd_byte data"] by (simp add: obd_store_def)
qed


lemma find_sub_some: "find_sub s (a @ s @ b) \<noteq> None"
proof (induction a)
  case Nil
  then show ?case by (cases s; cases b) auto
qed simp

section \<open>The decoding functions\<close>

lemma int16_id: "\<lbrakk>- 32768 \<le> i; i < 32768\<rbrakk> \<Longrightarrow> int16 i = i"
  by (simp add: int16_def signed_take_bit_int_eq_self)

lemma int16_over:
  assumes "32768 \<le> i" and "i < 65536"
  shows "int16 i = i - 65536"
proof -
  have "take_bit (Suc 15) i = take_bit (Suc 15) (i - 65536)" by (simp add: take_bit_eq_mod)
  then have "signed_take_bit 15 i = signed_take_bit 15 (i - 65536)"
    by (simp only: signed_take_bit_eq_iff_take_bit_eq)
  also have "\<dots> = i - 65536" using assms by (intro signed_take_bit_int_eq_self) simp_all
  finally show ?thesis by (simp only: int16_def)
qed

lemma uint_u8: "uint (x :: u8) < 256" "0 \<le> uint x"
  using unsigned_less [of x, where ?'a = int] by simp_all

lemma sdiv_pos: "\<lbrakk>0 \<le> a; 0 < b\<rbrakk> \<Longrightarrow> (a :: int) sdiv b = a div b"
  by (cases "a = 0") (simp_all add: signed_divide_int_def)

lemma sdiv_neg: "\<lbrakk>a < 0; 0 < b\<rbrakk> \<Longrightarrow> (a :: int) sdiv b = - (- a div b)"
  by (simp add: signed_divide_int_def)

section \<open>A whole request\<close>

text \<open>An answer: text in front of it, the data bytes in hexadecimal, white space, and the prompt.\<close>

definition obd_answer :: "u8 list \<Rightarrow> u8 list \<Rightarrow> u8 list \<Rightarrow> u8 list" where
  "obd_answer pre ds ws = pre @ elm_hex (0x41 # ds) @ ws"

definition obd_request :: "u8 list \<Rightarrow> bool" where
  "obd_request cmd \<longleftrightarrow> (\<exists>p q. cmd = [48, 49, p, q, 13] \<and> p \<noteq> 0 \<and> q \<noteq> 0)"

lemma obd_request_strlen: "obd_request cmd \<Longrightarrow> c_strlen cmd = OBD_CMD_LEN"
  by (auto simp: obd_request_def c_strlen_def c_str_def OBD_CMD_LEN_def)

lemma obd_request_sent: "obd_request cmd \<Longrightarrow> uart_write_str cmd = cmd"
  by (auto simp: obd_request_def uart_write_str_def)

lemma obd_pream: "take 2 (hex_02 (nat (0x40 + c_strtol16 [48, 49, 0]))) = [52, 49]"
  by code_simp

lemma obd_resp_find:
  assumes "obd_request cmd" and "c_str buf = pre @ 52 # 49 # rest" and "52 \<notin> set pre"
  shows "obd_resp cmd buf = Some (length pre)"
proof -
  have "take 2 cmd @ [0] = [48, 49, 0]" using assms(1) by (auto simp: obd_request_def)
  then show ?thesis
    using obd_request_strlen [OF assms(1)] find_sub_skip [OF assms(3)] assms(2)
    by (simp only: obd_resp_def Let_def obd_pream c_strstr_def) simp
qed

lemma space_no_stop: "c_isspace c \<Longrightarrow> c \<notin> {0, 62, 79} \<and> \<not> c_isxdigit c"
  by (auto simp: c_isspace_def c_isxdigit_def word_le_nat_alt)

lemma hex_41: "elm_hex (0x41 # ds) = 52 # 49 # 32 # elm_hex ds"
proof -
  have "hex_pair 0x41 = [52, 49]" by code_simp
  then show ?thesis by (simp add: elm_hex_Cons)
qed

lemma c_str_buffer:
  assumes "c_str mem = s" and "length s < length mem"
  shows "\<exists>r. mem = s @ 0 # r"
proof -
  obtain rest where r: "mem = s @ rest" "rest = [] \<or> hd rest = 0" using c_str_split [of mem] assms(1) by auto
  with assms(2) show ?thesis by (cases rest) auto
qed

lemma obd_command_reply:
  assumes "elm_ready w" and "elm_pending w = obd_answer pre ds ws @ 62 # tail"
    and "{0, 62, 79, 52} \<inter> set pre = {}" and "list_all c_isspace ws"
    and "obd_request cmd" and "64 < length buf" and "length (obd_answer pre ds ws) < 64"
  shows "\<exists>w' data. obd_command script_rx buf cmd dat sz w = (case obd_store data dat of None \<Rightarrow> None | Some dat' \<Rightarrow> Some (0, dat', w')) \<and>
    c_str data = concat (map hex_pair (0x41 # ds)) \<and> elm_ready w' \<and> elm_pending w' = tail \<and> ew_tx w' = ew_tx w @ cmd"
proof -
  let ?u = "obd_answer pre ds ws" and ?d = "elm_hex (0x41 # ds) @ ws @ [62]"
  have ws: "c \<notin> {0, 62, 79} \<and> \<not> c_isxdigit c" if "c \<in> set ws" for c
    using assms(4) that space_no_stop by (simp add: list_all_iff)
  have no: "c \<notin> set ?u" if "c \<in> {0, 62, 79}" for c
    using that assms(3) ws elm_hex_set [OF that] by (auto simp: obd_answer_def)
  note l = assms(7)
  from elm_read_answer [of "snd (elm_write cmd w)" ?u tail 64 buf] assms(1,2,6) no l
  obtain mem' w' where run: "elm_command script_rx cmd buf 64 w = Some (int (length ?u) + 1, mem', w')"
    and str: "c_str mem' = ?u @ [62]" and lm: "length mem' = length buf"
    and w': "elm_ready w'" "elm_pending w' = tail" "ew_tx w' = ew_tx w @ cmd"
    using obd_request_sent [OF assms(5)] by (auto simp: elm_command_def elm_write_def)
  have O: "79 \<in> set NO_DATA" "79 \<in> set NO_CONNECT" by (simp_all add: NO_DATA_def NO_CONNECT_def cstr_def)
  have fail: "c_strstr mem' NO_DATA = None" "c_strstr mem' NO_CONNECT = None"
    using find_sub_none [OF O(1)] find_sub_none [OF O(2)] no by (simp_all add: c_strstr_def str)
  have resp: "obd_resp cmd mem' = Some (length pre)"
    using assms(3) str by (intro obd_resp_find [OF assms(5)]) (auto simp: obd_answer_def hex_41)
  obtain r where "mem' = (?u @ [62]) @ 0 # r" using c_str_buffer [OF str] lm l assms(6) by auto
  then have drop: "drop (length pre) mem' = ?d @ 0 # r" by (simp add: obd_answer_def)
  have "\<not> c_isxdigit 62" by (simp add: c_isxdigit_def)
  moreover have "filter c_isxdigit ws = []" using ws by (simp add: filter_empty_conv)
  ultimately have filt: "filter c_isxdigit ?d = concat (map hex_pair (0x41 # ds))"
    by (simp only: filter_append elm_hex_filter) simp
  have "0 \<notin> set ?d" using ws elm_hex_set [of 0 "0x41 # ds"] by auto
  from obd_fmt_resp_filter [OF this, of r]
  obtain data where data: "obd_fmt_resp (?d @ 0 # r) = (0, data)" "c_str data = concat (map hex_pair (0x41 # ds))"
    unfolding filt length_hex_pairs by auto
  show ?thesis
    using run fail resp drop data w' obd_request_strlen [OF assms(5)]
    by (intro exI [of _ w'] exI [of _ data]) (simp add: obd_command_def split: option.split)
qed

lemma obd_command_run:
  assumes "elm_ready w" and "elm_pending w = obd_answer pre ds ws @ 62 # tail"
    and "{0, 62, 79, 52} \<inter> set pre = {}" and "list_all c_isspace ws"
    and "obd_request cmd" and "64 < length buf" and "length ds < length dat"
    and "length (obd_answer pre ds ws) < 64"
  shows "\<exists>w'. obd_command script_rx buf cmd dat sz w = Some (0, (0x41 # ds) @ drop (Suc (length ds)) dat, w') \<and>
    elm_ready w' \<and> elm_pending w' = tail \<and> ew_tx w' = ew_tx w @ cmd"
proof -
  from obd_command_reply [OF assms(1-6,8), of dat sz] obtain w' data where
    r: "obd_command script_rx buf cmd dat sz w = (case obd_store data dat of None \<Rightarrow> None | Some dat' \<Rightarrow> Some (0, dat', w'))"
      "c_str data = concat (map hex_pair (0x41 # ds))" "elm_ready w'" "elm_pending w' = tail" "ew_tx w' = ew_tx w @ cmd" by blast
  with obd_store_hex [OF r(2), of dat] assms(7) show ?thesis by auto
qed

text \<open>Bit \<open>32 - i\<close> of the four bytes, first byte highest, is bit \<open>7 - (i - 1) mod 8\<close> of byte
  \<open>(i - 1) div 8\<close>: how the standard encodes the support of PID \<open>i\<close>.\<close>

definition pid_supported :: "u8 list \<Rightarrow> nat \<Rightarrow> bool" where
  "pid_supported bs i \<longleftrightarrow> bit (bs ! ((i - 1) div 8)) (7 - (i - 1) mod 8)"

lemma pid_supported_bit:
  assumes "1 \<le> i" and "i < 32"
  shows "bit (push_bit 24 (ucast a) OR push_bit 16 (ucast b) OR push_bit 8 (ucast c) OR ucast d :: u32) (32 - i) \<longleftrightarrow>
    pid_supported [a, b, c, d] i"
proof -
  define k where "k = i - 1"
  then have i: "i = Suc k" and k: "k < 31" using assms by auto
  consider "k < 8" | "8 \<le> k" "k < 16" | "16 \<le> k" "k < 24" | "24 \<le> k" "k < 31" using k by linarith
  then show ?thesis
  proof cases
    case 1
    then show ?thesis by (auto simp: i pid_supported_def bit_simps)
  next
    case 2
    then have "k div 8 = 1" "k mod 8 = k - 8" by (simp_all add: mod_if)
    with 2 show ?thesis by (auto simp: i pid_supported_def bit_simps)
  next
    case 3
    then have "k div 8 = 2" "k mod 8 = k - 16" by (simp_all add: mod_if)
    with 3 show ?thesis by (auto simp: i pid_supported_def bit_simps)
  next
    case 4
    then have "k div 8 = 3" "k mod 8 = k - 24" by (simp_all add: mod_if)
    with 4 show ?thesis by (auto simp: i pid_supported_def bit_simps)
  qed
qed

lemma obd_cmd0: "obd_cmd_text (obd_cmds ! 0) = [48, 49, 48, 48, 13]"
  by (simp add: obd_cmds_defs cstr_def)

lemma set_supported_ops_list:
  assumes "malloc_ok malloc" and "xs = map img (filter (\<lambda>i. bit res (32 - i)) [1..<32])"
    and "push_all (list_push_head malloc) xs 0 h \<noteq> None"
  shows "\<exists>p h'. obd_set_supported_ops malloc img res ctx h = Some (ctx\<lparr>linked_list := p\<rparr>, h') \<and> list_rep h' p (rev xs)"
proof -
  from assms(3) obtain p h' where push: "push_all (list_push_head malloc) xs 0 h = Some (p, h')" by auto
  have "heap_list malloc h' p (rev xs)"
    using heads.push_all_rep [OF _ push, of "[]"] assms(1) by (simp add: heap_list_def fold_cons)
  moreover have "set_ops_loop malloc img res 1 0x80000000 0 h = Some (p, h')"
    using set_ops_push_all [of 1 malloc img res 0 h] push assms(2) by simp
  ultimately show ?thesis by (auto simp: obd_set_supported_ops_def heap_list_def)
qed

lemma initialize_obd_run:
  assumes "elm_ready w" and "elm_pending w = obd_answer pre [0, b1, b2, b3, b4] ws @ 62 # tail"
    and "{0, 62, 79, 52} \<inter> set pre = {}" and "list_all c_isspace ws"
    and "64 < length buf" and "32 \<le> length dat" and "malloc_ok malloc"
    and "xs = map img (filter (pid_supported [b1, b2, b3, b4]) [1..<32])"
    and "push_all (list_push_head malloc) xs 0 h \<noteq> None" and "length (pre @ ws) < 46"
  shows "\<exists>p h' w'. initialize_obd script_rx malloc img buf dat ctx h w = Some (0, ctx\<lparr>linked_list := p\<rparr>, h', w') \<and>
    list_rep h' p (rev xs) \<and> ew_tx w' = ew_tx w @ cstr ''0100'' @ [13] \<and> elm_ready w' \<and> elm_pending w' = tail"
proof -
  let ?res = "push_bit 24 (ucast b1) OR push_bit 16 (ucast b2) OR push_bit 8 (ucast b3) OR ucast b4 :: u32"
  have rq: "obd_request [48, 49, 48, 48, 13]" by (simp add: obd_request_def)
  obtain w' where w': "obd_command script_rx buf [48, 49, 48, 48, 13] dat 32 w =
      Some (0, (0x41 # [0, b1, b2, b3, b4]) @ drop (Suc (length [0, b1, b2, b3, b4])) dat, w')"
    "ew_tx w' = ew_tx w @ [48, 49, 48, 48, 13]" "elm_ready w'" "elm_pending w' = tail"
    using obd_command_run [OF assms(1-4) rq assms(5), of dat 32] assms(6,10) by (auto simp: obd_answer_def length_elm_hex)
  have "xs = map img (filter (\<lambda>i. bit ?res (32 - i)) [1..<32])"
    unfolding assms(8) by (rule arg_cong [where f = "map img"], rule filter_cong) (simp_all add: pid_supported_bit del: upt_Suc)
  from set_supported_ops_list [OF assms(7) this assms(9), of ctx]
  obtain p h' where ops: "obd_set_supported_ops malloc img ?res ctx h = Some (ctx\<lparr>linked_list := p\<rparr>, h')"
    "list_rep h' p (rev xs)" by blast
  with w' show ?thesis
    by (auto simp: initialize_obd_def obd_cmd0 list_dump_rep cstr_def)
qed

section \<open>Properties\<close>

text \<open>C37. The integer decoders print the quantity of the PID's definition for every data byte A (and
  B): temperature A - 40, pressures 3A and A, speed A, timing A/2 - 64 rounded towards zero before
  the subtraction, and, as long as A is below 128, the rotational speed (256A + B)/4 and the air flow
  (256A + B)/100.\<close>

theorem obd_decoders_exact:
  fixes a b :: u8
  shows "obd_get_coolant_temp (x # y # a # zs) = dec_int (uint a - 40) \<and>
    obd_get_air_temp (x # y # a # zs) = dec_int (uint a - 40) \<and>
    obd_get_fuel_pressure (x # y # a # zs) = dec_int (uint a * 3) \<and>
    obd_get_manifold_pressure (x # y # a # zs) = dec_int (uint a) \<and>
    obd_get_vehicle_speed (x # y # a # zs) = dec_int (uint a) \<and>
    obd_get_timing_advance (x # y # a # zs) = dec_int (uint a div 2 - 64) \<and>
    (uint a < 128 \<longrightarrow>
      obd_get_engine_rpm (x # y # a # b # zs) = dec_int ((256 * uint a + uint b) div 4) \<and>
      obd_get_maf_rate (x # y # a # b # zs) = dec_int ((256 * uint a + uint b) div 100))"
proof -
  note u = uint_u8 [of a] uint_u8 [of b]
  have q: "(uint a * 256 + uint b) div 4 < 32768" "0 \<le> (uint a * 256 + uint b) div 4"
    "(uint a * 256 + uint b) div 100 < 32768" "0 \<le> (uint a * 256 + uint b) div 100" if "uint a < 128"
    using u that by linarith+
  have e: "int16 (uint a - 40) = uint a - 40" "int16 (uint a * 3) = uint a * 3" "int16 (uint a) = uint a"
    "int16 (uint a div 2 - 64) = uint a div 2 - 64"
    using u by (intro int16_id; linarith)+
  have w: "int16 (uint a * 256) = uint a * 256" "int16 (uint a * 256 + uint b) = uint a * 256 + uint b"
    "int16 ((uint a * 256 + uint b) div 4) = (uint a * 256 + uint b) div 4"
    "int16 ((uint a * 256 + uint b) div 100) = (uint a * 256 + uint b) div 100" if "uint a < 128"
    using u that q by (intro int16_id; linarith)+
  have "obd_get_engine_rpm (x # y # a # b # zs) = dec_int ((256 * uint a + uint b) div 4) \<and>
      obd_get_maf_rate (x # y # a # b # zs) = dec_int ((256 * uint a + uint b) div 100)" if "uint a < 128"
    by (simp add: obd_get_engine_rpm_def obd_get_maf_rate_def fmt_d_def w [OF that] sdiv_pos mult.commute [of 256])
  moreover have "uint a sdiv 2 = uint a div 2" by (simp_all add: sdiv_pos)
  ultimately show ?thesis
    by (simp add: obd_get_coolant_temp_def obd_get_air_temp_def obd_get_fuel_pressure_def
        obd_get_manifold_pressure_def obd_get_vehicle_speed_def obd_get_timing_advance_def fmt_d_def e)
qed

theorem obd_decoders_exact_witness:
  "obd_get_engine_rpm [0x41, 0x0C, 0x1A, 0xF8] = dec_int 1726"
  using obd_decoders_exact [where x = 65 and y = 12 and a = 26 and b = 248 and zs = "[]"] by simp

text \<open>From A = 128 on, that is from 8192 rpm, \<open>res[2] * 256\<close> does not fit in the 16-bit
  \<open>int\<close> it is computed in and the rotational speed comes out negative: 16384 too small, rounded
  towards zero.\<close>

theorem obd_rpm_overflow:
  fixes a b :: u8
  assumes "128 \<le> uint a"
  shows "obd_get_engine_rpm (x # y # a # b # zs) = dec_int (- ((65536 - (256 * uint a + uint b)) div 4))"
proof -
  note u = uint_u8 [of a] uint_u8 [of b]
  have m: "int16 (uint a * 256) = uint a * 256 - 65536" using assms u by (intro int16_over) simp_all
  have s: "int16 (uint a * 256 - 65536 + uint b) = uint a * 256 - 65536 + uint b"
    using assms u by (intro int16_id; linarith)
  define k where "k = (65536 - (256 * uint a + uint b)) div 4"
  have "0 \<le> k" "k \<le> 8192" using assms u unfolding k_def by linarith+
  moreover have "(uint a * 256 - 65536 + uint b) sdiv 4 = - k"
    using u by (subst sdiv_neg) (simp_all add: k_def algebra_simps)
  ultimately show ?thesis
    by (simp add: obd_get_engine_rpm_def m s fmt_d_def int16_id flip: k_def)
qed

theorem obd_rpm_overflow_witness:
  "obd_get_engine_rpm [0x41, 0x0C, 0x80, 0x00] = dec_int (- 8192)"
  using obd_rpm_overflow [where a = 128 and x = 65 and y = 12 and b = 0 and zs = "[]"] by simp

text \<open>C13. A whole request: on an answer of the vehicle in hexadecimal (preceded by any text without
  the preamble's digit 4, followed by white space and the prompt), however it arrives, \<open>obd_command\<close> sends
  the request, returns 0 and stores exactly the answer's bytes at the start of the caller's buffer,
  whatever \<open>size\<close> says, leaving what follows the prompt unread.\<close>

theorem obd_command_decodes:
  assumes "elm_ready w" and "elm_pending w = obd_answer pre ds ws @ 62 # tail"
    and "{0, 62, 79, 52} \<inter> set pre = {}" and "list_all c_isspace ws"
    and "obd_request cmd" and "64 < length buf" and "length ds < length dat"
    and "length (obd_answer pre ds ws) < 64"
  shows "\<exists>w'. obd_command script_rx buf cmd dat sz w = Some (0, (0x41 # ds) @ drop (Suc (length ds)) dat, w') \<and>
    elm_ready w' \<and> elm_pending w' = tail \<and> ew_tx w' = ew_tx w @ cmd"
  by (rule obd_command_run [OF assms])

lemma demo_answer:
  "obd_answer [] [12, 26, 248] [13, 13] = [52, 49, 32, 48, 67, 32, 49, 65, 32, 70, 56, 32, 13, 13]"
  by code_simp

theorem obd_command_decodes_witness:
  "\<exists>w'. obd_command script_rx (replicate 70 9) [48, 49, 48, 67, 13] [1, 2, 3, 4, 5] 2
      (demo_elm [[52, 49, 32, 48, 67, 32, 49], [], [65, 32, 70, 56, 32, 13, 13, 62, 7]]) =
      Some (0, [0x41, 12, 26, 248, 5], w') \<and> elm_pending w' = [7]"
proof -
  let ?w = "demo_elm [[52, 49, 32, 48, 67, 32, 49], [], [65, 32, 70, 56, 32, 13, 13, 62, 7]]"
  have "elm_ready ?w \<and> elm_pending ?w = obd_answer [] [12, 26, 248] [13, 13] @ 62 # [7]"
    using demo_elm_ready [of "[[52, 49, 32, 48, 67, 32, 49], [], [65, 32, 70, 56, 32, 13, 13, 62, 7]]"]
    by (simp add: demo_answer)
  then have e: "elm_ready ?w" "elm_pending ?w = obd_answer [] [12, 26, 248] [13, 13] @ 62 # [7]" by blast+
  have s: "list_all c_isspace [13, 13]" by code_simp
  have r: "obd_request [48, 49, 48, 67, 13]" by (simp add: obd_request_def)
  show ?thesis
    using obd_command_decodes [OF e _ s r, of "replicate 70 9" "[1, 2, 3, 4, 5]" 2] by (auto simp: demo_answer)
qed

text \<open>A longer answer is written past the end of the caller's memory: with no more room than the caller gave
  (13 bytes in \<open>main\<close>, whose argument \<open>size\<close> is 64) the call has no result.\<close>

theorem obd_command_overrun:
  assumes "elm_ready w" and "elm_pending w = obd_answer pre ds ws @ 62 # tail"
    and "{0, 62, 79, 52} \<inter> set pre = {}" and "list_all c_isspace ws"
    and "obd_request cmd" and "64 < length buf" and "length dat \<le> length ds"
    and "length (obd_answer pre ds ws) < 64"
  shows "obd_command script_rx buf cmd dat sz w = None"
proof -
  from obd_command_reply [OF assms(1-6,8), of dat sz] obtain w' data where
    "obd_command script_rx buf cmd dat sz w = (case obd_store data dat of None \<Rightarrow> None | Some dat' \<Rightarrow> Some (0, dat', w'))"
    "c_str data = concat (map hex_pair (0x41 # ds))" by blast
  with obd_store_hex [of data "0x41 # ds" dat] assms(7) show ?thesis by simp
qed

theorem obd_command_overrun_witness:
  "obd_command script_rx (replicate 70 9) [48, 49, 48, 67, 13] [1, 2] 64
    (demo_elm [[52, 49, 32, 48, 67, 32, 49], [], [65, 32, 70, 56, 32, 13, 13, 62, 7]]) = None"
proof -
  let ?w = "demo_elm [[52, 49, 32, 48, 67, 32, 49], [], [65, 32, 70, 56, 32, 13, 13, 62, 7]]"
  have "elm_ready ?w \<and> elm_pending ?w = obd_answer [] [12, 26, 248] [13, 13] @ 62 # [7]"
    using demo_elm_ready [of "[[52, 49, 32, 48, 67, 32, 49], [], [65, 32, 70, 56, 32, 13, 13, 62, 7]]"]
    by (simp add: demo_answer)
  then have e: "elm_ready ?w" "elm_pending ?w = obd_answer [] [12, 26, 248] [13, 13] @ 62 # [7]" by blast+
  have s: "list_all c_isspace [13, 13]" by code_simp
  have r: "obd_request [48, 49, 48, 67, 13]" by (simp add: obd_request_def)
  show ?thesis using obd_command_overrun [OF e _ s r, of "replicate 70 9" "[1, 2]" 64] by (auto simp: demo_answer)
qed

text \<open>When the ELM327 reports that the vehicle gave no data or that it could not connect, anywhere in
  its answer, \<open>obd_command\<close> returns -1 and the caller's buffer is untouched.\<close>

theorem obd_command_failure:
  assumes "elm_ready w" and "elm_pending w = (a @ msg @ b) @ 62 # tail" and "msg \<in> {NO_DATA, NO_CONNECT}"
    and "{0, 62} \<inter> set (a @ b) = {}" and "c_strlen cmd = OBD_CMD_LEN" and "64 < length buf"
    and "length (a @ msg @ b) < 64"
  shows "\<exists>w'. obd_command script_rx buf cmd dat sz w = Some (- 1, dat, w') \<and> elm_ready w' \<and> elm_pending w' = tail"
proof -
  let ?u = "a @ msg @ b"
  have "{0, 62} \<inter> set msg = {}" using assms(3) by (auto simp: NO_DATA_def NO_CONNECT_def cstr_def)
  then have no: "0 \<notin> set ?u" "62 \<notin> set ?u" using assms(4) by auto
  note l = assms(7)
  from elm_read_answer [of "snd (elm_write cmd w)" ?u tail 64 buf] assms(1,2,6) no l
  obtain mem' w' where run: "elm_command script_rx cmd buf 64 w = Some (int (length ?u) + 1, mem', w')"
    and str: "c_str mem' = ?u @ [62]" and w': "elm_ready w'" "elm_pending w' = tail"
    by (auto simp: elm_command_def elm_write_def)
  have "c_strstr mem' msg \<noteq> None" using find_sub_some [of msg a "b @ [62]"] by (simp add: c_strstr_def str)
  then show ?thesis using run w' assms(3,5) by (auto simp: obd_command_def)
qed

theorem obd_command_failure_witness:
  "\<exists>w'. obd_command script_rx (replicate 70 9) (cstr ''0100'' @ [13]) [1, 2] 2
      (demo_elm [[78, 79, 32], [68, 65, 84, 65, 13, 62]]) = Some (- 1, [1, 2], w') \<and> elm_ready w' \<and> elm_pending w' = []"
proof -
  let ?w = "demo_elm [[78, 79, 32], [68, 65, 84, 65, 13, 62]]"
  have nd: "NO_DATA = [78, 79, 32, 68, 65, 84, 65]" by (simp add: NO_DATA_def cstr_def)
  have "elm_ready ?w \<and> elm_pending ?w = ([] @ NO_DATA @ [13]) @ 62 # []"
    using demo_elm_ready [of "[[78, 79, 32], [68, 65, 84, 65, 13, 62]]"] by (simp add: nd)
  then have e: "elm_ready ?w" "elm_pending ?w = ([] @ NO_DATA @ [13]) @ 62 # []" by blast+
  have "c_strlen (cstr ''0100'' @ [13]) = OBD_CMD_LEN" by code_simp
  then show ?thesis by (intro obd_command_failure [OF e]) (simp_all add: nd)
qed

text \<open>C26. \<open>initialize_obd\<close> asks for the supported PIDs and, as long as memory lasts, leaves in the
  context the list of exactly the commands of the PIDs 01 to 1F that the answer marks as supported (the
  standard's encoding: PID \<open>i\<close> is bit \<open>7 - (i - 1) mod 8\<close> of byte \<open>(i - 1) div 8\<close>), from the
  highest to the lowest.\<close>

theorem initialize_obd_lists_supported:
  assumes "elm_ready w" and "elm_pending w = obd_answer pre [0, b1, b2, b3, b4] ws @ 62 # tail"
    and "{0, 62, 79, 52} \<inter> set pre = {}" and "list_all c_isspace ws"
    and "64 < length buf" and "32 \<le> length dat" and "malloc_ok malloc"
    and "xs = map img (filter (pid_supported [b1, b2, b3, b4]) [1..<32])"
    and "push_all (list_push_head malloc) xs 0 h \<noteq> None" and "length (pre @ ws) < 46"
  shows "\<exists>p h' w'. initialize_obd script_rx malloc img buf dat ctx h w = Some (0, ctx\<lparr>linked_list := p\<rparr>, h', w') \<and>
    list_rep h' p (rev xs) \<and> ew_tx w' = ew_tx w @ cstr ''0100'' @ [13]"
  using initialize_obd_run [OF assms] by blast

theorem initialize_obd_lists_supported_witness:
  "\<exists>p h' w'. initialize_obd script_rx (arena 9) (\<lambda>i. [of_nat i]) (replicate 70 9) (replicate 32 0)
      \<lparr>supported_devices = 0, linked_list = 0\<rparr> empty_heap
      (demo_elm [[52, 49, 32, 48, 48, 32, 48, 48, 32, 49, 56], [32, 48, 48, 32, 48, 48, 32, 13, 13, 62]]) =
      Some (0, \<lparr>supported_devices = 0, linked_list = p\<rparr>, h', w') \<and> list_rep h' p [[13], [12]]"
proof -
  let ?cs = "[[52, 49, 32, 48, 48, 32, 48, 48, 32, 49, 56], [32, 48, 48, 32, 48, 48, 32, 13, 13, 62]]"
  let ?xs = "map (\<lambda>i. [of_nat i :: u8]) (filter (pid_supported [0, 24, 0, 0]) [1..<32])"
  have a: "obd_answer [] [0, 0, 24, 0, 0] [13, 13] @ [62] = concat ?cs" by code_simp
  have e: "elm_ready (demo_elm ?cs)" "elm_pending (demo_elm ?cs) = obd_answer [] [0, 0, 24, 0, 0] [13, 13] @ 62 # []"
    using demo_elm_ready [of ?cs] unfolding a by simp_all
  have s: "list_all c_isspace [13, 13]" by code_simp
  have xs: "?xs = [[12], [13]]" by code_simp
  have "push_all (list_push_head (arena 9)) [[12], [13]] 0 empty_heap \<noteq> None"
    by (simp add: list_push_head_def list_new_node_def empty_heap_def eval_nat_numeral Let_def)
  then have m: "push_all (list_push_head (arena 9)) ?xs 0 empty_heap \<noteq> None" unfolding xs .
  from initialize_obd_lists_supported [OF e _ s _ _ arena_ok refl m, of "replicate 70 9" "replicate 32 0"
      "\<lparr>supported_devices = 0, linked_list = 0\<rparr>"]
  show ?thesis unfolding xs by auto
qed

end
