(* ===== verification/Storage_Safe.thy ===== *)
theory Storage_Safe
  imports Fat
begin

text \<open>
  The buffers of the storage stack keep their sizes whatever the card does: an interface \<open>sized_blocks\<close>
  that only promises that a sector read fills a sector's buffer, the operations of src/io.c and src/fat.c
  over it, and its interpretation on the SD card driver with any device on the bus. With the buffers 512
  bytes long every index the code uses, an offset modulo 512, is inside them.
\<close>

definition io_typed :: "io_ctx \<Rightarrow> bool" where
  "io_typed io \<longleftrightarrow> length (input_sector_buf io) = 512 \<and> length (output_sector_buf io) = 512"

lemma io_typed_upd [simp]:
  "length buf = 512 \<Longrightarrow> io_typed (io\<lparr>input_sector_buf := buf\<rparr>) \<longleftrightarrow> length (output_sector_buf io) = 512"
  "length buf = 512 \<Longrightarrow> io_typed (io\<lparr>output_sector_buf := buf\<rparr>) \<longleftrightarrow> length (input_sector_buf io) = 512"
  "io_typed (io\<lparr>input_sector_addr := a\<rparr>) = io_typed io" "io_typed (io\<lparr>output_sector_addr := a\<rparr>) = io_typed io"
  "io_typed (io\<lparr>input_byte_addr := c\<rparr>) = io_typed io" "io_typed (io\<lparr>output_byte_addr := c\<rparr>) = io_typed io"
  "io_typed (io\<lparr>io_sd := sd\<rparr>) = io_typed io"
  by (auto simp: io_typed_def)

locale sized_blocks =
  fixes B :: "'m block_ops"
  assumes get_sized: "length buf = 512 \<Longrightarrow> returns (\<lambda>(r, buf', m'). length buf' = 512) (blk_get B a buf 512 m)"
begin

lemma get_byte_typed: "io_typed io \<Longrightarrow> returns (\<lambda>(r, b, io', m'). io_typed io') (io_get_byte B io x old m)"
  by (auto simp: io_get_byte_def SECTOR_SIZE_def Let_def io_typed_def returns_split split: prod.split
      intro!: returnsI [OF get_sized])

lemma read_typed:
  "io_typed io \<Longrightarrow> returns (\<lambda>(r, bs, io', m'). io_typed io' \<and> length bs = length buf) (io_read_nbytes B io buf x m)"
proof (induction buf arbitrary: io x m)
  case (Cons old buf)
  show ?case
    by (auto simp: returns_split split: prod.split intro!: returnsI [OF get_byte_typed [OF Cons.prems]] returnsI [OF Cons.IH])
qed simp

lemma init_typed: "io_typed io \<Longrightarrow> returns (\<lambda>(r, io', m'). io_typed io') (initialize_io B io sd m)"
  by (auto simp: initialize_io_def SECTOR_SIZE_def Let_def io_typed_def returns_split split: prod.split
      intro!: returnsI [OF get_sized])

lemma flush_read_typed: "io_typed io \<Longrightarrow> returns (\<lambda>(r, io', m'). io_typed io') (io_flush_read_buffer B io m)"
  by (auto simp: io_flush_read_buffer_def SECTOR_SIZE_def io_typed_def returns_split split: prod.split
      intro!: returnsI [OF get_sized])

lemma flush_write_same: "returns (\<lambda>(r, io', m'). io' = io) (io_flush_write_buffer B io m)"
  by (auto simp: io_flush_write_buffer_def returns_def bind_eq_Some_conv)

lemma put_byte_typed: "io_typed io \<Longrightarrow> returns (\<lambda>(r, io', m'). io_typed io') (io_put_byte B junk io x b m)"
  by (auto simp: io_put_byte_def Let_def io_typed_def returns_split split: prod.split
      intro!: returnsI [OF get_sized] returnsI [OF flush_write_same])

lemma write_typed: "io_typed io \<Longrightarrow> returns (\<lambda>(r, io', m'). io_typed io') (io_write_nbytes B junk io bs x m)"
proof (induction bs arbitrary: io x m)
  case (Cons b bs)
  show ?case
    by (auto simp: returns_split split: prod.split intro!: returnsI [OF put_byte_typed [OF Cons.prems]] Cons.IH)
qed simp

text \<open>The file system over it.\<close>

declare io_read_nbytes.simps [simp del] io_write_nbytes.simps [simp del]

lemma get_fat_loop_typed:
  "io_typed io \<Longrightarrow> returns (\<lambda>(r, n, io', m'). io_typed io') (fat32_get_fat_loop B ctx c n io m)"
proof -
  let ?P = "\<lambda>B' ctx c n io m (r, n', io', m'). B' = B \<longrightarrow> io_typed io \<longrightarrow> io_typed io'"
  assume t: "io_typed io"
  have "?P B ctx c n io m res" if "fat32_get_fat_loop B ctx c n io m = Some res" for res
  proof (rule fat32_get_fat_loop.raw_induct [where P = ?P, OF _ that])
    fix f B' ctx' c n io m res
    assume IH: "\<And>B' ctx' c n io m res. f B' ctx' c n io m = Some res \<Longrightarrow> ?P B' ctx' c n io m res"
      and step: "io_read_nbytes B' io [0, 0, 0, 0] (SECTOR_SIZE_BYTES * fat_begin_sector ctx' + c * 4) m \<bind>
        (\<lambda>(r, bs, io, m). if r < 0 then Some (- 1, n, io, m)
          else Some (rd32 bs 0) \<bind> (\<lambda>next_address. Some (n @ [c]) \<bind> (\<lambda>n.
            if \<not> fat32_is_last_cluster next_address then f B' ctx' next_address n io m else Some (0, n, io, m)))) =
        Some res"
    have "returns (?P B' ctx' c n io m) (f B' ctx' c n io m)" for B' ctx' c n io m
      using IH by (simp add: returns_def)
    note ih = returnsI [OF this]
    have "returns (\<lambda>(r, n', io', m'). io_typed io') (Some res)" if eq: "B' = B" and t: "io_typed io"
      unfolding step [symmetric]
      by (auto simp: returns_split eq split: prod.split intro!: returnsI [OF read_typed [OF t]] ih)
    then show "?P B' ctx' c n io m res" by auto
  qed
  with t show ?thesis by (auto simp: returns_def)
qed

lemma open_file_typed:
  "io_typed io \<Longrightarrow> returns (\<lambda>(r, f, io', m'). io_typed io') (fat32_open_file B ctx e io f m)"
  by (auto simp: fat32_open_file_def fat32_get_fat_def Let_def returns_split split: prod.split
      intro!: returnsI [OF get_fat_loop_typed])

lemma cache_loop_typed:
  "io_typed io \<Longrightarrow> returns (\<lambda>(c, io', m'). io_typed io') (fat32_cache_loop B sd left j ctx f io m)"
proof (induction left arbitrary: j ctx f io m)
  case (Suc left)
  show ?case
    by (auto simp: Let_def returns_split split: prod.split
        intro!: returnsI [OF read_typed [OF Suc.prems]] returnsI [OF open_file_typed] Suc.IH)
qed simp

lemma mount_typed:
  "io_typed io \<Longrightarrow> returns (\<lambda>(r, c, io', m'). io_typed io') (initialize_fat32 B jf fat io sd m)"
  by (auto simp: initialize_fat32_def fat32_cache_root_dir_def Let_def returns_split split: prod.split
      intro!: returnsI [OF read_typed] returnsI [OF cache_loop_typed])

lemma creat_typed:
  "io_typed io \<Longrightarrow> returns (\<lambda>(r, f', io', m'). io_typed io') (fat32_creat_file B junk ctx f io m)"
  by (cases "fat32_file_exists ctx f"; cases "fat32_get_next_root_dir_loc ctx"; cases "fat32_get_next_cluster ctx")
    (auto simp: fat32_creat_file_def Let_def returns_split split: prod.split intro!: returnsI [OF write_typed])

lemma update_size_typed:
  "io_typed io \<Longrightarrow> returns (\<lambda>(r, io', m'). io_typed io') (fat32_update_file_size B junk e0 ctx f sz io m)"
  by (auto simp: fat32_update_file_size_def Let_def returns_split split: prod.split
      intro!: returnsI [OF read_typed] returnsI [OF write_typed])

lemma update_fat_typed:
  "io_typed io \<Longrightarrow> returns (\<lambda>(r, f', io', m'). io_typed io') (fat32_update_fat B junk p ctx f c io m)"
  by (cases "fat_list f = []")
    (auto simp: fat32_update_fat_def Let_def returns_split split: prod.split intro!: returnsI [OF write_typed])

lemma write_file_typed:
  "io_typed io \<Longrightarrow> returns (\<lambda>(r, f', io', m'). io_typed io') (fat32_write_file_nbytes B junk e0 ctx f bs io m)"
  by (auto simp: fat32_write_file_nbytes_def returns_split split: prod.split
      intro!: returnsI [OF write_typed] returnsI [OF flush_read_typed] returnsI [OF flush_write_same]
        returnsI [OF update_size_typed])

end

section \<open>The driver provides it\<close>

lemma read_list_sized: "returns (\<lambda>(bs, m'). length bs = k) (sd_read_list k bus m)"
proof (induction k arbitrary: m)
  case (Suc k)
  show ?case
    by (auto simp: returns_split split: prod.split
        intro!: returnsI [OF Suc.IH] returnsI [OF returns_any [of "spi_read_char bus m"]])
qed simp

interpretation sd_sized: sized_blocks "sd_ops bus" for bus
proof
  fix a :: u32 and buf :: "u8 list" and m :: "'a mcu"
  assume "length buf = 512"
  then show "returns (\<lambda>(r, buf', m'). length buf' = 512) (blk_get (sd_ops bus) a buf 512 m)"
    by (auto simp: sd_ops_def sd_get_sector_def sd_get_bytes_def returns_split split: prod.split
        intro!: returnsI [OF read_list_sized] returnsI [OF returns_any [of "sd_init_read_sector bus a x" for x]]
          returnsI [OF returns_any [of "sd_wait_ready bus x" for x]])
qed

end
