(* ===== verification/Firmware_Safe.thy ===== *)
theory Firmware_Safe
  imports Firmware Obd_Props Storage_Safe
begin

text \<open>
  The firmware's state keeps its types as long as it runs: after any bytes from the vehicle, any answers of
  the card and any behaviour of the display's bus that do not make it store outside an array. Such a store
  (the long answers of \<open>obd_command_overrun\<close> and \<open>elm_command_overrun\<close>) has no result in the model, and neither
  has a wait that does not end, so the theorems speak of executions without them; for these the parts of the
  state may be separate fields of a record. The invariant says what the C declarations and the list
  code promise: the FIFO's indices are inside its array, the sector buffers have 512 bytes, the driver of
  the card is either disabled or set up, and the list pointer stands for a list of table entries.
\<close>

section \<open>The receiver\<close>

lemma elm_poll_wf: "fifo_wf (ew_fifo w) \<Longrightarrow> fifo_wf (ew_fifo (elm_poll rx w))"
  using fifo_q.inv_feed [of "ew_fifo w"] by (simp add: elm_poll_def fifo_q.feed_def foldl_conv_fold split: prod.split)

lemma elm_take_wf:
  "\<lbrakk>fifo_read_byte (ew_fifo (elm_poll rx w)) ch = (r, b, f); fifo_wf (ew_fifo w)\<rbrakk> \<Longrightarrow> fifo_wf f"
  using fifo_read_wf [OF elm_poll_wf, of w rx ch] by simp

lemma elm_loop_wf:
  "fifo_wf (ew_fifo w) \<Longrightarrow>
    returns (\<lambda>(ret', mem', w'). fifo_wf (ew_fifo w') \<and> length mem' = length mem) (elm_read_loop rx len cur ret ch mem w)"
proof -
  let ?P = "\<lambda>rx len cur ret ch mem w (ret' :: u8, mem', w').
    fifo_wf (ew_fifo w) \<longrightarrow> fifo_wf (ew_fifo w') \<and> length mem' = length mem"
  assume wf: "fifo_wf (ew_fifo w)"
  have "?P rx len cur ret ch mem w res" if "elm_read_loop rx len cur ret ch mem w = Some res" for res
  proof (rule elm_read_loop.raw_induct [where P = ?P, OF _ that])
    fix f :: "('a \<Rightarrow> u8 list \<times> 'a) \<Rightarrow> nat \<Rightarrow> nat \<Rightarrow> u8 \<Rightarrow> u8 \<Rightarrow> u8 list \<Rightarrow> 'a elm_world \<Rightarrow> (u8 \<times> u8 list \<times> 'a elm_world) option"
    fix rx len cur ret ch mem w res
    assume IH: "\<And>rx len cur ret ch mem w res. f rx len cur ret ch mem w = Some res \<Longrightarrow> ?P rx len cur ret ch mem w res"
      and step: "(if len = 0 then Some (ret, mem, w)
        else Some (elm_poll rx w) \<bind> (\<lambda>w.
          if f_status (ew_fifo w) = FIFO_EMPTY then f rx len cur ret ch mem w
          else Some (fifo_read_byte (ew_fifo w) ch) \<bind> (\<lambda>(_, ch, fi).
            (if Suc cur < length mem then Some (mem[cur := ch]) else None) \<bind> (\<lambda>mem. Some (mem[Suc cur := 0]) \<bind> (\<lambda>mem.
              if elm_response_complete mem then Some (ret + 1, mem, w\<lparr>ew_fifo := fi\<rparr>)
              else f rx (len - 1) (Suc cur) (ret + 1) ch mem (w\<lparr>ew_fifo := fi\<rparr>)))))) = Some res"
    have "returns (?P rx len cur ret ch mem w) (f rx len cur ret ch mem w)" for rx len cur ret ch mem w
      using IH by (simp add: returns_def)
    note ih = returnsI [OF this]
    have "returns (\<lambda>(ret', mem', w'). fifo_wf (ew_fifo w') \<and> length mem' = length mem) (Some res)"
      if wf: "fifo_wf (ew_fifo w)"
      unfolding step [symmetric]
      using wf elm_poll_wf [OF wf] by (auto split: prod.split intro!: ih dest: elm_take_wf)
    then show "?P rx len cur ret ch mem w res" by auto
  qed
  with wf show ?thesis by (auto simp: returns_def)
qed

lemma elm_command_wf:
  "fifo_wf (ew_fifo w) \<Longrightarrow> returns (\<lambda>(r, mem', w'). fifo_wf (ew_fifo w')) (elm_command rx cmd mem sz w)"
  by (auto simp: elm_command_def elm_write_def elm_read_def returns_split split: prod.split intro!: returnsI [OF elm_loop_wf])

lemma initialize_elm_wf:
  "fifo_wf (ew_fifo w) \<Longrightarrow> returns (\<lambda>(r, w'). fifo_wf (ew_fifo w')) (initialize_elm rx mem w)"
  by (auto simp: initialize_elm_def returns_split split: prod.split intro!: returnsI [OF elm_command_wf])

lemma obd_store_sized: "returns (\<lambda>ret'. length ret' = length ret) (obd_store data ret)"
proof -
  have "length (fold (\<lambda>i ret. ret[i := obd_byte data i]) is ret) = length ret" for "is"
    by (induction "is" arbitrary: ret) simp_all
  then show ?thesis by (simp add: obd_store_def)
qed

lemma obd_command_wf:
  "fifo_wf (ew_fifo w) \<Longrightarrow>
    returns (\<lambda>(r, dat', w'). fifo_wf (ew_fifo w') \<and> length dat' = length dat) (obd_command rx buf cmd dat sz w)"
  by (auto simp: obd_command_def Let_def returns_split split: prod.split option.split
      intro!: returnsI [OF elm_command_wf] returnsI [OF obd_store_sized])

section \<open>The card\<close>

definition sd_typed :: "sd_ctx \<Rightarrow> bool" where
  "sd_typed sd \<longleftrightarrow> sd_status sd = SD_DISABLED \<or>
     sd_status sd = SD_ENABLED \<and> sd_type sd \<in> {SD_TYPE_2, SD_TYPE_SDHC} \<and> sd_sector_size sd = SECTOR_SIZE"

lemma init_cmd8_type:
  "returns (\<lambda>(ok, sd', m'). ok \<longrightarrow> sd_type sd' = SD_TYPE_2) (sd_init_cmd8 bus sd m)"
proof -
  have "R1_IDLE_STATE \<noteq> R1_IDLE_STATE OR R1_ILLEGAL_COMMAND" by (simp add: R1_IDLE_STATE_def R1_ILLEGAL_COMMAND_def)
  then show ?thesis
    by (auto simp: sd_init_cmd8_def Let_def returns_split split: prod.split
        intro!: returnsI [OF returns_any [of "sd_retry n op after g x" for n op after g x]]
          returnsI [OF returns_any [of "sd_get_bytes b k buf x" for b k buf x]])
qed

lemma init_cmd58_type:
  "sd_type sd = SD_TYPE_2 \<Longrightarrow>
    returns (\<lambda>(ok, sd', m'). ok \<longrightarrow> sd_type sd' \<in> {SD_TYPE_2, SD_TYPE_SDHC}) (sd_init_cmd58 bus sd m)"
  by (auto simp: sd_init_cmd58_def returns_split split: prod.split
      intro!: returnsI [OF returns_any [of "sd_retry n op after g x" for n op after g x]]
        returnsI [OF returns_any [of "sd_get_bytes b k buf x" for b k buf x]])

lemma initialize_sd_typed: "returns (\<lambda>(r, sd', m'). sd_typed sd') (initialize_sd bus sd m)"
  by (auto simp: initialize_sd_def sd_init_sequence_def sd_typed_def returns_split split: prod.split
      intro!: returnsI [OF init_cmd8_type] returnsI [OF init_cmd58_type]
        returnsI [OF returns_any [of "sd_wake_up bus x" for x]] returnsI [OF returns_any [of "sd_init_cmd0 bus x" for x]]
        returnsI [OF returns_any [of "sd_init_acmd41 bus sd x" for sd x]])

section \<open>The list of commands\<close>

text \<open>The positions of the listed commands in the table: below 32, without the first, from the highest down.\<close>

definition fw_pids :: "nat list \<Rightarrow> bool" where
  "fw_pids is \<longleftrightarrow> set is \<subseteq> {1..<32} \<and> sorted_wrt (>) is"

definition fw_tables_ok :: "('c, 'e, 'h, 'f) platform \<Rightarrow> bool" where
  "fw_tables_ok P \<longleftrightarrow> malloc_ok (pl_malloc P) \<and> (\<forall>i<32. pl_cmd P (pl_image P i) = obd_cmds ! i)"

definition fw_listed :: "('c, 'e, 'h, 'f) platform \<Rightarrow> heap \<Rightarrow> addr \<Rightarrow> bool" where
  "fw_listed P h p \<longleftrightarrow> (\<exists>is imgs. fw_pids is \<and> list_rep h p imgs \<and> map (pl_cmd P) imgs = map (\<lambda>i. obd_cmds ! i) is)"

lemma sorted_rev_filter: "sorted_wrt (>) (rev (filter Q [a..<b]))"
  by (simp add: sorted_wrt_rev sorted_wrt_filter)

lemma set_ops_listed:
  assumes P: "fw_tables_ok P"
  shows "returns (\<lambda>(ctx', h'). fw_listed P h' (linked_list ctx')) (obd_set_supported_ops (pl_malloc P) (pl_image P) res ctx h)"
proof -
  let ?is = "filter (\<lambda>j. bit res (32 - j)) [1..<32]"
  let ?imgs = "map (pl_image P) ?is"
  have loop: "set_ops_loop (pl_malloc P) (pl_image P) res 1 0x80000000 0 h = push_all (list_push_head (pl_malloc P)) ?imgs 0 h"
    using set_ops_push_all [of 1 "pl_malloc P" "pl_image P" res 0 h] by simp
  have "fw_listed P h' p" if "push_all (list_push_head (pl_malloc P)) ?imgs 0 h = Some (p, h')" for p h'
  proof -
    have "heap_list (pl_malloc P) h' p (rev ?imgs)"
      using heads.push_all_rep [OF _ that, of "[]"] P by (simp add: heap_list_def fold_cons fw_tables_ok_def)
    then have "list_rep h' p (rev ?imgs)" by (simp add: heap_list_def)
    moreover have "map (pl_cmd P) ?imgs = map (\<lambda>i. obd_cmds ! i) ?is" using P by (auto simp: fw_tables_ok_def)
    then have "map (pl_cmd P) (rev ?imgs) = map (\<lambda>i. obd_cmds ! i) (rev ?is)" by (simp only: rev_map [symmetric])
    moreover have "fw_pids (rev ?is)" using sorted_rev_filter by (auto simp: fw_pids_def)
    ultimately show ?thesis by (auto simp: fw_listed_def)
  qed
  then show ?thesis
    unfolding obd_set_supported_ops_def loop by (auto simp: returns_def bind_eq_Some_conv)
qed

section \<open>One pass\<close>

definition fw_typed :: "('c, 'e, 'h, 'f) platform \<Rightarrow> ('c, 'e, 'h) fw \<Rightarrow> bool" where
  "fw_typed P s \<longleftrightarrow> fifo_wf (ew_fifo (fw_elm s)) \<and> io_typed (fw_io s) \<and> sd_typed (fw_sd s) \<and>
     fw_listed P (fw_heap s) (linked_list (fw_obd s))"

text \<open>What no pass changes.\<close>

definition fw_kept :: "('c, 'e, 'h) fw \<Rightarrow> ('c, 'e, 'h) fw \<Rightarrow> bool" where
  "fw_kept s s' \<longleftrightarrow> fw_heap s' = fw_heap s \<and> fw_obd s' = fw_obd s \<and> fw_io s' = fw_io s \<and> fw_sd s' = fw_sd s \<and>
     fw_fat s' = fw_fat s \<and> length (fw_buf s') = length (fw_buf s)"

lemma fw_kept_refl [simp]: "fw_kept s s"
  by (simp add: fw_kept_def)

lemma fw_kept_heap: "fw_kept s s' \<Longrightarrow> fw_heap s' = fw_heap s"
  by (simp add: fw_kept_def)

lemma fw_kept_trans: "fw_kept s s' \<Longrightarrow> fw_kept s' s'' \<Longrightarrow> fw_kept s s''"
  by (simp add: fw_kept_def)

lemma fw_typed_kept: "\<lbrakk>fw_kept s s'; fw_typed P s; fifo_wf (ew_fifo (fw_elm s'))\<rbrakk> \<Longrightarrow> fw_typed P s'"
  by (simp add: fw_kept_def fw_typed_def)

lemma lcd_print_typed: "returns (\<lambda>(buf', w'). length buf' = length buf) (lcd_print hw pos text buf w)"
  by (auto simp: lcd_print_def returns_split split: prod.split
      intro!: returnsI [OF returns_any [of "i2c_io hw a ap wp n rp x" for a ap wp n rp x]])

lemma obd_handle_kept:
  "hnd \<noteq> Set_supported_ops \<Longrightarrow> returns (\<lambda>(ret', ctx', h'). ctx' = ctx \<and> h' = h) (obd_handle P hnd dat ret ctx h)"
  by (cases hnd) (simp_all add: obd_handle_def)

lemma fw_visit_typed:
  assumes "fifo_wf (ew_fifo (fw_elm s))" and "handle_data cmd \<noteq> Some Set_supported_ops"
  shows "returns (\<lambda>s'. fw_kept s s' \<and> fifo_wf (ew_fifo (fw_elm s'))) (fw_visit P cmd s)"
proof (cases "handle_data cmd")
  case None
  with assms show ?thesis by (simp add: fw_visit_def)
next
  case (Some hnd)
  with assms(2) have "hnd \<noteq> Set_supported_ops" by simp
  note h = obd_handle_kept [OF this]
  show ?thesis
    by (auto simp: fw_visit_def Some fw_kept_def Let_def returns_split split: prod.split option.split
        intro!: returnsI [OF obd_command_wf [OF assms(1)]] returnsI [OF h] returnsI [OF lcd_print_typed]
          returnsI [OF returns_any [of "obd_units cmd"]])
qed

lemma length_obd_cmds: "length obd_cmds = 32"
  by (simp add: obd_cmds_defs)

lemma obd_handlers_rest: "list_all (\<lambda>c. handle_data c \<noteq> Some Set_supported_ops) (tl obd_cmds)"
  by (simp add: obd_cmds_defs)

lemma obd_handler_nth: "\<lbrakk>1 \<le> i; i < 32\<rbrakk> \<Longrightarrow> handle_data (obd_cmds ! i) \<noteq> Some Set_supported_ops"
proof -
  assume i: "1 \<le> i" "i < 32"
  then have "obd_cmds ! i = tl obd_cmds ! (i - 1)" by (simp add: nth_tl length_obd_cmds)
  moreover have "i - 1 < length (tl obd_cmds)" using i by (simp add: length_obd_cmds)
  ultimately show ?thesis using obd_handlers_rest by (simp add: list_all_length)
qed

lemma obd_cmds_handlers: "fw_pids is \<Longrightarrow> i \<in> set is \<Longrightarrow> handle_data (obd_cmds ! i) \<noteq> Some Set_supported_ops"
  using obd_handler_nth [of i] by (auto simp: fw_pids_def)

lemma fw_loop_typed:
  "\<lbrakk>fifo_wf (ew_fifo (fw_elm s)); list_rep (fw_heap s) p imgs;
      \<forall>d \<in> set imgs. handle_data (pl_cmd P d) \<noteq> Some Set_supported_ops\<rbrakk> \<Longrightarrow>
    returns (\<lambda>s'. fw_kept s s' \<and> fifo_wf (ew_fifo (fw_elm s'))) (fw_loop P p s)"
proof (induction imgs arbitrary: s p)
  case Nil
  then show ?case by (simp add: fw_loop.simps [of _ 0])
next
  case (Cons d ds)
  then obtain q nxt where p: "p \<noteq> 0" "hp_node (fw_heap s) p = Some \<lparr>nd_data = q, nd_next = nxt\<rparr>"
    "hp_data (fw_heap s) q = Some d" "list_rep (fw_heap s) nxt ds" by auto
  have v: "returns (\<lambda>s'. fw_kept s s' \<and> fifo_wf (ew_fifo (fw_elm s'))) (fw_visit P (pl_cmd P d) s)"
    using fw_visit_typed Cons.prems by auto
  have rest: "returns (\<lambda>s'. fw_kept s s' \<and> fifo_wf (ew_fifo (fw_elm s'))) (fw_loop P nxt s1)"
    if "fw_kept s s1" "fifo_wf (ew_fifo (fw_elm s1))" for s1
  proof -
    from Cons.IH [of s1 nxt] that p(4) fw_kept_heap [OF that(1)] Cons.prems(3)
    have "returns (\<lambda>s'. fw_kept s1 s' \<and> fifo_wf (ew_fifo (fw_elm s'))) (fw_loop P nxt s1)" by simp
    then show ?thesis by (rule returnsI) (use fw_kept_trans [OF that(1)] in auto)
  qed
  have body: "returns (\<lambda>s'. fw_kept s s' \<and> fifo_wf (ew_fifo (fw_elm s'))) (hp_node (fw_heap s1) p \<bind> (\<lambda>n. fw_loop P (nd_next n) s1))"
    if "fw_kept s s1 \<and> fifo_wf (ew_fifo (fw_elm s1))" for s1
    using rest [of s1] that p(2) fw_kept_heap [of s s1] by simp
  show ?case
    using p returnsI [OF v body] by (subst fw_loop.simps) simp
qed

lemma fw_pass_typed:
  assumes "fw_tables_ok P" and "fw_typed P s"
  shows "returns (\<lambda>s'. fw_kept s s' \<and> fw_typed P s') (fw_pass P s)"
proof -
  obtain "is" imgs where l: "fw_pids is" "list_rep (fw_heap s) (linked_list (fw_obd s)) imgs"
    "map (pl_cmd P) imgs = map (\<lambda>i. obd_cmds ! i) is"
    using assms(2) by (auto simp: fw_typed_def fw_listed_def)
  have wf: "fifo_wf (ew_fifo (fw_elm s))" using assms(2) by (simp add: fw_typed_def)
  have "pl_cmd P ` set imgs = (\<lambda>i. obd_cmds ! i) ` set is" by (metis l(3) set_map)
  then have h: "\<forall>d \<in> set imgs. handle_data (pl_cmd P d) \<noteq> Some Set_supported_ops"
    using obd_cmds_handlers [OF l(1)] by (metis imageE imageI)
  have "returns (\<lambda>s'. fw_kept s1 s' \<and> fifo_wf (ew_fifo (fw_elm s'))) (fw_loop P (linked_list (fw_obd s)) s1)"
    if "fw_heap s1 = fw_heap s" "fw_elm s1 = fw_elm s" for s1
    using fw_loop_typed [of s1] l(2) h wf that by simp
  note lp = returnsI [OF this]
  have "returns (\<lambda>s'. fw_kept s s' \<and> fifo_wf (ew_fifo (fw_elm s'))) (fw_pass P s)"
    by (auto simp: fw_pass_def returns_split fw_kept_def split: prod.split
        intro!: lp returnsI [OF returns_any [of "i2c_io hw a ap wp n rp x" for a ap wp n rp x hw]])
  then show ?thesis by (rule returnsI) (use fw_typed_kept assms(2) in auto)
qed

lemma fw_run_typed:
  assumes "fw_tables_ok P"
  shows "fw_typed P s \<Longrightarrow> returns (\<lambda>s'. fw_kept s s' \<and> fw_typed P s') (fw_run P n s)"
proof (induction n arbitrary: s)
  case (Suc n)
  have "returns (\<lambda>s'. fw_kept s s' \<and> fw_typed P s') (fw_run P n s1)" if "fw_kept s s1" "fw_typed P s1" for s1
    by (rule returnsI [OF Suc.IH [OF that(2)]]) (use fw_kept_trans [OF that(1)] in auto)
  then show ?case by (auto intro!: returnsI [OF fw_pass_typed [OF assms Suc.prems]])
qed simp

section \<open>Start-up\<close>

text \<open>The memory at reset: the arrays have their declared sizes and the list pointer is null.\<close>

definition fw_zeroed :: "('c, 'e, 'h) fw \<Rightarrow> bool" where
  "fw_zeroed s \<longleftrightarrow> length (f_buf (ew_fifo (fw_elm s))) = 64 \<and> io_typed (fw_io s) \<and> linked_list (fw_obd s) = 0"

lemma fw_storage_typed:
  assumes "io_typed (fw_io s)"
  shows "returns (\<lambda>s'. io_typed (fw_io s') \<and> sd_typed (fw_sd s') \<and> fw_elm s' = fw_elm s \<and> fw_obd s' = fw_obd s \<and>
    fw_heap s' = fw_heap s) (fw_storage P s)"
  using assms by (auto simp: fw_storage_def returns_split split: prod.split
      intro!: returnsI [OF initialize_sd_typed] returnsI [OF sd_sized.init_typed] returnsI [OF sd_sized.mount_typed])

lemma initialize_obd_typed:
  assumes P: "fw_tables_ok P" and "fifo_wf (ew_fifo w)" and "fw_listed P h (linked_list ctx)"
  shows "returns (\<lambda>(r, ctx', h', w'). fifo_wf (ew_fifo w') \<and> fw_listed P h' (linked_list ctx'))
    (initialize_obd rx (pl_malloc P) (pl_image P) buf dat ctx h w)"
  using assms(2,3) by (auto simp: initialize_obd_def returns_split split: prod.split
      intro!: returnsI [OF obd_command_wf] returnsI [OF set_ops_listed [OF P]] returnsI [OF returns_any [of "list_dump p x" for p x]])

lemma fw_vehicle_typed:
  assumes "fw_tables_ok P" and "fw_typed P s"
  shows "returns (fw_typed P) (fw_vehicle P s)"
  using assms(2) by (auto simp: fw_vehicle_def fw_typed_def returns_split split: prod.split
      intro!: returnsI [OF initialize_elm_wf] returnsI [OF initialize_obd_typed [OF assms(1)]])

lemma fw_lcd_on_typed:
  assumes "fw_typed P s"
  shows "returns (\<lambda>s'. fw_typed P s' \<and> length (fw_buf s') = 13 + length (pl_behind P)) (fw_lcd_on P s)"
  using assms by (auto simp: fw_lcd_on_def fw_typed_def returns_split split: prod.split
      intro!: returnsI [OF returns_any [of "i2c_io hw a ap wp n rp x" for a ap wp n rp x hw]])

lemma fw_start_typed:
  assumes P: "fw_tables_ok P" and s: "fw_zeroed s"
  shows "returns (\<lambda>s'. fw_typed P s' \<and> length (fw_buf s') = 13 + length (pl_behind P)) (fw_start P s)"
proof -
  let ?s = "fw_hardware P s"
  have parts: "io_typed (fw_io ?s)" "fifo_wf (ew_fifo (fw_elm ?s))" "linked_list (fw_obd ?s) = 0"
    using s fifo_init_wf [of "ew_fifo (fw_elm s)"] by (simp_all add: fw_zeroed_def fw_hardware_def Let_def)
  have "fw_listed P h 0" for h
    unfolding fw_listed_def by (rule exI [of _ "[]"], rule exI [of _ "[]"]) (simp add: fw_pids_def)
  with parts have "fw_typed P s1"
    if "io_typed (fw_io s1) \<and> sd_typed (fw_sd s1) \<and> fw_elm s1 = fw_elm ?s \<and> fw_obd s1 = fw_obd ?s \<and> fw_heap s1 = fw_heap ?s" for s1
    using that by (simp add: fw_typed_def)
  then show ?thesis
    by (auto simp: fw_start_def intro!: returnsI [OF fw_storage_typed [OF parts(1)]] returnsI [OF fw_vehicle_typed [OF P]] fw_lcd_on_typed)
qed

end
