(* ===== verification/Firmware_Display.thy ===== *)
theory Firmware_Display
  imports Firmware_Safe
begin

text \<open>
  What the display receives: for one command and the vehicle's reply to it, for one pass over the list of
  commands, and for a number of passes, in terms of the bytes the vehicle sends.
\<close>

section \<open>One command\<close>

definition obd_text :: "'f float_ops \<Rightarrow> obd_handler \<Rightarrow> u8 list \<Rightarrow> u8 list" where
  "obd_text fl hnd dat =
    (case hnd of
       Set_supported_ops \<Rightarrow> []
     | Get_engine_load \<Rightarrow> obd_get_engine_load fl dat
     | Get_coolant_temp \<Rightarrow> obd_get_coolant_temp dat
     | Get_fuel_trim \<Rightarrow> obd_get_fuel_trim fl dat
     | Get_fuel_pressure \<Rightarrow> obd_get_fuel_pressure dat
     | Get_manifold_pressure \<Rightarrow> obd_get_manifold_pressure dat
     | Get_engine_rpm \<Rightarrow> obd_get_engine_rpm dat
     | Get_vehicle_speed \<Rightarrow> obd_get_vehicle_speed dat
     | Get_timing_advance \<Rightarrow> obd_get_timing_advance dat
     | Get_air_temp \<Rightarrow> obd_get_air_temp dat
     | Get_maf_rate \<Rightarrow> obd_get_maf_rate dat
     | Get_throttle_pos \<Rightarrow> obd_get_throttle_pos fl dat
     | Get_oxygen_sensors \<Rightarrow> obd_get_oxygen_sensors dat
     | Get_oxygen_data \<Rightarrow> obd_get_oxygen_data fl dat)"

text \<open>The number of bytes of the answer a decoder looks at.\<close>

definition obd_needs :: "obd_handler \<Rightarrow> nat" where
  "obd_needs hnd = (if hnd = Get_engine_rpm \<or> hnd = Get_maf_rate then 4 else 3)"

lemmas obd_get_defs = obd_get_engine_load_def obd_get_coolant_temp_def obd_get_fuel_trim_def
  obd_get_fuel_pressure_def obd_get_manifold_pressure_def obd_get_engine_rpm_def obd_get_vehicle_speed_def
  obd_get_timing_advance_def obd_get_air_temp_def obd_get_maf_rate_def obd_get_throttle_pos_def
  obd_get_oxygen_sensors_def obd_get_oxygen_data_def

lemma obd_text_prefix: "obd_needs hnd \<le> length xs \<Longrightarrow> obd_text fl hnd (xs @ ys) = obd_text fl hnd xs"
  by (cases hnd) (simp_all add: obd_needs_def obd_text_def obd_get_defs nth_append)

lemma obd_handle_text:
  "hnd \<noteq> Set_supported_ops \<Longrightarrow> obd_handle P hnd dat ret ctx h = Some (obd_text (pl_fl P) hnd dat, ctx, h)"
  by (cases hnd) (simp_all add: obd_handle_def obd_text_def)

text \<open>How the vehicle replies to a request: with data bytes, or the ELM327 reports a failure.\<close>

datatype reply = Data "u8 list" | No_data | No_connect

primrec reply_text :: "reply \<Rightarrow> u8 list" where
  "reply_text (Data ds) = obd_answer [] ds [13, 13]"
| "reply_text No_data = NO_DATA @ [13, 13]"
| "reply_text No_connect = NO_CONNECT @ [13, 13]"

primrec reply_ok :: "nat \<Rightarrow> obd_handler \<Rightarrow> reply \<Rightarrow> bool" where
  "reply_ok n hnd (Data ds) = (length ds < n \<and> length ds < 20 \<and> obd_needs hnd \<le> Suc (length ds))"
| "reply_ok n hnd No_data = True"
| "reply_ok n hnd No_connect = True"

text \<open>What the vehicle sends and what the display gets, for a command and the reply to it.\<close>

definition fw_answer :: "obd_cmd \<times> reply \<Rightarrow> u8 list" where
  "fw_answer x = (if handle_data (fst x) = None then [] else reply_text (snd x) @ [62])"

definition fw_frame :: "'f float_ops \<Rightarrow> obd_cmd \<times> reply \<Rightarrow> u8 list" where
  "fw_frame fl x =
    (case (handle_data (fst x), fw_line (obd_pid (fst x)), snd x) of
       (Some hnd, Some (pos, label), Data ds) \<Rightarrow>
         [0xFE, 0x45, pos] @
         c_snprintf 20 (label @ obd_text fl hnd (0x41 # ds) @ the (obd_units (fst x))) (replicate 20 0)
     | _ \<Rightarrow> [])"

definition fw_item_ok :: "nat \<Rightarrow> obd_cmd \<times> reply \<Rightarrow> bool" where
  "fw_item_ok n x \<longleftrightarrow> obd_request (obd_cmd_text (fst x)) \<and>
    (case handle_data (fst x) of None \<Rightarrow> True | Some hnd \<Rightarrow> hnd \<noteq> Set_supported_ops \<and> reply_ok n hnd (snd x)) \<and>
    (fw_line (obd_pid (fst x)) \<noteq> None \<longrightarrow> obd_units (fst x) \<noteq> None)"

text \<open>The state between two commands: the device's answers to come, what the display has received, and
  that nothing else changes.\<close>

definition fw_idle ::
  "('c, u8 list list, 'h, 'f) platform \<Rightarrow> 'h tw_view \<Rightarrow> u8 list \<Rightarrow> u8 list \<Rightarrow> ('c, u8 list list, 'h) fw \<Rightarrow> bool" where
  "fw_idle P view pend shown s \<longleftrightarrow> elm_ready (fw_elm s) \<and> elm_pending (fw_elm s) = pend \<and>
    (\<exists>q. view (tw_hw (fw_twi s)) = (TW_idle, shown, q))"

definition fw_platform_ok :: "('c, u8 list list, 'h, 'f) platform \<Rightarrow> 'h tw_view \<Rightarrow> bool" where
  "fw_platform_ok P view \<longleftrightarrow> pl_rx P = script_rx \<and> twi_conforms (pl_twi P) view \<and> 64 < length (pl_stack P)"

definition fw_same :: "('c, 'e, 'h) fw \<Rightarrow> ('c, 'e, 'h) fw \<Rightarrow> bool" where
  "fw_same s s' \<longleftrightarrow> fw_heap s' = fw_heap s \<and> fw_obd s' = fw_obd s \<and> length (fw_buf s') = length (fw_buf s)"

lemma fw_same_refl [simp]: "fw_same s s"
  by (simp add: fw_same_def)

lemma fw_same_trans [trans]: "fw_same s s' \<Longrightarrow> fw_same s' s'' \<Longrightarrow> fw_same s s''"
  by (simp add: fw_same_def)

lemma i2c_send_only:
  assumes "twi_conforms hw view" and "view (tw_hw w) = (TW_idle, r, q)"
  shows "\<exists>w'. i2c_io hw a bs [] 0 [] w = Some (0, [], w') \<and> view (tw_hw w') = (TW_idle, r @ bs, q)"
  using i2c_io_conf [OF assms, of 0 "[]" a bs "[]"] by simp

lemma lcd_print_ok:
  assumes "twi_conforms hw view" and "view (tw_hw w) = (TW_idle, r, q)" and "3 \<le> length buf"
  shows "\<exists>buf' w'. lcd_print hw pos text buf w = Some (buf', w') \<and> length buf' = length buf \<and>
    view (tw_hw w') = (TW_idle, r @ [0xFE, 0x45, pos] @ c_snprintf 20 text (replicate 20 0), q)"
proof -
  obtain a b c rest where buf: "buf = a # b # c # rest"
    using assms(3) by (auto simp: numeral_3_eq_3 Suc_le_length_iff)
  then have t: "take 3 (buf[0 := 0xFE, 1 := 0x45, 2 := pos]) = [0xFE, 0x45, pos]" by (simp add: numeral_2_eq_2 numeral_3_eq_3)
  obtain w1 where 1: "i2c_io hw 0x50 [0xFE, 0x45, pos] [] 0 [] w = Some (0, [], w1)"
    "view (tw_hw w1) = (TW_idle, r @ [0xFE, 0x45, pos], q)"
    using i2c_send_only [OF assms(1,2)] by blast
  obtain w2 where 2: "i2c_io hw 0x50 (c_snprintf 20 text (replicate 20 0)) [] 0 [] w1 = Some (0, [], w2)"
    "view (tw_hw w2) = (TW_idle, (r @ [0xFE, 0x45, pos]) @ c_snprintf 20 text (replicate 20 0), q)"
    using i2c_send_only [OF assms(1) 1(2)] by blast
  show ?thesis unfolding lcd_print_def bind.bind_lunit t using 1 2 by simp
qed

lemma fail_text: "msg \<in> {NO_DATA, NO_CONNECT} \<Longrightarrow> length (msg @ [13, 13]) < 64"
  by (auto simp: NO_DATA_def NO_CONNECT_def cstr_def)

lemma fw_visit_failed:
  assumes P: "fw_platform_ok P view" and rq: "obd_request (obd_cmd_text cmd)" and h: "handle_data cmd = Some hnd"
    and msg: "msg \<in> {NO_DATA, NO_CONNECT}"
    and s: "elm_ready (fw_elm s)" "elm_pending (fw_elm s) = (msg @ [13, 13]) @ 62 # tail"
  shows "\<exists>w. fw_visit P cmd s = Some (s\<lparr>fw_elm := w\<rparr>) \<and> elm_ready w \<and> elm_pending w = tail"
proof -
  have stk: "64 < length (pl_stack P)" and rx: "pl_rx P = script_rx" using P by (simp_all add: fw_platform_ok_def)
  have "elm_pending (fw_elm s) = ([] @ msg @ [13, 13]) @ 62 # tail" using s(2) by simp
  from obd_command_failure [OF s(1) this msg _ obd_request_strlen [OF rq] stk, of "fw_buf s" 64] fail_text [OF msg]
  show ?thesis by (auto simp: fw_visit_def h rx)
qed

lemma fw_visit_data:
  assumes P: "fw_platform_ok P view" and rq: "obd_request (obd_cmd_text cmd)" and hd: "handle_data cmd = Some hnd"
    and h: "hnd \<noteq> Set_supported_ops" "obd_needs hnd \<le> length (0x41 # ds)"
    and units: "fw_line (obd_pid cmd) \<noteq> None \<longrightarrow> obd_units cmd \<noteq> None"
    and e: "elm_ready (fw_elm s)" "elm_pending (fw_elm s) = obd_answer [] ds [13, 13] @ 62 # tail"
    and v: "view (tw_hw (fw_twi s)) = (TW_idle, shown, q)"
    and len: "length ds < length (fw_buf s)" "3 \<le> length (fw_buf s)" "length ds < 20"
  shows "\<exists>s'. fw_visit P cmd s = Some s' \<and> fw_idle P view tail (shown @ fw_frame (pl_fl P) (cmd, Data ds)) s' \<and> fw_same s s'"
proof -
  have ws: "list_all c_isspace [13, 13]" by (simp add: c_isspace_def)
  have stk: "64 < length (pl_stack P)" and rx: "pl_rx P = script_rx" and conf: "twi_conforms (pl_twi P) view"
    using P by (simp_all add: fw_platform_ok_def)
  let ?dat = "(0x41 # ds) @ drop (Suc (length ds)) (fw_buf s)"
  obtain w' where cmd: "obd_command script_rx (pl_stack P) (obd_cmd_text cmd) (fw_buf s) 64 (fw_elm s) = Some (0, ?dat, w')"
    "elm_ready w'" "elm_pending w' = tail"
    using obd_command_run [OF e _ ws rq stk len(1), of 64] len(3) by (auto simp: obd_answer_def length_elm_hex)
  have l: "length ?dat = length (fw_buf s)" using len(1) by simp
  have texts: "obd_text (pl_fl P) hnd ?dat = obd_text (pl_fl P) hnd (0x41 # ds)" by (rule obd_text_prefix [OF h(2)])
  show ?thesis
  proof (cases "fw_line (obd_pid cmd)")
    case None
    then show ?thesis
      using hd cmd v l by (simp add: fw_visit_def rx obd_handle_text [OF h(1)] fw_frame_def fw_idle_def fw_same_def)
  next
    case (Some pl)
    then obtain pos label where line: "fw_line (obd_pid cmd) = Some (pos, label)" by (cases pl) auto
    obtain u where u: "obd_units cmd = Some u" using units line by auto
    let ?t = "label @ obd_text (pl_fl P) hnd (0x41 # ds) @ u"
    have "3 \<le> length ?dat" using l len(2) by simp
    from lcd_print_ok [OF conf v this, of pos ?t] obtain buf' w2 where
      lcd: "lcd_print (pl_twi P) pos ?t ?dat (fw_twi s) = Some (buf', w2)" "length buf' = length ?dat"
      "view (tw_hw w2) = (TW_idle, shown @ [0xFE, 0x45, pos] @ c_snprintf 20 ?t (replicate 20 0), q)" by blast
    show ?thesis
      using hd cmd lcd l
      by (simp add: fw_visit_def rx obd_handle_text [OF h(1)] line u texts [simplified] fw_frame_def fw_idle_def fw_same_def)
  qed
qed

lemma fw_visit_ok:
  assumes P: "fw_platform_ok P view" and x: "fw_item_ok (length (fw_buf s)) x"
    and s: "fw_idle P view (fw_answer x @ tail) shown s" and len: "3 \<le> length (fw_buf s)"
  shows "\<exists>s'. fw_visit P (fst x) s = Some s' \<and> fw_idle P view tail (shown @ fw_frame (pl_fl P) x) s' \<and> fw_same s s'"
proof (cases "handle_data (fst x)")
  case None
  with s show ?thesis by (simp add: fw_visit_def fw_answer_def fw_frame_def)
next
  case h: (Some hnd)
  have rq: "obd_request (obd_cmd_text (fst x))" and r: "hnd \<noteq> Set_supported_ops" "reply_ok (length (fw_buf s)) hnd (snd x)"
    and u: "fw_line (obd_pid (fst x)) \<noteq> None \<longrightarrow> obd_units (fst x) \<noteq> None"
    using x h by (simp_all add: fw_item_ok_def)
  have e: "elm_ready (fw_elm s)" "elm_pending (fw_elm s) = reply_text (snd x) @ 62 # tail"
    using s h by (simp_all add: fw_idle_def fw_answer_def)
  obtain q where v: "view (tw_hw (fw_twi s)) = (TW_idle, shown, q)" using s by (auto simp: fw_idle_def)
  show ?thesis
  proof (cases "snd x")
    case (Data ds)
    then have fr: "fw_frame fl x = fw_frame fl (fst x, Data ds)" for fl :: "'d float_ops" by (cases x) simp
    from fw_visit_data [OF P rq h r(1) _ u e(1) _ v _ len, of ds tail] e(2) r(2) Data show ?thesis by (simp add: fr)
  next
    case No_data
    have "elm_pending (fw_elm s) = (NO_DATA @ [13, 13]) @ 62 # tail" using e(2) No_data by simp
    from fw_visit_failed [OF P rq h _ e(1) this] v No_data show ?thesis
      by (auto simp: fw_idle_def fw_same_def fw_frame_def split: option.splits)
  next
    case No_connect
    have "elm_pending (fw_elm s) = (NO_CONNECT @ [13, 13]) @ 62 # tail" using e(2) No_connect by simp
    from fw_visit_failed [OF P rq h _ e(1) this] v No_connect show ?thesis
      by (auto simp: fw_idle_def fw_same_def fw_frame_def split: option.splits)
  qed
qed

section \<open>The list\<close>

lemma fw_loop_ok:
  assumes P: "fw_platform_ok P view"
  shows "\<lbrakk>list_rep (fw_heap s) p imgs; map (pl_cmd P) imgs = map fst xs; list_all (fw_item_ok (length (fw_buf s))) xs;
      fw_idle P view (concat (map fw_answer xs) @ tail) shown s;
      3 \<le> length (fw_buf s)\<rbrakk> \<Longrightarrow>
    \<exists>s'. fw_loop P p s = Some s' \<and> fw_idle P view tail (shown @ concat (map (fw_frame (pl_fl P)) xs)) s' \<and>
      fw_same s s'"
proof (induction xs arbitrary: s p imgs shown)
  case Nil
  then show ?case by (simp add: fw_loop.simps [of _ 0])
next
  case (Cons x xs)
  then obtain d ds where imgs: "imgs = d # ds" and d: "pl_cmd P d = fst x" "map (pl_cmd P) ds = map fst xs" by auto
  from Cons.prems(1) imgs obtain q nxt where p: "p \<noteq> 0" and n: "hp_node (fw_heap s) p = Some \<lparr>nd_data = q, nd_next = nxt\<rparr>"
    "hp_data (fw_heap s) q = Some d" and rep: "list_rep (fw_heap s) nxt ds" by auto
  from fw_visit_ok [OF P, where x = x and tail = "concat (map fw_answer xs) @ tail" and shown = shown and s = s] Cons.prems(3-5)
  obtain s1 where s1: "fw_visit P (fst x) s = Some s1"
    "fw_idle P view (concat (map fw_answer xs) @ tail) (shown @ fw_frame (pl_fl P) x) s1"
    "fw_same s s1" by auto
  then have same: "fw_heap s1 = fw_heap s" "length (fw_buf s1) = length (fw_buf s)" by (simp_all add: fw_same_def)
  from Cons.IH [of s1 nxt ds "shown @ fw_frame (pl_fl P) x"] rep d(2) Cons.prems(3,5) s1(2) same
  obtain s' where "fw_loop P nxt s1 = Some s'"
    "fw_idle P view tail ((shown @ fw_frame (pl_fl P) x) @ concat (map (fw_frame (pl_fl P)) xs)) s'"
    "fw_same s1 s'" by auto
  then show ?case using p n d(1) s1(1,3) same fw_same_trans [OF s1(3)] by (subst fw_loop.simps) simp
qed

text \<open>The commands of the table that may be in the list.\<close>

definition fw_cmds_ok :: "nat \<Rightarrow> nat \<times> reply \<Rightarrow> bool" where
  "fw_cmds_ok n x \<longleftrightarrow> 1 \<le> fst x \<and> fst x < 32 \<and>
    (case handle_data (obd_cmds ! fst x) of None \<Rightarrow> True | Some hnd \<Rightarrow> reply_ok n hnd (snd x))"

definition fw_entry :: "nat \<times> reply \<Rightarrow> obd_cmd \<times> reply" where
  "fw_entry x = (obd_cmds ! fst x, snd x)"

lemma hex_02_shape: "list_all (\<lambda>i. length (hex_02 i) = 2 \<and> 0 \<notin> set (hex_02 i)) [0..<32]"
  by code_simp

lemma obd_cmds_request: "i < 32 \<Longrightarrow> obd_request (obd_cmd_text (obd_cmds ! i))"
proof -
  assume i: "i < 32"
  have "map obd_cmd_text obd_cmds ! i = map (\<lambda>i. cstr ''01'' @ hex_02 i @ [13]) [0..<32] ! i"
    by (simp only: obd_cmds_texts)
  then have t: "obd_cmd_text (obd_cmds ! i) = cstr ''01'' @ hex_02 i @ [13]" using i by (simp add: length_obd_cmds)
  have "length (hex_02 i) = 2" "0 \<notin> set (hex_02 i)"
    using bspec [OF hex_02_shape [unfolded list_all_iff], of i] i by auto
  then obtain p q where "hex_02 i = [p, q]" "p \<noteq> 0" "q \<noteq> 0"
    by (auto simp: numeral_2_eq_2 length_Suc_conv)
  then show ?thesis unfolding t by (simp add: obd_request_def cstr_def)
qed

lemma fw_line_pids:
  "obd_pid_of ''ENGINE_RPM'' = 12" "obd_pid_of ''CALCULATED_ENGINE_LOAD'' = 4"
  "obd_pid_of ''ENGINE_COOLANT_TEMP_1'' = 5" "obd_pid_of ''VEHICLE_SPEED'' = 13"
  using obd_pid_of_name [of 12] obd_pid_of_name [of 4] obd_pid_of_name [of 5] obd_pid_of_name [of 13]
  by (simp_all add: obd_cmd_names_def obd_pids_lo_def)

lemma obd_pid_nth: "i < 32 \<Longrightarrow> obd_pid (obd_cmds ! i) = of_nat i"
proof -
  assume i: "i < 32"
  have "map obd_pid obd_cmds ! i = map of_nat [0..<32] ! i" by (simp only: obd_cmds_pids)
  then show ?thesis using i by (simp add: length_obd_cmds)
qed

lemma obd_units_shown:
  "obd_units (obd_cmds ! 12) \<noteq> None" "obd_units (obd_cmds ! 4) \<noteq> None" "obd_units (obd_cmds ! 5) \<noteq> None"
  "obd_units (obd_cmds ! 13) \<noteq> None"
  by (simp_all add: obd_cmds_defs)

lemma of_nat_u8: "i < 256 \<Longrightarrow> j < 256 \<Longrightarrow> (of_nat i :: u8) = of_nat j \<longleftrightarrow> i = j"
  by (simp add: word_of_nat_eq_iff take_bit_nat_eq_self)

lemma fw_line_units: "i < 32 \<Longrightarrow> fw_line (obd_pid (obd_cmds ! i)) \<noteq> None \<Longrightarrow> obd_units (obd_cmds ! i) \<noteq> None"
  using of_nat_u8 [of i 12] of_nat_u8 [of i 4] of_nat_u8 [of i 5] of_nat_u8 [of i 13] obd_units_shown
  by (auto simp: obd_pid_nth fw_line_def fw_line_pids split: if_splits)

lemma fw_entry_ok: "fw_cmds_ok n x \<Longrightarrow> fw_item_ok n (fw_entry x)"
  using obd_cmds_request [of "fst x"] obd_handler_nth [of "fst x"] fw_line_units [of "fst x"]
  by (auto simp: fw_cmds_ok_def fw_item_ok_def fw_entry_def split: option.splits)

text \<open>What the vehicle sends in one pass, and what the display receives.\<close>

definition fw_answers :: "(nat \<times> reply) list \<Rightarrow> u8 list" where
  "fw_answers xs = concat (map (fw_answer \<circ> fw_entry) xs)"

definition fw_screen :: "'f float_ops \<Rightarrow> (nat \<times> reply) list \<Rightarrow> u8 list" where
  "fw_screen fl xs = [0xFE, 0x46] @ concat (map (fw_frame fl \<circ> fw_entry) xs)"

text \<open>The list of commands in memory, given by their positions in the table.\<close>

definition fw_list :: "('c, 'e, 'h, 'f) platform \<Rightarrow> nat list \<Rightarrow> ('c, 'e, 'h) fw \<Rightarrow> bool" where
  "fw_list P is s \<longleftrightarrow> (\<exists>imgs. list_rep (fw_heap s) (linked_list (fw_obd s)) imgs \<and> map (pl_cmd P) imgs = map (\<lambda>i. obd_cmds ! i) is)"

lemma fw_pass_ok:
  assumes P: "fw_platform_ok P view" and lst: "fw_list P (map fst xs) s"
    and ok: "list_all (fw_cmds_ok (length (fw_buf s))) xs"
    and s: "fw_idle P view (fw_answers xs @ tail) shown s" and len: "3 \<le> length (fw_buf s)"
  shows "\<exists>s'. fw_pass P s = Some s' \<and> fw_idle P view tail (shown @ fw_screen (pl_fl P) xs) s' \<and> fw_same s s'"
proof -
  obtain imgs where rep: "list_rep (fw_heap s) (linked_list (fw_obd s)) imgs"
    and cmds: "map (pl_cmd P) imgs = map (\<lambda>x. obd_cmds ! fst x) xs" using lst by (auto simp: fw_list_def)
  obtain q where v: "view (tw_hw (fw_twi s)) = (TW_idle, shown, q)" using s by (auto simp: fw_idle_def)
  have conf: "twi_conforms (pl_twi P) view" using P by (simp add: fw_platform_ok_def)
  obtain a b rest where buf: "fw_buf s = a # b # rest" using len by (auto simp: numeral_3_eq_3 Suc_le_length_iff)
  let ?buf = "0xFE # 0x46 # rest"
  obtain w1 where 1: "i2c_io (pl_twi P) 0x50 [0xFE, 0x46] [] 0 [] (fw_twi s) = Some (0, [], w1)"
    "view (tw_hw w1) = (TW_idle, shown @ [0xFE, 0x46], q)"
    using i2c_send_only [OF conf v] by blast
  let ?s = "s\<lparr>fw_buf := ?buf, fw_twi := w1\<rparr>"
  have "fw_idle P view (concat (map fw_answer (map fw_entry xs)) @ tail) (shown @ [0xFE, 0x46]) ?s"
    using s 1(2) by (auto simp: fw_idle_def fw_answers_def)
  moreover have "list_rep (fw_heap ?s) (linked_list (fw_obd s)) imgs" using rep by simp
  moreover have "map (pl_cmd P) imgs = map fst (map fw_entry xs)" using cmds by (simp add: fw_entry_def)
  moreover have "list_all (fw_item_ok (length (fw_buf ?s))) (map fw_entry xs)" using ok fw_entry_ok buf by (auto simp: list_all_iff)
  moreover have "3 \<le> length (fw_buf ?s)" using len buf by simp
  ultimately obtain s' where "fw_loop P (linked_list (fw_obd s)) ?s = Some s'"
    "fw_idle P view tail ((shown @ [0xFE, 0x46]) @ concat (map (fw_frame (pl_fl P)) (map fw_entry xs))) s'" "fw_same ?s s'"
    using fw_loop_ok [OF P, of ?s] by blast
  then show ?thesis using 1(1) buf by (auto simp: fw_pass_def fw_idle_def fw_screen_def fw_same_def)
qed

lemma fw_list_same: "fw_same s s' \<Longrightarrow> fw_list P is s' = fw_list P is s"
  by (simp add: fw_same_def fw_list_def)

lemma fw_run_ok:
  assumes P: "fw_platform_ok P view"
  shows "\<lbrakk>list_all (\<lambda>xs. map fst xs = is \<and> list_all (fw_cmds_ok (length (fw_buf s))) xs) rounds; fw_list P is s;
      fw_idle P view (concat (map fw_answers rounds) @ tail) shown s; 3 \<le> length (fw_buf s)\<rbrakk> \<Longrightarrow>
    \<exists>s'. fw_run P (length rounds) s = Some s' \<and>
      fw_idle P view tail (shown @ concat (map (fw_screen (pl_fl P)) rounds)) s' \<and> fw_same s s'"
proof (induction rounds arbitrary: s shown)
  case Nil
  then show ?case by simp
next
  case (Cons xs rounds)
  from fw_pass_ok [OF P, of xs s "concat (map fw_answers rounds) @ tail" shown] Cons.prems
  obtain s1 where s1: "fw_pass P s = Some s1"
    "fw_idle P view (concat (map fw_answers rounds) @ tail) (shown @ fw_screen (pl_fl P) xs) s1" "fw_same s s1"
    by auto
  then have "length (fw_buf s1) = length (fw_buf s)" by (simp add: fw_same_def)
  with Cons.IH [of s1 "shown @ fw_screen (pl_fl P) xs"] Cons.prems(1,2,4) s1(2) fw_list_same [OF s1(3)]
  obtain s' where "fw_run P (length rounds) s1 = Some s'"
    "fw_idle P view tail ((shown @ fw_screen (pl_fl P) xs) @ concat (map (fw_screen (pl_fl P)) rounds)) s'" "fw_same s1 s'"
    by auto
  then show ?case using s1(1) fw_same_trans [OF s1(3)] by simp
qed

end
