(* ===== verification/Fat_Files.thy ===== *)
theory Fat_Files
  imports Fat
begin

text \<open>
  What the file system does on a conforming card: the FAT chains it reads, the clusters and directory
  slots it allocates, and files as they grow. The lemmas are proved once over any block device and
  used through the interpretation on the SD card driver.
\<close>

declare io_read_nbytes.simps [simp del] io_write_nbytes.simps [simp del]

section \<open>The search loop\<close>

lemma first_not_at:
  assumes "\<And>j. j < k \<Longrightarrow> p (c + of_nat j)" and "\<not> p (c + of_nat k)"
  shows "first_not p c = Some (c + of_nat k)"
  using assms
proof (induction k arbitrary: c)
  case 0
  then show ?case by (simp add: first_not.simps)
next
  case (Suc k)
  have "p c" using Suc.prems(1) [of 0] by simp
  moreover have "first_not p (c + 1) = Some (c + 1 + of_nat k)"
  proof (rule Suc.IH)
    show "p (c + 1 + of_nat j)" if "j < k" for j
      using Suc.prems(1) [of "Suc j"] that by (simp add: add.assoc)
    show "\<not> p (c + 1 + of_nat k)" using Suc.prems(2) by (simp add: add.assoc)
  qed
  ultimately show ?case by (simp add: first_not.simps [of p c] add.assoc)
qed

text \<open>A set of few words leaves one of the first few words free.\<close>

lemma free_word:
  assumes "finite S" and "card S < K" and "K \<le> 2 ^ 32"
  shows "\<exists>k < K. c + of_nat k \<notin> (S :: u32 set)"
proof (rule ccontr)
  let ?f = "\<lambda>k. c + of_nat k :: u32"
  assume "\<not> (\<exists>k < K. ?f k \<notin> S)"
  then have "?f ` {..<K} \<subseteq> S" by auto
  then have "card (?f ` {..<K}) \<le> card S" using assms(1) by (simp add: card_mono)
  moreover have "inj_on ?f {..<K}"
  proof (rule inj_onI)
    fix i j assume "i \<in> {..<K}" "j \<in> {..<K}" "?f i = ?f j"
    then have "(of_nat i :: u32) = of_nat j" "i < 2 ^ 32" "j < 2 ^ 32" using assms(3) by auto
    then show "i = j" by (metis unat_of_nat_u32)
  qed
  ultimately show False using assms(2) by (simp add: card_image)
qed

lemma first_not_least:
  assumes "finite {c. p c}" and "card {c. p c} < K" and "unat b + K \<le> 2 ^ 32"
  shows "\<exists>c. first_not p b = Some c \<and> \<not> p c \<and> b \<le> c \<and> (\<forall>d. b \<le> d \<and> d < c \<longrightarrow> p d)"
proof -
  define k where "k = (LEAST k. \<not> p (b + of_nat k))"
  obtain k0 where k0: "k0 < K" "\<not> p (b + of_nat k0)" using free_word [OF assms(1,2)] assms(3) by auto
  have nk: "\<not> p (b + of_nat k)" unfolding k_def by (rule LeastI [of _ k0]) (rule k0(2))
  have below: "p (b + of_nat j)" if "j < k" for j
    using that not_less_Least [of j "\<lambda>k. \<not> p (b + of_nat k)"] by (auto simp: k_def)
  have "k \<le> k0" unfolding k_def by (rule Least_le) (rule k0(2))
  then have kK: "k < K" using k0(1) by simp
  have u: "unat (b + of_nat j) = unat b + j" if "j < K" for j
  proof -
    have "unat (of_nat j :: u32) = j" using that assms(3) by (simp add: unat_of_nat_u32)
    then show ?thesis using that assms(3) by (subst unat_add_lt) auto
  qed
  have "p d" if d: "b \<le> d" "d < b + of_nat k" for d
  proof -
    have "unat b \<le> unat d" "unat d < unat b + k" using d u [OF kK] by (auto simp: word_le_nat_alt word_less_nat_alt)
    then have "unat d - unat b < k" by simp
    moreover from this have "unat (b + of_nat (unat d - unat b)) = unat d"
      using u [of "unat d - unat b"] kK \<open>unat b \<le> unat d\<close> by simp
    then have "b + of_nat (unat d - unat b) = d" by (simp only: word_unat_eq_iff)
    ultimately show ?thesis using below by metis
  qed
  moreover have "b \<le> b + of_nat k" using u [OF kK] by (simp add: word_le_nat_alt)
  ultimately show ?thesis using first_not_at [of k p b] below nk by blast
qed

section \<open>Runs of bytes\<close>

lemma unat_add_of_nat: "unat (x :: u32) + i < 2 ^ 32 \<Longrightarrow> unat (x + of_nat i) = unat x + i"
  using unat_of_nat_u32 [of i] by (subst unat_add_lt) auto

lemma length_disk_bytes [simp]: "length (disk_bytes s x k) = k"
  by (simp add: disk_bytes_def)

lemma disk_bytes_frame:
  assumes w: "unat x + length bs \<le> 2 ^ 32" "unat x + length bs \<le> 512 * N"
    and len: "\<And>a. unat a < N \<Longrightarrow> length (s a) = 512" and y: "unat y + k \<le> 2 ^ 32"
    and dis: "unat y + k \<le> unat x \<or> unat x + length bs \<le> unat y"
  shows "disk_bytes (disk_puts x bs s) y k = disk_bytes s y k"
proof (rule nth_equalityI)
  show "length (disk_bytes (disk_puts x bs s) y k) = length (disk_bytes s y k)" by simp
  fix i assume "i < length (disk_bytes (disk_puts x bs s) y k)"
  then have i: "i < k" by simp
  with y have u: "unat (y + of_nat i) = unat y + i" by (intro unat_add_of_nat) simp
  from i dis u disk_byte_puts [where s = s and N = N and y = "y + of_nat i", OF w(1) len w(2)]
  show "disk_bytes (disk_puts x bs s) y k ! i = disk_bytes s y k ! i"
    by (auto simp: disk_bytes_def)
qed

lemma disk_bytes_append: "disk_bytes s x (a + b) = disk_bytes s x a @ disk_bytes s (x + of_nat a) b"
proof -
  have "[0..<a + b] = [0..<a] @ [a..<a + b]" by (rule upt_add_eq_append) simp
  moreover have "[a..<a + b] = map (\<lambda>i. a + i) [0..<b]"
    by (rule nth_equalityI) simp_all
  ultimately show ?thesis by (simp add: disk_bytes_def comp_def add.assoc)
qed

section \<open>Chains\<close>

text \<open>The 32-bit cell of a cluster in the FAT, as the medium \<open>s\<close> has it, and its byte address.\<close>

definition fat_cell_addr :: "fat32_ctx \<Rightarrow> u32 \<Rightarrow> u32" where
  "fat_cell_addr ctx c = SECTOR_SIZE_BYTES * fat_begin_sector ctx + c * 4"

definition fat_cell :: "fat32_ctx \<Rightarrow> (u32 \<Rightarrow> u8 list) \<Rightarrow> u32 \<Rightarrow> u32" where
  "fat_cell ctx s c = rd32 (disk_bytes s (fat_cell_addr ctx c) 4) 0"

text \<open>An end mark: the 28 bits of the cell's value are 0FFFFFF8 or more.\<close>

definition fat_end_mark :: "u32 \<Rightarrow> bool" where
  "fat_end_mark v \<longleftrightarrow> 2 ^ 28 - 8 \<le> unat v mod 2 ^ 28"

lemma fat32_last_cluster [simp]: "fat32_is_last_cluster v \<longleftrightarrow> fat_end_mark v"
proof -
  have "0x0FFFFFFF AND v = take_bit 28 v" by (simp add: take_bit_eq_mask mask_eq_exp_minus_1 and.commute)
  moreover have "unat (take_bit 28 v) = unat v mod 2 ^ 28"
    by (simp only: unsigned_take_bit_eq) (simp only: take_bit_eq_mod)
  ultimately show ?thesis by (simp add: fat32_is_last_cluster_def fat_end_mark_def word_le_nat_alt)
qed

fun fat_chain :: "fat32_ctx \<Rightarrow> (u32 \<Rightarrow> u8 list) \<Rightarrow> u32 list \<Rightarrow> bool" where
  "fat_chain ctx s [] \<longleftrightarrow> False"
| "fat_chain ctx s [c] \<longleftrightarrow> fat_end_mark (fat_cell ctx s c)"
| "fat_chain ctx s (c # d # cs) \<longleftrightarrow> \<not> fat_end_mark (fat_cell ctx s c) \<and> fat_cell ctx s c = d \<and>
     fat_chain ctx s (d # cs)"

definition fat_in_range :: "fat32_ctx \<Rightarrow> nat \<Rightarrow> u32 \<Rightarrow> bool" where
  "fat_in_range ctx e c \<longleftrightarrow> unat (fat_cell_addr ctx c) + 4 \<le> e"

context block_device
begin

lemma fat_cell_read:
  assumes "io_ok ok sect n io m" and "io_fresh sect io m" and "fat_in_range ctx e c" and "io_addr_ok n e"
  shows "\<exists>io' m' bs. io_read_nbytes B io [0, 0, 0, 0] (SECTOR_SIZE_BYTES * fat_begin_sector ctx + c * 4) m =
      Some (0, bs, io', m') \<and> rd32 bs 0 = fat_cell ctx (sect m) c \<and> io_ok ok sect n io' m' \<and>
      io_fresh sect io' m' \<and> sect m' = sect m \<and> io_same_out io io'"
proof -
  have len: "length [0, 0, 0, 0 :: u8] = 4" by simp
  from io_read_ok [OF assms(1,2), of "fat_cell_addr ctx c" "[0, 0, 0, 0]" e] assms(3,4)
  obtain io' m' where r: "io_read_nbytes B io [0, 0, 0, 0] (fat_cell_addr ctx c) m =
      Some (0, disk_bytes (sect m) (fat_cell_addr ctx c) 4, io', m')"
    "io_ok ok sect n io' m'" "io_fresh sect io' m'" "sect m' = sect m" "io_same_out io io'"
    unfolding fat_in_range_def len by auto
  then show ?thesis unfolding fat_cell_def fat_cell_addr_def by blast
qed

lemma fat_loop_chain:
  assumes "io_ok ok sect n io m" and "io_fresh sect io m" and "io_addr_ok n e"
    and "fat_chain ctx (sect m) (c # cs)" and "\<forall>d \<in> set (c # cs). fat_in_range ctx e d"
  shows "\<exists>io' m'. fat32_get_fat_loop B ctx c acc io m = Some (0, acc @ c # cs, io', m') \<and>
    io_ok ok sect n io' m' \<and> io_fresh sect io' m' \<and> sect m' = sect m \<and> io_same_out io io'"
  using assms(1,2,4,5)
proof (induction cs arbitrary: c acc io m)
  case Nil
  obtain io1 m1 bs where r: "io_read_nbytes B io [0, 0, 0, 0] (SECTOR_SIZE_BYTES * fat_begin_sector ctx + c * 4) m =
      Some (0, bs, io1, m1)" "rd32 bs 0 = fat_cell ctx (sect m) c" "io_ok ok sect n io1 m1"
    "io_fresh sect io1 m1" "sect m1 = sect m" "io_same_out io io1"
    using fat_cell_read [OF Nil(1,2) _ assms(3), of ctx c] Nil(4) by auto
  with Nil(3) show ?case by (simp add: fat32_get_fat_loop.simps [of B ctx c])
next
  case (Cons d cs)
  obtain io1 m1 bs where r: "io_read_nbytes B io [0, 0, 0, 0] (SECTOR_SIZE_BYTES * fat_begin_sector ctx + c * 4) m =
      Some (0, bs, io1, m1)" "rd32 bs 0 = fat_cell ctx (sect m) c" "io_ok ok sect n io1 m1"
    "io_fresh sect io1 m1" "sect m1 = sect m" "io_same_out io io1"
    using fat_cell_read [OF Cons.prems(1,2) _ assms(3), of ctx c] Cons.prems(4) by auto
  have nxt: "rd32 bs 0 = d" "\<not> fat_end_mark d" "fat_chain ctx (sect m1) (d # cs)"
    using r(2,5) Cons.prems(3) by auto
  obtain io2 m2 where "fat32_get_fat_loop B ctx d (acc @ [c]) io1 m1 = Some (0, (acc @ [c]) @ d # cs, io2, m2)"
    "io_ok ok sect n io2 m2" "io_fresh sect io2 m2" "sect m2 = sect m1" "io_same_out io1 io2"
    using Cons.IH [OF r(3,4) nxt(3), of "acc @ [c]"] Cons.prems(4) by auto
  with r nxt io_same_out_trans [OF r(6)] show ?case by (simp add: fat32_get_fat_loop.simps [of B ctx c])
qed

text \<open>A set of cells that only lead to each other: the loop never ends.\<close>

lemma fat_loop_cycle:
  assumes io: "io_ok ok sect n io m" "io_fresh sect io m" "io_addr_ok n e" and c: "c \<in> C"
    and cyc: "\<And>d. d \<in> C \<Longrightarrow> fat_in_range ctx e d \<and> \<not> fat_end_mark (fat_cell ctx (sect m) d) \<and>
      fat_cell ctx (sect m) d \<in> C"
  shows "fat32_get_fat_loop B ctx c acc io m = None"
proof (rule ccontr)
  assume "fat32_get_fat_loop B ctx c acc io m \<noteq> None"
  then obtain res where res: "fat32_get_fat_loop B ctx c acc io m = Some res" by blast
  define s where "s = sect m"
  let ?P = "\<lambda>B' ctx' c acc io m res. B' = B \<longrightarrow> ctx' = ctx \<longrightarrow> c \<in> C \<longrightarrow> io_ok ok sect n io m \<longrightarrow>
    io_fresh sect io m \<longrightarrow> sect m = s \<longrightarrow> False"
  have "?P B ctx c acc io m res"
  proof (rule fat32_get_fat_loop.raw_induct [where P = ?P, OF _ res], intro impI)
    fix f B' ctx' c acc io m res
    assume IH: "\<And>B' ctx' c acc io m res. f B' ctx' c acc io m = Some res \<Longrightarrow> ?P B' ctx' c acc io m res"
      and step: "io_read_nbytes B' io [0, 0, 0, 0] (SECTOR_SIZE_BYTES * fat_begin_sector ctx' + c * 4) m \<bind>
        (\<lambda>(r, bs, io, m). if r < 0 then Some (- 1, acc, io, m)
          else Some (rd32 bs 0) \<bind> (\<lambda>next_address. Some (acc @ [c]) \<bind> (\<lambda>n.
            if \<not> fat32_is_last_cluster next_address then f B' ctx' next_address n io m else Some (0, n, io, m)))) =
        Some res"
      and eq: "B' = B" "ctx' = ctx" and st: "c \<in> C" "io_ok ok sect n io m" "io_fresh sect io m" "sect m = s"
    have cc: "fat_in_range ctx e c" "\<not> fat_end_mark (fat_cell ctx s c)" "fat_cell ctx s c \<in> C"
      using cyc [OF st(1)] by (auto simp: s_def)
    obtain io1 m1 bs where r: "io_read_nbytes B io [0, 0, 0, 0] (SECTOR_SIZE_BYTES * fat_begin_sector ctx + c * 4) m =
        Some (0, bs, io1, m1)" "rd32 bs 0 = fat_cell ctx s c" "io_ok ok sect n io1 m1"
      "io_fresh sect io1 m1" "sect m1 = s"
      using fat_cell_read [OF st(2,3) cc(1) io(3)] st(4) by auto
    with step eq cc(2) have "f B ctx (fat_cell ctx s c) (acc @ [c]) io1 m1 = Some res" by simp
    from IH [OF this] cc(3) r(3-5) show False by blast
  qed
  with c io show False by (simp add: s_def)
qed

lemma io_pending_len: "io_ok ok sect n io m \<Longrightarrow> unat a < n \<Longrightarrow> length (io_pending io (sect m) a) = 512"
  by (simp add: io_ok_def io_pending_def)

text \<open>The two flushes in the order of \<open>fat32_write_file_nbytes\<close>: the read cache is right afterwards
  about every sector but the one that was in the write cache.\<close>

lemma flush_both:
  assumes io: "io_ok ok sect n io m"
  shows "\<exists>io1 m1 m2. io_flush_read_buffer B io m = Some (0, io1, m1) \<and> io_flush_write_buffer B io1 m1 = Some (0, io1, m2) \<and>
    io_ok ok sect n io1 m2 \<and> sect m2 = io_pending io (sect m) \<and> io_pending io1 (sect m2) = io_pending io (sect m) \<and>
    (\<forall>a. a \<noteq> ucast (output_sector_addr io) \<longrightarrow> io_fresh_at sect io1 m2 a)"
proof -
  obtain io1 m1 where f: "io_flush_read_buffer B io m = Some (0, io1, m1)" "io_ok ok sect n io1 m1"
    "io_fresh sect io1 m1" "sect m1 = sect m" "io_same_out io io1"
    using io_flush_read_ok [OF io] by blast
  obtain m2 where g: "io_flush_write_buffer B io1 m1 = Some (0, io1, m2)"
    using io_flush_write_ok [OF f(2)] by blast
  from io_flush_write_keeps [OF f(2) g] have k: "io_ok ok sect n io1 m2" "sect m2 = io_pending io1 (sect m1)" by auto
  have same: "io_pending io1 (sect m1) = io_pending io (sect m)"
    using f(4,5) by (simp add: io_pending_def io_same_out_def)
  have fresh: "io_fresh_at sect io1 m2 a" if "a \<noteq> ucast (output_sector_addr io)" for a
    using f(3,5) k(2) that by (auto simp: io_fresh_at_def io_fresh_def io_pending_def io_same_out_def)
  have "io_pending io1 (sect m2) = io_pending io1 (sect m1)"
    unfolding k(2) by (simp add: io_pending_def)
  then have "io_pending io1 (sect m2) = io_pending io (sect m)" "sect m2 = io_pending io (sect m)"
    using same k(2) by simp_all
  then show ?thesis using f(1) g k(1) fresh by blast
qed

lemma update_size_ok:
  assumes io: "io_ok ok sect n io m" and clean: "io_pending io (sect m) = sect m"
    and fresh: "io_fresh_at sect io m (drop_bit 9 (dir_slot ctx (root_dir_offset file)))"
    and e: "unat (dir_slot ctx (root_dir_offset file)) + 32 \<le> e" "io_addr_ok n e"
    and junk: "\<forall>s. 0 \<le> junk s" and e0: "length e0 = 32"
  shows "\<exists>io' m'. fat32_update_file_size B junk e0 ctx file sz io m = Some (0, io', m') \<and> io_ok ok sect n io' m' \<and>
    (let slot = dir_slot ctx (root_dir_offset file); E = entry_of (disk_bytes (sect m) slot 32)
     in io_pending io' (sect m') = disk_puts slot (entry_bytes (E\<lparr>e_file_size := e_file_size E + sz\<rparr>)) (sect m))"
proof -
  let ?slot = "dir_slot ctx (root_dir_offset file)"
  have "unat ?slot + length e0 \<le> e" "e0 \<noteq> []" using e(1) e0 by auto
  from io_read_at [OF io fresh this(1) e(2) this(2)] obtain io1 m1 where
    r: "io_read_nbytes B io e0 ?slot m = Some (0, disk_bytes (sect m) ?slot 32, io1, m1)"
    "io_ok ok sect n io1 m1" "sect m1 = sect m" "io_same_out io io1"
    using e0 by auto
  define E where "E = entry_of (disk_bytes (sect m) ?slot 32)"
  have "entry_wf (E\<lparr>e_file_size := e_file_size E + sz\<rparr>)"
    using entry_of_wf [of "disk_bytes (sect m) ?slot 32"] by (simp add: entry_wf_def E_def)
  then have len: "length (entry_bytes (E\<lparr>e_file_size := e_file_size E + sz\<rparr>)) = 32" by (rule length_entry_bytes)
  have p: "io_pending io1 (sect m1) = sect m"
    using clean r(3,4) by (simp add: io_pending_def io_same_out_def)
  from io_write_ok [OF r(2), of ?slot "entry_bytes (E\<lparr>e_file_size := e_file_size E + sz\<rparr>)" e junk] len e junk p
  obtain io2 m2 where "io_write_nbytes B junk io1 (entry_bytes (E\<lparr>e_file_size := e_file_size E + sz\<rparr>)) ?slot m1 = Some (0, io2, m2)"
    "io_ok ok sect n io2 m2"
    "io_pending io2 (sect m2) = disk_puts ?slot (entry_bytes (E\<lparr>e_file_size := e_file_size E + sz\<rparr>)) (sect m)"
    by auto
  with r(1) show ?thesis by (simp add: fat32_update_file_size_def Let_def E_def)
qed

lemma write_file_ok:
  assumes io: "io_ok ok sect n io m" and buf: "buf \<noteq> []"
    and d: "unat (current_byte_offset file) + length buf \<le> e"
    and sl: "unat (dir_slot ctx (root_dir_offset file)) + 32 \<le> e" and e: "io_addr_ok n e"
    and sep: "unat (dir_slot ctx (root_dir_offset file)) div 512 < unat (current_byte_offset file) div 512"
    and junk: "\<forall>s. 0 \<le> junk s" and e0: "length e0 = 32"
  shows "\<exists>io' m'. fat32_write_file_nbytes B junk e0 ctx file buf io m =
      Some (0, file\<lparr>current_byte_offset := current_byte_offset file + of_nat (length buf)\<rparr>, io', m') \<and>
    io_ok ok sect n io' m' \<and>
    (let slot = dir_slot ctx (root_dir_offset file);
         s = disk_puts (current_byte_offset file) buf (io_pending io (sect m));
         E = entry_of (disk_bytes s slot 32)
     in io_pending io' (sect m') = disk_puts slot (entry_bytes (E\<lparr>e_file_size := e_file_size E + of_nat (length buf)\<rparr>)) s)"
proof -
  let ?off = "current_byte_offset file" and ?slot = "dir_slot ctx (root_dir_offset file)"
  obtain io1 m1 where w: "io_write_nbytes B junk io buf ?off m = Some (0, io1, m1)" "io_ok ok sect n io1 m1"
    "io_pending io1 (sect m1) = disk_puts ?off buf (io_pending io (sect m))"
    "ucast (output_sector_addr io1) = drop_bit 9 (?off + of_nat (length buf - 1))"
    using io_write_ok [OF io d e junk] buf by blast
  obtain io2 m2 m3 where f: "io_flush_read_buffer B io1 m1 = Some (0, io2, m2)"
    "io_flush_write_buffer B io2 m2 = Some (0, io2, m3)" "io_ok ok sect n io2 m3"
    "sect m3 = io_pending io1 (sect m1)" "io_pending io2 (sect m3) = sect m3"
    "\<And>a. a \<noteq> ucast (output_sector_addr io1) \<Longrightarrow> io_fresh_at sect io2 m3 a"
    using flush_both [OF w(2)] by auto
  have "0 < length buf" using buf by simp
  then have "unat (?off + of_nat (length buf - 1)) = unat ?off + (length buf - 1)"
    using d e by (intro unat_add_of_nat) (auto simp: io_addr_ok_def)
  then have "unat ?off div 512 \<le> unat (drop_bit 9 (?off + of_nat (length buf - 1)))"
    by (simp only: unat_sector div_le_mono le_add1)
  with sep have "unat (drop_bit 9 ?slot) \<noteq> unat (drop_bit 9 (?off + of_nat (length buf - 1)))"
    by (simp only: unat_sector)
  then have ne: "drop_bit 9 ?slot \<noteq> ucast (output_sector_addr io1)" using w(4) by auto
  obtain io4 m4 where u: "fat32_update_file_size B junk e0 ctx file (of_nat (length buf)) io2 m3 = Some (0, io4, m4)"
    "io_ok ok sect n io4 m4"
    "let E = entry_of (disk_bytes (sect m3) ?slot 32)
     in io_pending io4 (sect m4) = disk_puts ?slot (entry_bytes (E\<lparr>e_file_size := e_file_size E + of_nat (length buf)\<rparr>)) (sect m3)"
    using update_size_ok [OF f(3,5) f(6) [OF ne] sl e junk e0, of "of_nat (length buf)"] by (auto simp: Let_def)
  have "fat32_write_file_nbytes B junk e0 ctx file buf io m =
      Some (0, file\<lparr>current_byte_offset := ?off + of_nat (length buf)\<rparr>, io4, m4)"
    using w(1) f(1,2) u(1) by (simp add: fat32_write_file_nbytes_def)
  with u(2,3) f(4) w(3) show ?thesis by (simp add: Let_def)
qed

end

section \<open>Files that grow\<close>

text \<open>Byte address of the first byte of a cluster, and the file record that a creation leaves.\<close>

definition cluster_byte :: "fat32_ctx \<Rightarrow> u32 \<Rightarrow> u32" where
  "cluster_byte ctx c = cluster_begin_sector ctx * ucast SECTOR_SIZE +
     (c - 2) * ucast (sectors_per_cluster ctx) * ucast SECTOR_SIZE"

definition new_file :: "fat32_ctx \<Rightarrow> fat32_file \<Rightarrow> u32 \<Rightarrow> u32 \<Rightarrow> fat32_file" where
  "new_file ctx file loc c =
    file\<lparr>root_dir_offset := loc, file_size := 0, fat_list := [], current_cluster := c,
      start_byte_offset := cluster_byte ctx c, current_byte_offset := cluster_byte ctx c\<rparr>"

lemma creat_new_result:
  assumes "fat32_file_exists ctx file = None" and "fat32_creat_file B junk ctx file io m = Some (r, f', io', m')"
  shows "\<exists>loc c. fat32_get_next_root_dir_loc ctx = Some loc \<and> fat32_get_next_cluster ctx = Some c \<and> r = 0 \<and>
    f' = new_file ctx file loc c"
  using assms by (auto simp: fat32_creat_file_def new_file_def cluster_byte_def bind_eq_Some_conv Let_def)

text \<open>What a file holds on a medium: its bytes so far, and the size its directory entry records.\<close>

definition file_slot :: "fat32_ctx \<Rightarrow> fat32_file \<Rightarrow> u32" where
  "file_slot ctx file = dir_slot ctx (root_dir_offset file)"

definition file_view :: "fat32_ctx \<Rightarrow> fat32_file \<Rightarrow> (u32 \<Rightarrow> u8 list) \<Rightarrow> u8 list \<times> u32" where
  "file_view ctx file s =
    (disk_bytes s (start_byte_offset file) (unat (current_byte_offset file) - unat (start_byte_offset file)),
     e_file_size (entry_of (disk_bytes s (file_slot ctx file) 32)))"

text \<open>The directory slot lies in a sector before the file's data, and both are inside the medium.\<close>

definition file_ready :: "fat32_ctx \<Rightarrow> fat32_file \<Rightarrow> nat \<Rightarrow> bool" where
  "file_ready ctx file e \<longleftrightarrow>
     unat (file_slot ctx file) + 32 \<le> unat (start_byte_offset file) \<and>
     unat (file_slot ctx file) div 512 < unat (start_byte_offset file) div 512 \<and>
     unat (start_byte_offset file) \<le> unat (current_byte_offset file) \<and> unat (current_byte_offset file) \<le> e"

text \<open>A log: one write after the other.\<close>

primrec fat32_log ::
  "'m block_ops \<Rightarrow> (io_ctx \<Rightarrow> int) \<Rightarrow> u8 list \<Rightarrow> fat32_ctx \<Rightarrow> fat32_file \<Rightarrow> u8 list list \<Rightarrow> io_ctx \<Rightarrow> 'm \<Rightarrow>
    (fat32_file \<times> io_ctx \<times> 'm) option" where
  "fat32_log B junk e0 ctx file [] io m = Some (file, io, m)"
| "fat32_log B junk e0 ctx file (buf # bufs) io m =
    do {
      (_, file, io, m) \<leftarrow> fat32_write_file_nbytes B junk e0 ctx file buf io m;
      fat32_log B junk e0 ctx file bufs io m
    }"

text \<open>The medium after one write, seen as a file.\<close>

lemma file_view_write:
  assumes ready: "file_ready ctx file e" and buf: "unat (current_byte_offset file) + length buf \<le> e"
    and e: "io_addr_ok n e" and len: "\<And>a. unat a < n \<Longrightarrow> length (s a) = 512"
    and s1: "s1 = disk_puts (current_byte_offset file) buf s"
    and E: "E = entry_of (disk_bytes s1 (file_slot ctx file) 32)"
    and s2: "s2 = disk_puts (file_slot ctx file) (entry_bytes (E\<lparr>e_file_size := e_file_size E + of_nat (length buf)\<rparr>)) s1"
    and f': "f' = file\<lparr>current_byte_offset := current_byte_offset file + of_nat (length buf)\<rparr>"
  shows "file_view ctx f' s2 = (fst (file_view ctx file s) @ buf, snd (file_view ctx file s) + of_nat (length buf)) \<and>
    file_ready ctx f' e"
proof -
  let ?slot = "file_slot ctx file" and ?st = "start_byte_offset file" and ?cur = "current_byte_offset file"
  let ?eb = "entry_bytes (E\<lparr>e_file_size := e_file_size E + of_nat (length buf)\<rparr>)"
  have r: "unat ?slot + 32 \<le> unat ?st" "unat ?st \<le> unat ?cur" "unat ?cur + length buf \<le> 512 * n"
    "unat ?cur + length buf \<le> 2 ^ 32" "unat ?cur + length buf < 2 ^ 32"
    using ready buf e by (auto simp: file_ready_def io_addr_ok_def)
  have u: "unat (?cur + of_nat (length buf)) = unat ?cur + length buf"
    using r(5) by (rule unat_add_of_nat)
  have slot: "file_slot ctx f' = ?slot" by (simp add: f' file_slot_def)
  have wf: "entry_wf (E\<lparr>e_file_size := e_file_size E + of_nat (length buf)\<rparr>)"
    using entry_of_wf [of "disk_bytes s1 ?slot 32"] by (simp add: E entry_wf_def)
  then have eb: "length ?eb = 32" by (rule length_entry_bytes)
  have len1: "\<And>a. unat a < n \<Longrightarrow> length (s1 a) = 512" using len by (simp add: s1)
  have slot_le: "unat ?slot + length ?eb \<le> 2 ^ 32" "unat ?slot + length ?eb \<le> 512 * n"
    using r eb by auto
  have "disk_bytes s2 ?slot 32 = ?eb"
    using disk_bytes_puts [where s = s1 and N = n, OF slot_le(1) len1 slot_le(2)] eb by (simp add: s2)
  then have size: "e_file_size (entry_of (disk_bytes s2 ?slot 32)) = e_file_size E + of_nat (length buf)"
    using entry_of_bytes [OF wf] by simp
  have "disk_bytes s1 ?slot 32 = disk_bytes s ?slot 32"
    unfolding s1 using r by (intro disk_bytes_frame [where N = n] len) auto
  then have Es: "e_file_size E = snd (file_view ctx file s)" by (simp add: E file_view_def)
  let ?a = "unat ?cur - unat ?st"
  have cur: "?st + of_nat ?a = ?cur"
    using r(2) by (simp only: word_unat_eq_iff) (subst unat_add_of_nat, auto)
  have "disk_bytes s2 ?st (?a + length buf) = disk_bytes s1 ?st (?a + length buf)"
    unfolding s2 using r eb slot_le by (intro disk_bytes_frame [where N = n] len1) auto
  also have "\<dots> = disk_bytes s1 ?st ?a @ disk_bytes s1 ?cur (length buf)"
    using cur by (simp add: disk_bytes_append)
  also have "disk_bytes s1 ?cur (length buf) = buf"
    unfolding s1 using r by (intro disk_bytes_puts [where N = n] len) auto
  also have "disk_bytes s1 ?st ?a = disk_bytes s ?st ?a"
    unfolding s1 using r by (intro disk_bytes_frame [where N = n] len) auto
  finally have "fst (file_view ctx f' s2) = fst (file_view ctx file s) @ buf"
    using u r(2) by (simp add: file_view_def f')
  moreover have "snd (file_view ctx f' s2) = snd (file_view ctx file s) + of_nat (length buf)"
    using size Es slot by (simp add: file_view_def)
  moreover have "file_ready ctx f' e"
    using ready u buf by (simp add: file_ready_def slot) (simp add: f')
  ultimately show ?thesis by (simp add: prod_eq_iff)
qed

context block_device
begin

lemma write_file_view:
  assumes io: "io_ok ok sect n io m" and buf: "buf \<noteq> []" "unat (current_byte_offset file) + length buf \<le> e"
    and ready: "file_ready ctx file e" and e: "io_addr_ok n e" and junk: "\<forall>s. 0 \<le> junk s" and e0: "length e0 = 32"
  shows "\<exists>f' io' m'. fat32_write_file_nbytes B junk e0 ctx file buf io m = Some (0, f', io', m') \<and>
    io_ok ok sect n io' m' \<and> file_ready ctx f' e \<and>
    unat (current_byte_offset f') = unat (current_byte_offset file) + length buf \<and>
    file_view ctx f' (io_pending io' (sect m')) =
      (fst (file_view ctx file (io_pending io (sect m))) @ buf,
       snd (file_view ctx file (io_pending io (sect m))) + of_nat (length buf))"
proof -
  have sep: "unat (dir_slot ctx (root_dir_offset file)) div 512 < unat (current_byte_offset file) div 512"
    using ready div_le_mono [of "unat (start_byte_offset file)" "unat (current_byte_offset file)" 512]
    by (simp add: file_ready_def file_slot_def)
  have sl: "unat (dir_slot ctx (root_dir_offset file)) + 32 \<le> e"
    using ready by (simp add: file_ready_def file_slot_def)
  let ?f' = "file\<lparr>current_byte_offset := current_byte_offset file + of_nat (length buf)\<rparr>"
  obtain io' m' where w: "fat32_write_file_nbytes B junk e0 ctx file buf io m = Some (0, ?f', io', m')"
    "io_ok ok sect n io' m'"
    "let s = disk_puts (current_byte_offset file) buf (io_pending io (sect m));
         E = entry_of (disk_bytes s (file_slot ctx file) 32)
     in io_pending io' (sect m') =
       disk_puts (file_slot ctx file) (entry_bytes (E\<lparr>e_file_size := e_file_size E + of_nat (length buf)\<rparr>)) s"
    using write_file_ok [OF io buf sl e sep junk e0] by (auto simp: Let_def file_slot_def)
  have "unat (current_byte_offset file) + length buf < 2 ^ 32" using buf(2) e by (simp add: io_addr_ok_def)
  then have "unat (current_byte_offset ?f') = unat (current_byte_offset file) + length buf"
    by (simp add: unat_add_of_nat)
  moreover from w(3) file_view_write [OF ready buf(2) e io_pending_len [OF io] refl refl refl refl]
  have "file_ready ctx ?f' e" "file_view ctx ?f' (io_pending io' (sect m')) =
      (fst (file_view ctx file (io_pending io (sect m))) @ buf,
       snd (file_view ctx file (io_pending io (sect m))) + of_nat (length buf))"
    by (simp_all add: Let_def)
  ultimately show ?thesis using w(1,2) by blast
qed

lemma log_view:
  assumes "io_ok ok sect n io m" and "[] \<notin> set bufs" and "unat (current_byte_offset f0) + length (concat bufs) \<le> e"
    and "file_ready ctx f0 e" and e: "io_addr_ok n e" and junk: "\<forall>s. 0 \<le> junk s" and e0: "length e0 = 32"
  shows "\<exists>f' io' m'. fat32_log B junk e0 ctx f0 bufs io m = Some (f', io', m') \<and>
    io_ok ok sect n io' m' \<and>
    file_view ctx f' (io_pending io' (sect m')) =
      (fst (file_view ctx f0 (io_pending io (sect m))) @ concat bufs,
       snd (file_view ctx f0 (io_pending io (sect m))) + of_nat (length (concat bufs)))"
  using assms(1-4)
proof (induction bufs arbitrary: f0 io m)
  case Nil
  then show ?case by (simp add: prod_eq_iff)
next
  case (Cons buf bufs)
  have b: "buf \<noteq> []" "unat (current_byte_offset f0) + length buf \<le> e" using Cons.prems(2,3) by auto
  obtain f1 io1 m1 where w: "fat32_write_file_nbytes B junk e0 ctx f0 buf io m = Some (0, f1, io1, m1)"
    "io_ok ok sect n io1 m1" "file_ready ctx f1 e"
    "unat (current_byte_offset f1) = unat (current_byte_offset f0) + length buf"
    "file_view ctx f1 (io_pending io1 (sect m1)) =
      (fst (file_view ctx f0 (io_pending io (sect m))) @ buf,
       snd (file_view ctx f0 (io_pending io (sect m))) + of_nat (length buf))"
    using write_file_view [OF Cons.prems(1) b Cons.prems(4) e junk e0] by blast
  from Cons.IH [OF w(2) _ _ w(3)] w(4) Cons.prems(2,3) obtain f2 io2 m2 where
    "fat32_log B junk e0 ctx f1 bufs io1 m1 = Some (f2, io2, m2)" "io_ok ok sect n io2 m2"
    "file_view ctx f2 (io_pending io2 (sect m2)) =
      (fst (file_view ctx f1 (io_pending io1 (sect m1))) @ concat bufs,
       snd (file_view ctx f1 (io_pending io1 (sect m1))) + of_nat (length (concat bufs)))"
    by auto
  with w(1,5) show ?case by (simp add: add.assoc)
qed

lemma creat_new_ok:
  assumes io: "io_ok ok sect n io m" and new: "fat32_file_exists ctx file = None"
    and loc: "fat32_get_next_root_dir_loc ctx = Some loc" and c: "fat32_get_next_cluster ctx = Some c"
    and e: "unat (dir_slot ctx loc) + 32 \<le> e" "io_addr_ok n e" and junk: "\<forall>s. 0 \<le> junk s"
  shows "\<exists>io' m'. fat32_creat_file B junk ctx file io m = Some (0, new_file ctx file loc c, io', m') \<and>
    io_ok ok sect n io' m' \<and>
    io_pending io' (sect m') = disk_puts (dir_slot ctx loc) (entry_bytes (new_entry file c)) (io_pending io (sect m))"
proof -
  have "entry_wf (new_entry file c)"
    using entry_of_wf [of "replicate 32 0"] by (simp add: new_entry_def entry_wf_def)
  then have len: "length (entry_bytes (new_entry file c)) = 32" by (rule length_entry_bytes)
  have names: "new_entry (file\<lparr>root_dir_offset := loc\<rparr>) c = new_entry file c" by (simp add: new_entry_def)
  have "unat (dir_slot ctx loc) + length (entry_bytes (new_entry file c)) \<le> e" using len e(1) by simp
  from io_write_ok [OF io this e(2) junk] obtain io1 m1 where
    w: "io_write_nbytes B junk io (entry_bytes (new_entry file c)) (dir_slot ctx loc) m = Some (0, io1, m1)"
    "io_ok ok sect n io1 m1"
    "io_pending io1 (sect m1) = disk_puts (dir_slot ctx loc) (entry_bytes (new_entry file c)) (io_pending io (sect m))"
    by blast
  have "fat32_creat_file B junk ctx file io m = Some (0, new_file ctx file loc c, io1, m1)"
    using w(1) new loc c by (simp add: fat32_creat_file_def names new_file_def cluster_byte_def)
  with w(2,3) show ?thesis by blast
qed

end

end
