(* ===== verification/Fat_Mount.thy ===== *)
theory Fat_Mount
  imports Fat_Files
begin

text \<open>
  Mounting a volume and its root directory. The specification reads the first 16 slots of the directory
  off the medium: which slots are in use, which of them are files, and the record the file system keeps
  of each. The lemmas show that \<open>fat32_cache_root_dir\<close> and \<open>initialize_fat32\<close> compute exactly
  that, over any block device.
\<close>

section \<open>The root directory on the medium\<close>

text \<open>Slot \<open>i\<close> of the directory that begins at byte \<open>base\<close>; the directory ends at the first slot
  whose name begins with 0, and a file is a slot that is neither deleted nor part of a long name.\<close>

definition dir_entry :: "(u32 \<Rightarrow> u8 list) \<Rightarrow> u32 \<Rightarrow> nat \<Rightarrow> FAT32Entry" where
  "dir_entry s base i = entry_of (disk_bytes s (base + of_nat i * 32) 32)"

definition dir_open :: "(u32 \<Rightarrow> u8 list) \<Rightarrow> u32 \<Rightarrow> nat \<Rightarrow> bool" where
  "dir_open s base i \<longleftrightarrow> disk_byte s (base + of_nat i * 32) \<noteq> 0"

definition dir_live :: "(u32 \<Rightarrow> u8 list) \<Rightarrow> u32 \<Rightarrow> nat \<Rightarrow> bool" where
  "dir_live s base i \<longleftrightarrow> disk_byte s (base + of_nat i * 32) \<notin> {0, 0xE5} \<and>
     e_file_attr (dir_entry s base i) AND 0x0F \<noteq> 0x0F"

text \<open>The files among the slots of a range, and how many of them have to be read to see that.\<close>

definition dir_used :: "(u32 \<Rightarrow> u8 list) \<Rightarrow> u32 \<Rightarrow> nat list \<Rightarrow> nat list" where
  "dir_used s base is = takeWhile (dir_open s base) is"

definition dir_files :: "(u32 \<Rightarrow> u8 list) \<Rightarrow> u32 \<Rightarrow> nat list \<Rightarrow> nat list" where
  "dir_files s base is = filter (dir_live s base) (dir_used s base is)"

definition dir_reads :: "(u32 \<Rightarrow> u8 list) \<Rightarrow> u32 \<Rightarrow> nat list \<Rightarrow> nat" where
  "dir_reads s base is = min (length is) (Suc (length (dir_used s base is)))"

text \<open>The first cluster of an entry, as two halves, and the record that the code keeps of a file, with a list of
  clusters. The code does not record the entry's first cluster but the one two behind it. Only
  \<open>first_cluster\<close> is never set: it is what was in the local variable.\<close>

definition entry_cluster :: "FAT32Entry \<Rightarrow> u32" where
  "entry_cluster e = of_nat (65536 * unat (e_first_cluster_addr_high e) + unat (e_first_cluster_addr_low e))"

definition dir_file :: "fat32_ctx \<Rightarrow> u32 \<Rightarrow> FAT32Entry \<Rightarrow> nat \<Rightarrow> u32 list \<Rightarrow> fat32_file" where
  "dir_file ctx fc e i cs =
    \<lparr>file_name = c_strncpy 8 (e_filename e), file_ext = c_strncpy 3 (e_filename_ext e), file_size = e_file_size e,
     start_byte_offset = 0, current_byte_offset = 0, root_dir_offset = of_nat i,
     current_cluster = entry_cluster e + 2, first_cluster = fc, current_sector = 0,
     f_sectors_per_cluster = ucast (sectors_per_cluster ctx), fat_list = cs\<rparr>"

text \<open>The lists of clusters that the code will record. \<open>fat32_open_file\<close> adds 2 to the first cluster of the entry
  (src/fat.c:258) although the FAT is indexed by cluster numbers, so what it follows for a file is not the
  file's chain but the one that begins two clusters later, which in general is in the middle of another file or
  free. The predicate asks that each of these shifted chains exists in the FAT, ends, and lies in the
  accessible range: on a volume where one of them runs into a cycle the walk does not return.\<close>

definition shifted_chains :: "fat32_ctx \<Rightarrow> (u32 \<Rightarrow> u8 list) \<Rightarrow> u32 \<Rightarrow> nat list \<Rightarrow> nat \<Rightarrow> (nat \<Rightarrow> u32 list) \<Rightarrow> bool" where
  "shifted_chains ctx s base is e chain \<longleftrightarrow>
    (\<forall>i \<in> set (dir_files s base is). fat_chain ctx s (chain i) \<and> hd (chain i) = entry_cluster (dir_entry s base i) + 2 \<and>
      (\<forall>d \<in> set (chain i). fat_in_range ctx e d))"

lemma calc_first_cluster: "fat32_calc_first_cluster (e_first_cluster_addr_high e) (e_first_cluster_addr_low e) = entry_cluster e"
proof -
  define h l where "h = e_first_cluster_addr_high e" and "l = e_first_cluster_addr_low e"
  have "push_bit 16 (ucast h) OR ucast l = push_bit 16 (ucast h :: u32) + ucast l"
    by (rule disjunctive_add [symmetric]) (auto simp: bit_simps dest: bit_imp_le_length)
  moreover have "push_bit 16 (ucast h :: u32) = of_nat (65536 * unat h)" "(ucast l :: u32) = of_nat (unat l)"
    by (simp_all add: push_bit_eq_mult)
  ultimately show ?thesis by (simp add: fat32_calc_first_cluster_def entry_cluster_def h_def l_def)
qed

lemma entry_first_byte: "e_filename (dir_entry s base i) ! 0 = disk_byte s (base + of_nat i * 32)"
  by (simp add: dir_entry_def entry_of_def slice_def disk_bytes_def)

lemma entry_names: "length (e_filename (dir_entry s base i)) = 8" "length (e_filename_ext (dir_entry s base i)) = 3"
  by (simp_all add: dir_entry_def entry_of_def)

lemma parse_entry_end: "fat32_parse_entry (dir_entry s base i) < 0 \<longleftrightarrow> \<not> dir_open s base i"
  by (simp add: fat32_parse_entry_def entry_first_byte dir_open_def FILENAME_NEVER_USED_def Let_def)

lemma entry_skipped: "dir_entry_skipped (dir_entry s base i) \<longleftrightarrow> \<not> dir_live s base i"
  by (auto simp: dir_entry_skipped_def entry_first_byte dir_live_def FILENAME_NEVER_USED_def FILENAME_FILE_DELETED_def)

lemma fat_chain_entries [simp]: "fat_chain (ctx\<lparr>root_dir_entries := fs\<rparr>) s cs = fat_chain ctx s cs"
  by (induction cs rule: induct_list012) (simp_all add: fat_cell_def fat_cell_addr_def)

lemma fat_in_range_entries [simp]: "fat_in_range (ctx\<lparr>root_dir_entries := fs\<rparr>) e c = fat_in_range ctx e c"
  by (simp add: fat_in_range_def fat_cell_addr_def)

lemma shifted_chains_entries [simp]: "shifted_chains (ctx\<lparr>root_dir_entries := fs\<rparr>) s base is e = shifted_chains ctx s base is e"
  by (rule ext) (simp add: shifted_chains_def)

lemma dir_file_entries [simp]: "dir_file (ctx\<lparr>root_dir_entries := fs\<rparr>) = dir_file ctx"
  by (intro ext) (simp add: dir_file_def)

lemma dir_Cons_end: "\<not> dir_open s base i \<Longrightarrow> dir_files s base (i # is) = [] \<and> dir_reads s base (i # is) = 1"
  by (simp add: dir_files_def dir_used_def dir_reads_def)

lemma dir_Cons_open: "dir_open s base i \<Longrightarrow>
    dir_files s base (i # is) = (if dir_live s base i then i # dir_files s base is else dir_files s base is) \<and>
    dir_reads s base (i # is) = Suc (dir_reads s base is)"
  by (simp add: dir_files_def dir_used_def dir_reads_def)

lemma io_same_out_refl [simp]: "io_same_out io io"
  by (simp add: io_same_out_def)

context block_device
begin

text \<open>Opening the file of a slot.\<close>

lemma open_file_ok:
  assumes io: "io_ok ok sect n io m" "io_fresh sect io m" "io_addr_ok n e"
    and ch: "fat_chain ctx (sect m) cs" "hd cs = entry_cluster en + 2" "\<forall>d \<in> set cs. fat_in_range ctx e d"
  shows "\<exists>io' m'. fat32_open_file B ctx en io g m =
      Some (0, (dir_file ctx (first_cluster g) en 0 cs)\<lparr>root_dir_offset := root_dir_offset g\<rparr>, io', m') \<and>
    io_ok ok sect n io' m' \<and> io_fresh sect io' m' \<and> sect m' = sect m \<and> io_same_out io io'"
proof -
  obtain c ds where cs: "cs = c # ds" using ch(1) by (cases cs) auto
  with ch(2) have c: "c = entry_cluster en + 2" by simp
  from fat_loop_chain [OF io, of ctx c ds "[]"] ch(1,3) cs obtain io' m' where
    "fat32_get_fat_loop B ctx c [] io m = Some (0, cs, io', m')"
    "io_ok ok sect n io' m'" "io_fresh sect io' m'" "sect m' = sect m" "io_same_out io io'" by auto
  then show ?thesis
    by (cases g) (simp add: fat32_open_file_def fat32_get_fat_def calc_first_cluster c dir_file_def)
qed

lemma cache_loop_ok:
  assumes e: "io_addr_ok n e" and base: "base = root_dir_sector ctx * ucast (sd_sector_size sd)"
  shows "\<lbrakk>io_ok ok sect n io m; io_fresh sect io m; sect m = s; fc = first_cluster g;
      unat base + 32 * (j + dir_reads s base [j..<j + left]) \<le> e; shifted_chains ctx s base [j..<j + left] e chain\<rbrakk> \<Longrightarrow>
    \<exists>io' m'. fat32_cache_loop B sd left (of_nat j) (ctx\<lparr>root_dir_entries := fs\<rparr>) g io m =
        Some (ctx\<lparr>root_dir_entries := fs @
          map (\<lambda>i. dir_file ctx fc (dir_entry s base i) i (chain i)) (dir_files s base [j..<j + left])\<rparr>, io', m') \<and>
      io_ok ok sect n io' m' \<and> io_fresh sect io' m' \<and> sect m' = s \<and> io_same_out io io'"
proof (induction left arbitrary: j fs g io m)
  case 0
  then show ?case by (simp add: dir_files_def dir_used_def)
next
  case (Suc left)
  let ?is = "[Suc j..<Suc j + left]" and ?addr = "base + of_nat j * 32" and ?en = "dir_entry s base j"
  have rng: "[j..<j + Suc left] = j # ?is" by (simp add: upt_conv_Cons)
  have nxt: "of_nat j + 1 = (of_nat (Suc j) :: u32)" by simp
  obtain k where "dir_reads s base (j # ?is) = Suc k" by (simp add: dir_reads_def)
  then have b: "unat base + 32 * j + 32 \<le> e" using Suc.prems(5) unfolding rng by simp
  have "unat base + 32 * j < 2 ^ 32" using b e by (simp add: io_addr_ok_def)
  then have "unat ?addr = unat base + 32 * j" using unat_add_of_nat [of base "32 * j"] by (simp add: mult.commute)
  then have "unat ?addr + length (replicate 32 (0 :: u8)) \<le> e" using b by simp
  from io_read_ok [OF Suc.prems(1,2) this e] Suc.prems(3) obtain io1 m1 where
    r: "io_read_nbytes B io (replicate 32 0) ?addr m = Some (0, disk_bytes s ?addr 32, io1, m1)"
    "io_ok ok sect n io1 m1" "io_fresh sect io1 m1" "sect m1 = s" "io_same_out io io1" by auto
  have en: "entry_of (disk_bytes s ?addr 32) = ?en" by (simp add: dir_entry_def)
  note step = r(1) [unfolded base] en [unfolded base] parse_entry_end entry_skipped
  show ?case
  proof (cases "dir_open s base j")
    case False
    with dir_Cons_end [OF False] r step show ?thesis unfolding rng by (simp add: base)
  next
    case op: True
    note cons = dir_Cons_open [OF op, of ?is]
    have reads: "unat base + 32 * (Suc j + dir_reads s base ?is) \<le> e"
      using Suc.prems(5) conjunct2 [OF cons] unfolding rng by simp
    have chains: "shifted_chains ctx s base ?is e chain"
      using Suc.prems(6) cons unfolding rng shifted_chains_def by (auto split: if_splits)
    show ?thesis
    proof (cases "dir_live s base j")
      case False
      from Suc.IH [OF r(2-4) Suc.prems(4) reads chains, of fs] obtain io2 m2 where
        "fat32_cache_loop B sd left (of_nat (Suc j)) (ctx\<lparr>root_dir_entries := fs\<rparr>) g io1 m1 =
          Some (ctx\<lparr>root_dir_entries := fs @
            map (\<lambda>i. dir_file ctx fc (dir_entry s base i) i (chain i)) (dir_files s base ?is)\<rparr>, io2, m2)"
        "io_ok ok sect n io2 m2" "io_fresh sect io2 m2" "sect m2 = s" "io_same_out io1 io2" by blast
      with op False step cons io_same_out_trans [OF r(5)] show ?thesis unfolding rng
        by (simp add: base nxt del: of_nat_Suc)
    next
      case live: True
      then have ch: "fat_chain ctx (sect m1) (chain j)" "hd (chain j) = entry_cluster ?en + 2"
        "\<forall>d \<in> set (chain j). fat_in_range ctx e d"
        using Suc.prems(6) cons r(4) unfolding rng shifted_chains_def by auto
      let ?ctx = "ctx\<lparr>root_dir_entries := fs\<rparr>" and ?f = "dir_file ctx fc ?en j (chain j)"
      obtain io2 m2 where o: "fat32_open_file B ?ctx ?en io1 g m1 =
          Some (0, (dir_file ctx fc ?en 0 (chain j))\<lparr>root_dir_offset := root_dir_offset g\<rparr>, io2, m2)"
        "io_ok ok sect n io2 m2" "io_fresh sect io2 m2" "sect m2 = s" "io_same_out io1 io2"
        using open_file_ok [OF r(2,3) e, of ?ctx "chain j" ?en g] ch r(4) Suc.prems(4) by auto
      have f: "((dir_file ctx fc ?en 0 (chain j))\<lparr>root_dir_offset := root_dir_offset g\<rparr>)\<lparr>root_dir_offset := of_nat j\<rparr> = ?f"
        "fc = first_cluster ?f"
        by (simp_all add: dir_file_def)
      from Suc.IH [OF o(2-4) f(2) reads chains, of "fs @ [?f]"] obtain io3 m3 where
        "fat32_cache_loop B sd left (of_nat (Suc j)) (ctx\<lparr>root_dir_entries := fs @ [?f]\<rparr>) ?f io2 m2 =
          Some (ctx\<lparr>root_dir_entries := (fs @ [?f]) @
            map (\<lambda>i. dir_file ctx fc (dir_entry s base i) i (chain i)) (dir_files s base ?is)\<rparr>, io3, m3)"
        "io_ok ok sect n io3 m3" "io_fresh sect io3 m3" "sect m3 = s" "io_same_out io2 io3" by blast
      with op live step cons o(1) f(1) io_same_out_trans [OF r(5)] io_same_out_trans [OF o(5)] show ?thesis unfolding rng
        by (simp add: base nxt del: of_nat_Suc)
    qed
  qed
qed

end

text \<open>What a mounted volume looks like: the geometry of its boot sector, and the files of the first 16
  slots of the root directory.\<close>

definition fat_partition :: "(u32 \<Rightarrow> u8 list) \<Rightarrow> PartitionTable" where
  "fat_partition s = partition_of (disk_bytes s 0x1BE 16)"

definition fat_type_ok :: "PartitionTable \<Rightarrow> bool" where
  "fat_type_ok pt \<longleftrightarrow> pt_partition_type pt \<in> {PARTITION_TYPE_FAT32_LT2G, PARTITION_TYPE_FAT32_LBA}"

definition fat_boot :: "(u32 \<Rightarrow> u8 list) \<Rightarrow> FAT32BootSector" where
  "fat_boot s = boot_sector_of (disk_bytes s (512 * pt_start_sector (fat_partition s)) 512)"

definition fat_geometry :: "fat32_ctx \<Rightarrow> (u32 \<Rightarrow> u8 list) \<Rightarrow> fat32_ctx" where
  "fat_geometry fat s = fat32_set_context (fat32_set_partition fat [fat_partition s]) (fat_boot s)"

definition root_listing :: "fat32_ctx \<Rightarrow> u32 \<Rightarrow> (u32 \<Rightarrow> u8 list) \<Rightarrow> u32 \<Rightarrow> (nat \<Rightarrow> u32 list) \<Rightarrow> fat32_file list" where
  "root_listing ctx fc s base chain =
    map (\<lambda>i. dir_file ctx fc (dir_entry s base i) i (chain i)) (dir_files s base [0..<16])"

text \<open>The boot sector and the slots that are read lie inside the first \<open>e\<close> bytes, and the shifted chains
  exist and end. This is what the code needs of a volume; that the files' own chains exist is not.\<close>

definition volume_ok :: "fat32_ctx \<Rightarrow> (u32 \<Rightarrow> u8 list) \<Rightarrow> u32 \<Rightarrow> nat \<Rightarrow> (nat \<Rightarrow> u32 list) \<Rightarrow> bool" where
  "volume_ok ctx s base e chain \<longleftrightarrow> 512 \<le> e \<and> fat_type_ok (fat_partition s) \<and>
    unat (512 * pt_start_sector (fat_partition s)) + 512 \<le> e \<and>
    unat base + 32 * dir_reads s base [0..<16] \<le> e \<and> shifted_chains ctx s base [0..<16] e chain"

lemma fat_geometry_fields:
  "root_dir_entries (fat_geometry fat s) = []"
  "start_sector (fat_geometry fat s) = pt_start_sector (fat_partition s)"
  "fat_begin_sector (fat_geometry fat s) = pt_start_sector (fat_partition s) + ucast (bs_reserved_sectors (fat_boot s))"
  "cluster_begin_sector (fat_geometry fat s) = pt_start_sector (fat_partition s) + ucast (bs_reserved_sectors (fat_boot s)) +
     ucast (bs_number_of_fats (fat_boot s)) * bs_sectors_per_fat_32 (fat_boot s)"
  "root_dir_sector (fat_geometry fat s) = fat32_calc_lba_from_cluster (cluster_begin_sector (fat_geometry fat s))
     (ucast (bs_sectors_per_cluster (fat_boot s))) (bs_cluster_number_root_dir (fat_boot s))"
  by (simp_all add: fat_geometry_def fat32_set_context_def fat32_set_partition_def fat32_calc_lba_from_cluster_def Let_def)

lemma slice_disk_bytes: "a + k \<le> b \<Longrightarrow> slice a k (disk_bytes s x b) = disk_bytes s (x + of_nat a) k"
proof -
  assume "a + k \<le> b"
  then obtain d where b: "b = a + (k + d)" by (metis add.assoc le_add_diff_inverse)
  show ?thesis by (simp add: b slice_def disk_bytes_append)
qed

lemma fat_set_partition_table:
  "fat32_set_partition fat (map (\<lambda>i. partition_of (slice (16 * i) 16 (disk_bytes s 0x1BE 64))) [0..<PARTITION_TABLE_ENTRIES]) =
    fat32_set_partition fat [fat_partition s]"
  "map (\<lambda>i. partition_of (slice (16 * i) 16 (disk_bytes s 0x1BE 64))) [0..<PARTITION_TABLE_ENTRIES] ! 0 = fat_partition s"
  by (simp_all add: fat32_set_partition_def PARTITION_TABLE_ENTRIES_def slice_disk_bytes fat_partition_def)

context block_device
begin

lemma mount_table:
  assumes "io_ok ok sect n io m" and "io_fresh sect io m" and "io_addr_ok n e" and "512 \<le> e"
  shows "\<exists>io' m'. io_read_nbytes B io (replicate (16 * PARTITION_TABLE_ENTRIES) 0) PARTITION_TABLE_OFFSET m =
      Some (0, disk_bytes (sect m) 0x1BE 64, io', m') \<and>
    io_ok ok sect n io' m' \<and> io_fresh sect io' m' \<and> sect m' = sect m \<and> io_same_out io io'"
proof -
  have "unat (0x1BE :: u32) + length (replicate (16 * PARTITION_TABLE_ENTRIES) (0 :: u8)) \<le> e"
    using assms(4) by (simp add: PARTITION_TABLE_ENTRIES_def)
  from io_read_ok [OF assms(1,2) this assms(3)] show ?thesis
    by (auto simp: PARTITION_TABLE_ENTRIES_def PARTITION_TABLE_OFFSET_def)
qed

lemma mount_refused:
  assumes "io_ok ok sect n io m" and "io_fresh sect io m" and "io_addr_ok n e" and "512 \<le> e"
    and "sd_status sd \<noteq> SD_DISABLED" and "\<not> fat_type_ok (fat_partition (sect m))"
  shows "\<exists>io' m'. initialize_fat32 B jf fat io sd m = Some (- 1, fat32_set_partition fat [fat_partition (sect m)], io', m')"
proof -
  obtain io1 m1 where r: "io_read_nbytes B io (replicate (16 * PARTITION_TABLE_ENTRIES) 0) PARTITION_TABLE_OFFSET m =
      Some (0, disk_bytes (sect m) 0x1BE 64, io1, m1)"
    using mount_table [OF assms(1-4)] by blast
  have "partition_type (fat32_set_partition fat [fat_partition (sect m)]) = pt_partition_type (fat_partition (sect m))"
    by (simp add: fat32_set_partition_def)
  with r assms(5,6) show ?thesis
    by (simp add: initialize_fat32_def Let_def fat_set_partition_table fat_type_ok_def)
qed

lemma mount_ok:
  assumes io: "io_ok ok sect n io m" "io_fresh sect io m" "io_addr_ok n e" and sd: "sd_status sd \<noteq> SD_DISABLED"
    and ctx: "ctx = fat_geometry fat (sect m)" and base: "base = root_dir_sector ctx * ucast (sd_sector_size sd)"
    and vol: "volume_ok ctx (sect m) base e chain"
  shows "\<exists>io' m'. initialize_fat32 B jf fat io sd m =
      Some (0, ctx\<lparr>root_dir_entries := root_listing ctx (first_cluster jf) (sect m) base chain\<rparr>, io', m') \<and>
    io_ok ok sect n io' m' \<and> io_fresh sect io' m' \<and> sect m' = sect m \<and> io_same_out io io'"
proof -
  let ?s = "sect m" and ?pt = "fat_partition (sect m)"
  have e: "512 \<le> e" and ty: "fat_type_ok ?pt" and bt: "unat (512 * pt_start_sector ?pt) + length (replicate 512 (0 :: u8)) \<le> e"
    and rd: "unat base + 32 * (0 + dir_reads ?s base [0..<0 + 16]) \<le> e" and chn: "shifted_chains ctx ?s base [0..<0 + 16] e chain"
    using vol by (simp_all add: volume_ok_def)
  obtain io1 m1 where r1: "io_read_nbytes B io (replicate (16 * PARTITION_TABLE_ENTRIES) 0) PARTITION_TABLE_OFFSET m =
      Some (0, disk_bytes ?s 0x1BE 64, io1, m1)"
    "io_ok ok sect n io1 m1" "io_fresh sect io1 m1" "sect m1 = ?s" "io_same_out io io1"
    using mount_table [OF io e] by blast
  from io_read_ok [OF r1(2,3) bt io(3)] r1(4) obtain io2 m2 where
    r2: "io_read_nbytes B io1 (replicate 512 0) (512 * pt_start_sector ?pt) m1 =
      Some (0, disk_bytes ?s (512 * pt_start_sector ?pt) 512, io2, m2)"
    "io_ok ok sect n io2 m2" "io_fresh sect io2 m2" "sect m2 = ?s" "io_same_out io1 io2" by auto
  have c: "ctx\<lparr>root_dir_entries := []\<rparr> = ctx" using fat_geometry_fields(1) [of fat ?s] by (simp add: ctx [symmetric])
  from cache_loop_ok [OF io(3) base r2(2-4) refl rd chn, of "[]" jf] c obtain io3 m3 where
    r3: "fat32_cache_loop B sd 16 0 ctx jf io2 m2 =
      Some (ctx\<lparr>root_dir_entries := root_listing ctx (first_cluster jf) ?s base chain\<rparr>, io3, m3)"
    "io_ok ok sect n io3 m3" "io_fresh sect io3 m3" "sect m3 = ?s" "io_same_out io2 io3"
    by (auto simp: root_listing_def)
  have "partition_type (fat32_set_partition fat [?pt]) = pt_partition_type ?pt" by (simp add: fat32_set_partition_def)
  then have "initialize_fat32 B jf fat io sd m =
      Some (0, ctx\<lparr>root_dir_entries := root_listing ctx (first_cluster jf) ?s base chain\<rparr>, io3, m3)"
    using sd r1(1) r2(1) r3(1) ty
    by (simp add: initialize_fat32_def Let_def fat_set_partition_table fat_type_ok_def fat32_cache_root_dir_def
        ctx fat_geometry_def fat_boot_def SECTOR_SIZE_BYTES_def)
  with r3(2-4) io_same_out_trans [OF r1(5) io_same_out_trans [OF r2(5) r3(5)]] show ?thesis by blast
qed

end

section \<open>Files of a mounted volume\<close>

text \<open>The slot of the file of a name, with the comparison of the code.\<close>

definition dir_lookup :: "(u32 \<Rightarrow> u8 list) \<Rightarrow> u32 \<Rightarrow> fat32_file \<Rightarrow> nat option" where
  "dir_lookup s base f = find (\<lambda>i. c_strncmp_eq 8 (e_filename (dir_entry s base i)) (file_name f) \<and>
     c_strncmp_eq 3 (e_filename_ext (dir_entry s base i)) (file_ext f)) (dir_files s base [0..<16])"

text \<open>The file record of an existing file: where its data begins, and what the directory says of it.\<close>

definition reopened :: "fat32_ctx \<Rightarrow> fat32_file \<Rightarrow> FAT32Entry \<Rightarrow> nat \<Rightarrow> u32 list \<Rightarrow> fat32_file" where
  "reopened ctx f en i cs = f\<lparr>root_dir_offset := of_nat i, file_size := e_file_size en, fat_list := cs,
     current_cluster := entry_cluster en + 2, start_byte_offset := cluster_byte ctx (entry_cluster en + 2),
     current_byte_offset := cluster_byte ctx (entry_cluster en + 2)\<rparr>"

lemma find_map: "find P (map f xs) = map_option f (find (P \<circ> f) xs)"
  by (induction xs) simp_all

lemma c_strncmp_eq_copy [simp]: "c_strncmp_eq n (c_strncpy n a) b = c_strncmp_eq n a b"
  using c_strncmp_copy [of n a] by (simp add: c_strncmp_eq_def)

lemma mounted_exists:
  "fat32_file_exists (ctx\<lparr>root_dir_entries := root_listing ctx fc s base chain\<rparr>) f =
    map_option (\<lambda>i. dir_file ctx fc (dir_entry s base i) i (chain i)) (dir_lookup s base f)"
  by (simp add: fat32_file_exists_def root_listing_def find_map dir_lookup_def comp_def dir_file_def)

lemma creat_existing:
  assumes "dir_lookup s base f = Some i"
  shows "fat32_creat_file B junk (ctx\<lparr>root_dir_entries := root_listing ctx fc s base chain\<rparr>) f io m =
    Some (0, reopened ctx f (dir_entry s base i) i (chain i), io, m)"
  using assms by (simp add: fat32_creat_file_def mounted_exists reopened_def dir_file_def cluster_byte_def)

lemma address_in_dir_set: "{c. fat32_address_in_dir ctx c} = set (concat (map fat_list (root_dir_entries ctx)))"
  by (auto simp: fat32_address_in_dir_def list_ex_iff)

lemma root_entry_set: "{c. fat32_root_entry_found ctx c} = set (map root_dir_offset (root_dir_entries ctx))"
  by (auto simp: fat32_root_entry_found_def list_ex_iff)

lemma card_set_less: "length xs < K \<Longrightarrow> card (set xs) < K"
  using card_length [of xs] by simp

lemma alloc_least:
  assumes "length (concat (map fat_list (root_dir_entries ctx))) < 2 ^ 32 - 2"
    and "length (root_dir_entries ctx) < 2 ^ 32"
  shows "\<exists>c. fat32_get_next_cluster ctx = Some c \<and> \<not> fat32_address_in_dir ctx c \<and> 2 \<le> c \<and>
      (\<forall>d. 2 \<le> d \<and> d < c \<longrightarrow> fat32_address_in_dir ctx d)"
    and "\<exists>l. fat32_get_next_root_dir_loc ctx = Some l \<and> \<not> fat32_root_entry_found ctx l \<and>
      (\<forall>d. d < l \<longrightarrow> fat32_root_entry_found ctx d)"
proof -
  have "finite {c. fat32_address_in_dir ctx c}" "card {c. fat32_address_in_dir ctx c} < 2 ^ 32 - 2"
    using card_set_less [OF assms(1)] by (simp_all only: address_in_dir_set finite_set)
  from first_not_least [OF this, of 2] show "\<exists>c. fat32_get_next_cluster ctx = Some c \<and> \<not> fat32_address_in_dir ctx c \<and>
      2 \<le> c \<and> (\<forall>d. 2 \<le> d \<and> d < c \<longrightarrow> fat32_address_in_dir ctx d)"
    unfolding fat32_get_next_cluster_def by simp
  have "finite {c. fat32_root_entry_found ctx c}" "card {c. fat32_root_entry_found ctx c} < 2 ^ 32"
    using card_set_less [of "map root_dir_offset (root_dir_entries ctx)"] assms(2)
    by (simp_all only: root_entry_set finite_set length_map)
  from first_not_least [OF this, of 0] show "\<exists>l. fat32_get_next_root_dir_loc ctx = Some l \<and>
      \<not> fat32_root_entry_found ctx l \<and> (\<forall>d. d < l \<longrightarrow> fat32_root_entry_found ctx d)"
    unfolding fat32_get_next_root_dir_loc_def by simp
qed

lemma dir_files_set: "set (dir_files s base is) \<subseteq> set is"
  by (auto simp: dir_files_def dir_used_def dest: set_takeWhileD)

lemma length_dir_files: "length (dir_files s base is) \<le> length is"
  unfolding dir_files_def dir_used_def by (rule order_trans [OF length_filter_le length_takeWhile_le])

text \<open>The slot and the cluster of a new file on a mounted volume: the least slot without a file, one of the first
  17, and the least cluster, from 2, in none of the recorded lists.\<close>

lemma mounted_alloc:
  fixes s base chain fc ctx
  defines "fs \<equiv> dir_files s base [0..<16]"
  defines "C \<equiv> ctx\<lparr>root_dir_entries := root_listing ctx fc s base chain\<rparr>"
  assumes "length (concat (map chain fs)) < 2 ^ 32 - 2"
  shows "\<exists>c. fat32_get_next_cluster C = Some c \<and> c \<notin> set (concat (map chain fs)) \<and> 2 \<le> c \<and>
      (\<forall>d. 2 \<le> d \<and> d < c \<longrightarrow> d \<in> set (concat (map chain fs)))"
    and "\<exists>l \<le> 16. fat32_get_next_root_dir_loc C = Some (of_nat l) \<and> l \<notin> set fs \<and> (\<forall>i < l. i \<in> set fs)"
proof -
  have lists: "map fat_list (root_dir_entries C) = map chain fs" "map root_dir_offset (root_dir_entries C) = map of_nat fs"
    "length (root_dir_entries C) = length fs"
    by (simp_all add: C_def fs_def root_listing_def dir_file_def)
  have l16: "length fs \<le> 16" using length_dir_files [of s base "[0..<16]"] by (simp add: fs_def)
  note least = alloc_least [of C, unfolded lists, OF assms(3)]
  have ad: "fat32_address_in_dir C d \<longleftrightarrow> d \<in> set (concat (map chain fs))" for d
    using address_in_dir_set [of C, unfolded lists(1)] by auto
  have "length fs < 2 ^ 32" using l16 by simp
  from least(1) [OF this, unfolded ad]
  show "\<exists>c. fat32_get_next_cluster C = Some c \<and> c \<notin> set (concat (map chain fs)) \<and> 2 \<le> c \<and>
      (\<forall>d. 2 \<le> d \<and> d < c \<longrightarrow> d \<in> set (concat (map chain fs)))" .
  obtain l where l: "fat32_get_next_root_dir_loc C = Some l" "\<not> fat32_root_entry_found C l"
    "\<forall>d. d < l \<longrightarrow> fat32_root_entry_found C d"
    using least(2) l16 by auto
  have found: "fat32_root_entry_found C d \<longleftrightarrow> d \<in> of_nat ` set fs" for d
    using root_entry_set [of C, unfolded lists(2)] by auto
  have "unat l \<le> 16"
  proof (rule ccontr)
    assume "\<not> unat l \<le> 16"
    then have "(16 :: u32) < l" by (simp add: word_less_nat_alt)
    with l(3) found obtain i where i: "(16 :: u32) = of_nat i" "i \<in> set fs" by blast
    have "i < 16" using i(2) dir_files_set [of s base "[0..<16]"] by (auto simp: fs_def)
    then have "unat (16 :: u32) = i" using i(1) unat_of_nat_u32 [of i] by simp
    with \<open>i < 16\<close> show False by simp
  qed
  moreover have "unat l \<notin> set fs"
    using l(2) found [of l] by force
  moreover have "i \<in> set fs" if "i < unat l" for i
  proof -
    have i: "i < 16" using that \<open>unat l \<le> 16\<close> by simp
    then have u: "unat (of_nat i :: u32) = i" using unat_of_nat_u32 [of i] by simp
    with that have "(of_nat i :: u32) < l" by (simp add: word_less_nat_alt)
    with l(3) found obtain j where j: "(of_nat i :: u32) = of_nat j" "j \<in> set fs" by blast
    have "j < 16" using j(2) dir_files_set [of s base "[0..<16]"] by (auto simp: fs_def)
    then have uj: "unat (of_nat j :: u32) = j" using unat_of_nat_u32 [of j] by simp
    have "i = j" by (subst u [symmetric], subst uj [symmetric], subst j(1)) (rule refl)
    with j(2) show ?thesis by simp
  qed
  ultimately show "\<exists>l \<le> 16. fat32_get_next_root_dir_loc C = Some (of_nat l) \<and> l \<notin> set fs \<and> (\<forall>i < l. i \<in> set fs)"
    using l(1) by (intro exI [of _ "unat l"]) simp
qed

text \<open>Only 16 slots are looked at: with a file in each of them a new file gets slot 16, whatever is there.\<close>

lemma full_directory_takes_slot_16:
  assumes "dir_files s base [0..<16] = [0..<16]" and "length (concat (map chain [0..<16])) < 2 ^ 32 - 2"
  shows "fat32_get_next_root_dir_loc (ctx\<lparr>root_dir_entries := root_listing ctx fc s base chain\<rparr>) = Some 16"
proof -
  from mounted_alloc(2) [of chain s base ctx fc, unfolded assms(1), OF assms(2)] obtain l where
    l: "l \<le> 16" "fat32_get_next_root_dir_loc (ctx\<lparr>root_dir_entries := root_listing ctx fc s base chain\<rparr>) = Some (of_nat l)"
      "l \<notin> set [0..<16]" by (elim exE conjE) (rule that)
  have "l \<notin> {0..<16}" using l(3) by (simp only: set_upt) simp
  with l(1) have "l = 16" by simp
  with l(2) show ?thesis by simp
qed

end
