(* ===== verification/Fat_Props.thy ===== *)
theory Fat_Props
  imports Fat_Mount
begin

text \<open>
  The properties of the file system on the SD card: they rest on the lemmas of \<open>Fat_Files\<close> through
  the interpretation \<open>sd_blk\<close>. The examples run on the simulated card.
\<close>

lemmas sd_fat = sd_blk.fat_loop_chain sd_blk.fat_loop_cycle sd_blk.creat_new_ok sd_blk.log_view

section \<open>Example media\<close>

definition sim_disk :: "(u32 \<Rightarrow> u8 list) \<Rightarrow> sim mcu" where
  "sim_disk mem = sim_mcu\<lparr>m_dev := (m_dev sim_mcu)\<lparr>sim_mem := mem\<rparr>\<rparr>"

definition io_disk :: "(u32 \<Rightarrow> u8 list) \<Rightarrow> io_ctx" where
  "io_disk mem = io_zero\<lparr>input_sector_buf := mem 0, output_sector_buf := mem 0\<rparr>"

lemma sim_disk_sectors: "(\<And>a. length (mem a) = 512) \<Longrightarrow> sd_sectors sim_view (sim_disk mem) = mem"
  by (rule ext) (simp add: sd_sectors_def sim_view_def sim_sect_def sim_disk_def)

lemma sim_disk_ok: "0 < n \<Longrightarrow> (\<And>a. length (mem a) = 512) \<Longrightarrow> io_sd_ok sim_view n sim_bus (io_disk mem) (sim_disk mem)"
  by (simp add: io_sd_ok_def io_ok_def sim_disk_sectors io_disk_def io_zero_def)
    (simp add: sd_ok_def sim_conforms sim_disk_def sim_mcu_def sim_view_def spi_on_def SPE_def MSTR_def)

lemma sim_disk_fresh: "(\<And>a. length (mem a) = 512) \<Longrightarrow> io_fresh (sd_sectors sim_view) (io_disk mem) (sim_disk mem)"
  by (simp add: io_fresh_def io_disk_def io_zero_def sim_disk_sectors)

lemma sim_disk_pending:
  "(\<And>a. length (mem a) = 512) \<Longrightarrow> io_pending (io_disk mem) (sd_sectors sim_view (sim_disk mem)) = mem"
  by (simp add: io_pending_def io_disk_def io_zero_def sim_disk_sectors)

definition demo_ctx :: fat32_ctx where
  "demo_ctx = \<lparr>partition_type = 12, start_sector = 0, length_sectors = 100, reserved_sectors = 0,
     number_of_fats = 1, sectors_per_fat_32 = 5, sectors_per_cluster = 1, cluster_number_root_dir = 2,
     cluster_begin_sector = 5, root_dir_sector = 5, fat_begin_sector = 0, root_dir_entries = []\<rparr>"

definition demo_file :: "u8 list \<Rightarrow> u8 list \<Rightarrow> u32 list \<Rightarrow> fat32_file" where
  "demo_file name ext l = \<lparr>file_name = name, file_ext = ext, file_size = 0, start_byte_offset = 0,
     current_byte_offset = 0, root_dir_offset = 0, current_cluster = 0, first_cluster = 0, current_sector = 0,
     f_sectors_per_cluster = 1, fat_list = l\<rparr>"

definition demo_mem :: "u32 \<Rightarrow> u8 list" where
  "demo_mem a = (if a = 0 then [1, 0, 0, 0] @ replicate 508 0xFF else replicate 512 0)"

lemma length_demo_mem [simp]: "length (demo_mem a) = 512"
  by (simp add: demo_mem_def)

lemma demo_cell: "fat_cell demo_ctx demo_mem 0 = 1 \<and> fat_cell demo_ctx demo_mem 1 = 0xFFFFFFFF"
proof -
  have b: "disk_bytes demo_mem (fat_cell_addr demo_ctx 0) 4 = [1, 0, 0, 0]"
    "disk_bytes demo_mem (fat_cell_addr demo_ctx 1) 4 = [0xFF, 0xFF, 0xFF, 0xFF]"
    by (simp_all add: disk_bytes_def disk_byte_def fat_cell_addr_def demo_ctx_def demo_mem_def upt_rec nth_append)
  show ?thesis by (simp add: fat_cell_def b rd32_def le32_def)
qed

section \<open>Chains\<close>

text \<open>C12. \<open>fat32_get_fat\<close> reads a chain: if the cells of the FAT on the card link the clusters
  \<open>c # cs\<close> and the last one holds an end mark, the function terminates with 0 and exactly that
  list, and neither the card nor the write cache has changed. The nodes of the list are taken as given: the
  model appends to a HOL list, so this holds as long as the code's unchecked \<open>malloc\<close> succeeds.\<close>

theorem fat32_get_fat_chain:
  assumes "io_sd_ok V n bus io m" and "io_fresh (sd_sectors V) io m" and "io_addr_ok n e"
    and "fat_chain ctx (sd_sectors V m) (c # cs)" and "\<forall>d \<in> set (c # cs). fat_in_range ctx e d"
  shows "\<exists>io' m'. fat32_get_fat (sd_ops bus) ctx c ptr io m = Some (0, c # cs, io', m') \<and>
    io_sd_ok V n bus io' m' \<and> io_fresh (sd_sectors V) io' m' \<and> sd_sectors V m' = sd_sectors V m \<and> io_same_out io io'"
proof -
  have "io_ok (sd_ok V n bus) (sd_sectors V) n io m" using assms(1) by (simp only: io_sd_ok_def)
  from sd_blk.fat_loop_chain [OF this assms(2-5), of "[]"] show ?thesis
    by (auto simp: fat32_get_fat_def io_sd_ok_def)
qed

theorem fat32_get_fat_chain_witness:
  "\<exists>io' m'. fat32_get_fat (sd_ops sim_bus) demo_ctx 0 [] (io_disk demo_mem) (sim_disk demo_mem) = Some (0, [0, 1], io', m')"
proof -
  have io: "io_sd_ok sim_view 100 sim_bus (io_disk demo_mem) (sim_disk demo_mem)"
    "io_fresh (sd_sectors sim_view) (io_disk demo_mem) (sim_disk demo_mem)"
    by (simp_all add: sim_disk_ok sim_disk_fresh)
  have e: "io_addr_ok 100 512" by (simp add: io_addr_ok_def)
  have ch: "fat_chain demo_ctx (sd_sectors sim_view (sim_disk demo_mem)) [0, 1]"
    using demo_cell by (simp add: sim_disk_sectors fat_end_mark_def word_le_nat_alt)
  have "\<forall>d \<in> set [0, 1]. fat_in_range demo_ctx 512 d"
    by (simp add: fat_in_range_def fat_cell_addr_def demo_ctx_def)
  from fat32_get_fat_chain [OF io e ch this, of "[]"] show ?thesis by blast
qed

text \<open>C40. There is no bound on the walk: if the chain runs into cells that only lead to each other
  (a damaged or an unused FAT, where every cell is 0), \<open>fat32_get_fat\<close> never returns, and neither
  does opening a file there. In the model the list grows without end; in the code every round allocates a
  node, unchecked, until the memory runs out.\<close>

theorem fat32_get_fat_cycle_hangs:
  assumes "io_sd_ok V n bus io m" and "io_fresh (sd_sectors V) io m" and "io_addr_ok n e" and "c \<in> C"
    and "\<And>d. d \<in> C \<Longrightarrow> fat_in_range ctx e d \<and> \<not> fat_end_mark (fat_cell ctx (sd_sectors V m) d) \<and>
      fat_cell ctx (sd_sectors V m) d \<in> C"
  shows "fat32_get_fat (sd_ops bus) ctx c ptr io m = None \<and>
    (fat32_calc_first_cluster (e_first_cluster_addr_high en) (e_first_cluster_addr_low en) + 2 = c \<longrightarrow>
      fat32_open_file (sd_ops bus) ctx en io f m = None)"
proof -
  have "io_ok (sd_ok V n bus) (sd_sectors V) n io m" using assms(1) by (simp only: io_sd_ok_def)
  from sd_blk.fat_loop_cycle [OF this assms(2-5)] show ?thesis
    by (simp add: fat32_get_fat_def fat32_open_file_def)
qed

definition zero_mem :: "u32 \<Rightarrow> u8 list" where
  "zero_mem a = replicate 512 0"

definition full_mem :: "u32 \<Rightarrow> u8 list" where
  "full_mem a = replicate 512 0xFF"

lemma length_plain_mem [simp]: "length (zero_mem a) = 512" "length (full_mem a) = 512"
  by (simp_all add: zero_mem_def full_mem_def)

lemma plain_cells: "fat_cell ctx zero_mem c = 0" "fat_cell ctx full_mem c = 0xFFFFFFFF"
proof -
  have "disk_bytes zero_mem x 4 = [0, 0, 0, 0]" "disk_bytes full_mem x 4 = [0xFF, 0xFF, 0xFF, 0xFF]" for x
    by (simp_all add: disk_bytes_def disk_byte_def zero_mem_def full_mem_def upt_rec)
  then show "fat_cell ctx zero_mem c = 0" "fat_cell ctx full_mem c = 0xFFFFFFFF"
    by (simp_all add: fat_cell_def rd32_def le32_def)
qed

theorem fat32_get_fat_cycle_hangs_witness:
  "fat32_get_fat (sd_ops sim_bus) demo_ctx 0 [] (io_disk zero_mem) (sim_disk zero_mem) = None"
proof -
  have io: "io_sd_ok sim_view 100 sim_bus (io_disk zero_mem) (sim_disk zero_mem)"
    "io_fresh (sd_sectors sim_view) (io_disk zero_mem) (sim_disk zero_mem)"
    by (simp_all add: sim_disk_ok sim_disk_fresh)
  have e: "io_addr_ok 100 512" by (simp add: io_addr_ok_def)
  have "fat_in_range demo_ctx 512 d \<and> \<not> fat_end_mark (fat_cell demo_ctx (sd_sectors sim_view (sim_disk zero_mem)) d) \<and>
      fat_cell demo_ctx (sd_sectors sim_view (sim_disk zero_mem)) d \<in> {0}" if "d \<in> {0}" for d
    using that by (simp add: plain_cells sim_disk_sectors fat_end_mark_def fat_in_range_def
        fat_cell_addr_def demo_ctx_def word_le_nat_alt)
  from fat32_get_fat_cycle_hangs [OF io e _ this, of 0 "[]"] show ?thesis by simp
qed

text \<open>Opening a file starts its chain two clusters too far. For a directory entry whose first
  cluster field holds \<open>k\<close>, \<open>fat32_open_file\<close> follows the chain of cluster \<open>k + 2\<close> and records
  \<open>k + 2\<close> as the current cluster, although the field and the FAT use the same numbering, and
  although \<open>fat32_creat_file\<close> stores the cluster it allocates unshifted.\<close>

theorem fat32_open_file_shifted:
  assumes "io_sd_ok V n bus io m" and "io_fresh (sd_sectors V) io m" and "io_addr_ok n e"
    and "fat_chain ctx (sd_sectors V m) ((k + 2) # cs)" and "\<forall>d \<in> set ((k + 2) # cs). fat_in_range ctx e d"
  shows "\<exists>f' io' m'. fat32_open_file (sd_ops bus) ctx (new_entry g k) io f m = Some (0, f', io', m') \<and>
    current_cluster f' = k + 2 \<and> fat_list f' = (k + 2) # cs \<and> file_name f' = c_strncpy 8 (c_strncpy 8 (file_name g))"
proof -
  have "fat32_calc_first_cluster (ucast (drop_bit 16 k)) (ucast k) = k"
    unfolding fat32_calc_first_cluster_def by (rule bit_word_eqI) (auto simp: bit_simps)
  moreover have "io_ok (sd_ok V n bus) (sd_sectors V) n io m" using assms(1) by (simp only: io_sd_ok_def)
  from sd_blk.fat_loop_chain [OF this assms(2-5), of "[]"]
  obtain io' m' where "fat32_get_fat (sd_ops bus) ctx (k + 2) (fat_list f) io m = Some (0, (k + 2) # cs, io', m')"
    by (auto simp: fat32_get_fat_def)
  ultimately show ?thesis by (simp add: fat32_open_file_def new_entry_def Let_def)
qed

theorem fat32_open_file_shifted_witness:
  "\<exists>f' io' m'. fat32_open_file (sd_ops sim_bus) demo_ctx (new_entry (demo_file [65] [66] []) 4) (io_disk full_mem)
      (demo_file [] [] []) (sim_disk full_mem) = Some (0, f', io', m') \<and> current_cluster f' = 6"
proof -
  have io: "io_sd_ok sim_view 100 sim_bus (io_disk full_mem) (sim_disk full_mem)"
    "io_fresh (sd_sectors sim_view) (io_disk full_mem) (sim_disk full_mem)"
    by (simp_all add: sim_disk_ok sim_disk_fresh)
  have e: "io_addr_ok 100 512" by (simp add: io_addr_ok_def)
  have ch: "fat_chain demo_ctx (sd_sectors sim_view (sim_disk full_mem)) [4 + 2]"
    by (simp add: plain_cells sim_disk_sectors fat_end_mark_def word_le_nat_alt)
  have "\<forall>d \<in> set [4 + 2]. fat_in_range demo_ctx 512 d"
    by (simp add: fat_in_range_def fat_cell_addr_def demo_ctx_def SECTOR_SIZE_BYTES_def)
  from fat32_open_file_shifted [OF io e ch this, of "demo_file [65] [66] []" "demo_file [] [] []"]
  show ?thesis by auto
qed

section \<open>Allocation\<close>

text \<open>C34. \<open>fat32_get_next_cluster\<close> and \<open>fat32_get_next_root_dir_loc\<close> terminate and return the least
  free number: the smallest cluster from 2 on that is in no cached file's list, and the smallest
  directory index no cached file has.\<close>

theorem fat32_alloc_least:
  assumes "length (concat (map fat_list (root_dir_entries ctx))) < 2 ^ 32 - 2"
    and "length (root_dir_entries ctx) < 2 ^ 32"
  shows "(\<exists>c. fat32_get_next_cluster ctx = Some c \<and> \<not> fat32_address_in_dir ctx c \<and> 2 \<le> c \<and>
      (\<forall>d. 2 \<le> d \<and> d < c \<longrightarrow> fat32_address_in_dir ctx d)) \<and>
    (\<exists>l. fat32_get_next_root_dir_loc ctx = Some l \<and> \<not> fat32_root_entry_found ctx l \<and>
      (\<forall>d. d < l \<longrightarrow> fat32_root_entry_found ctx d))"
  using alloc_least [OF assms] by blast

theorem fat32_alloc_least_witness:
  "\<exists>c. fat32_get_next_cluster (demo_ctx\<lparr>root_dir_entries := [demo_file [] [] [3, 2], demo_file [] [] [6]]\<rparr>) = Some c \<and>
     \<not> fat32_address_in_dir (demo_ctx\<lparr>root_dir_entries := [demo_file [] [] [3, 2], demo_file [] [] [6]]\<rparr>) c"
  using fat32_alloc_least [of "demo_ctx\<lparr>root_dir_entries := [demo_file [] [] [3, 2], demo_file [] [] [6]]\<rparr>"]
  by (auto simp: demo_file_def)

lemma demo_creat:
  assumes "io_ok (sd_ok sim_view 100 sim_bus) (sd_sectors sim_view) 100 io m"
  shows "\<exists>io' m'. fat32_creat_file (sd_ops sim_bus) (\<lambda>_. 0) demo_ctx f io m = Some (0, new_file demo_ctx f 0 2, io', m') \<and>
    io_ok (sd_ok sim_view 100 sim_bus) (sd_sectors sim_view) 100 io' m'"
proof -
  have new: "fat32_file_exists demo_ctx f = None"
    by (simp add: fat32_file_exists_def demo_ctx_def)
  have a: "fat32_get_next_cluster demo_ctx = Some 2" "fat32_get_next_root_dir_loc demo_ctx = Some 0"
    by (simp_all add: fat32_get_next_cluster_def fat32_get_next_root_dir_loc_def first_not.simps
        fat32_root_entry_found_def fat32_address_in_dir_def demo_ctx_def)
  have e: "unat (dir_slot demo_ctx 0) + 32 \<le> 5000" "io_addr_ok 100 5000"
    by (simp_all add: dir_slot_def demo_ctx_def SECTOR_SIZE_def io_addr_ok_def)
  from sd_blk.creat_new_ok [OF assms new a(2,1) e, of "\<lambda>_. 0"] show ?thesis by auto
qed

text \<open>The allocator does not know the clusters of the root directory itself: while no cached file
  has cluster 2 in its list (and the lists of opened files start two clusters late), on a volume
  whose root directory starts at cluster 2 a new file is given cluster 2, so the byte where its data
  will be written is the first byte of the root directory.\<close>

theorem fat32_creat_takes_root_cluster:
  assumes "fat32_file_exists ctx file = None" and "\<not> fat32_address_in_dir ctx 2"
    and "cluster_number_root_dir ctx = 2"
    and "root_dir_sector ctx = cluster_begin_sector ctx + (cluster_number_root_dir ctx - 2) * ucast (sectors_per_cluster ctx)"
    and "fat32_creat_file B junk ctx file io m = Some (r, f', io', m')"
  shows "current_cluster f' = cluster_number_root_dir ctx \<and> start_byte_offset f' = dir_slot ctx 0 \<and>
    current_byte_offset f' = dir_slot ctx 0"
proof -
  have "fat32_get_next_cluster ctx = Some 2"
    using assms(2) by (simp add: fat32_get_next_cluster_def first_not.simps)
  with creat_new_result [OF assms(1,5)] obtain loc where "f' = new_file ctx file loc 2" by auto
  with assms(3,4) show ?thesis by (simp add: new_file_def cluster_byte_def dir_slot_def)
qed

theorem fat32_creat_takes_root_cluster_witness:
  "\<exists>f' io' m'. fat32_creat_file (sd_ops sim_bus) (\<lambda>_. 0) demo_ctx (demo_file [65] [66] []) (io_disk zero_mem) (sim_disk zero_mem) =
      Some (0, f', io', m') \<and> start_byte_offset f' = dir_slot demo_ctx 0"
proof -
  have "io_ok (sd_ok sim_view 100 sim_bus) (sd_sectors sim_view) 100 (io_disk zero_mem) (sim_disk zero_mem)"
    using sim_disk_ok [of 100 zero_mem] by (simp add: io_sd_ok_def)
  from demo_creat [OF this] obtain io' m' where
    c: "fat32_creat_file (sd_ops sim_bus) (\<lambda>_. 0) demo_ctx (demo_file [65] [66] []) (io_disk zero_mem) (sim_disk zero_mem) =
      Some (0, new_file demo_ctx (demo_file [65] [66] []) 0 2, io', m')" by blast
  have "fat32_file_exists demo_ctx (demo_file [65] [66] []) = None" "\<not> fat32_address_in_dir demo_ctx 2"
    by (simp_all add: fat32_file_exists_def fat32_address_in_dir_def demo_ctx_def)
  from fat32_creat_takes_root_cluster [OF this _ _ c] c show ?thesis by (simp add: demo_ctx_def)
qed

text \<open>Creating a file does not enter it into the cached directory: if two files with different
  names are created one after the other, the second takes the same directory slot and the same first
  cluster as the first.\<close>

theorem fat32_creat_twice_collides:
  assumes "fat32_file_exists ctx f = None" and "fat32_file_exists ctx g = None"
    and "fat32_creat_file B junk ctx f io m = Some (r1, f', io1, m1)"
    and "fat32_creat_file B junk ctx g io1 m1 = Some (r2, g', io2, m2)"
  shows "root_dir_offset g' = root_dir_offset f' \<and> current_cluster g' = current_cluster f' \<and>
    current_byte_offset g' = current_byte_offset f'"
  using creat_new_result [OF assms(1,3)] creat_new_result [OF assms(2,4)] by (auto simp: new_file_def)

theorem fat32_creat_twice_collides_witness:
  "\<exists>f' io1 m1 g' io2 m2.
    fat32_creat_file (sd_ops sim_bus) (\<lambda>_. 0) demo_ctx (demo_file [65] [66] []) (io_disk zero_mem) (sim_disk zero_mem) = Some (0, f', io1, m1) \<and>
    fat32_creat_file (sd_ops sim_bus) (\<lambda>_. 0) demo_ctx (demo_file [67] [68] []) io1 m1 = Some (0, g', io2, m2) \<and>
    root_dir_offset g' = root_dir_offset f'"
proof -
  have io: "io_ok (sd_ok sim_view 100 sim_bus) (sd_sectors sim_view) 100 (io_disk zero_mem) (sim_disk zero_mem)"
    using sim_disk_ok [of 100 zero_mem] by (simp add: io_sd_ok_def)
  obtain io1 m1 where 1: "fat32_creat_file (sd_ops sim_bus) (\<lambda>_. 0) demo_ctx (demo_file [65] [66] []) (io_disk zero_mem)
      (sim_disk zero_mem) = Some (0, new_file demo_ctx (demo_file [65] [66] []) 0 2, io1, m1)"
    "io_ok (sd_ok sim_view 100 sim_bus) (sd_sectors sim_view) 100 io1 m1"
    using demo_creat [OF io] by blast
  obtain io2 m2 where 2: "fat32_creat_file (sd_ops sim_bus) (\<lambda>_. 0) demo_ctx (demo_file [67] [68] []) io1 m1 =
      Some (0, new_file demo_ctx (demo_file [67] [68] []) 0 2, io2, m2)"
    using demo_creat [OF 1(2)] by blast
  have "fat32_file_exists demo_ctx f = None" for f by (simp add: fat32_file_exists_def demo_ctx_def)
  from fat32_creat_twice_collides [OF this this 1(1) 2] 1(1) 2 show ?thesis by blast
qed

text \<open>The bytes of a new entry in the documented layout: the name, the extension, nine zeros (attributes, time and
  date of creation, date of access), the high half of the cluster, four zeros (time and date of the last change), the
  low half of the cluster, and a size of 0.\<close>

lemma new_entry_bytes:
  "entry_bytes (new_entry file c) = c_strncpy 8 (file_name file) @ c_strncpy 3 (file_ext file) @ replicate 9 0 @
     [ucast (drop_bit 16 c), ucast (drop_bit 24 c)] @ replicate 4 0 @ [ucast c, ucast (drop_bit 8 c)] @ replicate 4 0"
proof -
  have z: "rd16 (replicate 32 0) 18 = 0" "rd16 (replicate 32 0) 22 = 0" "rd16 (replicate 32 0) 24 = 0"
    by (simp_all add: rd16_def le16_def)
  have h: "bytes16 (ucast (drop_bit 16 c)) = [ucast (drop_bit 16 c), ucast (drop_bit 24 c)]"
    unfolding bytes16_def by (auto intro!: bit_word_eqI simp: bit_simps)
  have l: "bytes16 (ucast c) = [ucast c, ucast (drop_bit 8 c)]"
    unfolding bytes16_def by (auto intro!: bit_word_eqI simp: bit_simps)
  have f: "e_file_attr (entry_of (replicate 32 0)) = 0" "e_reserved (entry_of (replicate 32 0)) = 0"
    "e_date_time_creat (entry_of (replicate 32 0)) = replicate 5 0" "e_accessed_date (entry_of (replicate 32 0)) = 0"
    "e_time_last_modified (entry_of (replicate 32 0)) = 0" "e_date_last_modified (entry_of (replicate 32 0)) = 0"
    by (simp_all add: entry_of_def z slice_def)
  have b0: "bytes16 0 = replicate 2 0" "bytes32 0 = replicate 4 0" by code_simp+
  have r: "replicate 9 (0 :: u8) = [0] @ [0] @ replicate 5 0 @ replicate 2 0" "replicate 4 (0 :: u8) = replicate 2 0 @ replicate 2 0"
    by code_simp+
  define E where "E = entry_of (replicate 32 0)"
  show ?thesis
    unfolding new_entry_def E_def [symmetric] entry_bytes_def r
    by (simp add: h l f [folded E_def] b0) (simp add: eval_nat_numeral)
qed

text \<open>C33. What the card holds after a new file is created and the write cache flushed (with undefined results
  of the byte writes that are not negative): in the file's directory slot the 32 bytes of the documented entry layout
  (fat.h), with the name and the extension padded by zeros, the number of the allocated cluster split into its
  high half at offset 20 and its low half at offset 26, least significant byte first, and the size 0; every other byte is the one the
  card was going to hold before the call.\<close>

theorem fat32_creat_entry_layout:
  assumes "io_sd_ok V n bus io m" and "fat32_file_exists ctx file = None"
    and "fat32_get_next_root_dir_loc ctx = Some loc" and "fat32_get_next_cluster ctx = Some c"
    and "unat (dir_slot ctx loc) + 32 \<le> e" and "io_addr_ok n e" and "\<forall>s. 0 \<le> junk s"
  shows "\<exists>f1 io1 m1 m2. fat32_creat_file (sd_ops bus) junk ctx file io m = Some (0, f1, io1, m1) \<and>
    io_flush_write_buffer (sd_ops bus) io1 m1 = Some (0, io1, m2) \<and>
    disk_bytes (sd_sectors V m2) (dir_slot ctx loc) 32 =
      c_strncpy 8 (file_name file) @ c_strncpy 3 (file_ext file) @ replicate 9 0 @
      [ucast (drop_bit 16 c), ucast (drop_bit 24 c)] @ replicate 4 0 @ [ucast c, ucast (drop_bit 8 c)] @ replicate 4 0 \<and>
    (\<forall>y. unat y < unat (dir_slot ctx loc) \<or> unat (dir_slot ctx loc) + 32 \<le> unat y \<longrightarrow>
       disk_byte (sd_sectors V m2) y = disk_byte (io_pending io (sd_sectors V m)) y)"
proof -
  have io: "io_ok (sd_ok V n bus) (sd_sectors V) n io m" using assms(1) by (simp only: io_sd_ok_def)
  from sd_blk.creat_new_ok [OF io assms(2-7)] obtain io1 m1 where
    c: "fat32_creat_file (sd_ops bus) junk ctx file io m = Some (0, new_file ctx file loc c, io1, m1)"
      "io_ok (sd_ok V n bus) (sd_sectors V) n io1 m1"
      "io_pending io1 (sd_sectors V m1) = disk_puts (dir_slot ctx loc) (entry_bytes (new_entry file c)) (io_pending io (sd_sectors V m))"
    by blast
  obtain m2 where f: "io_flush_write_buffer (sd_ops bus) io1 m1 = Some (0, io1, m2)"
    using sd_blk.io_flush_write_ok [OF c(2)] by blast
  from sd_blk.io_flush_write_keeps [OF c(2) f] c(3)
  have s: "sd_sectors V m2 = disk_puts (dir_slot ctx loc) (entry_bytes (new_entry file c)) (io_pending io (sd_sectors V m))" by simp
  have len: "length (entry_bytes (new_entry file c)) = 32" by (simp add: new_entry_bytes)
  have b: "unat (dir_slot ctx loc) + length (entry_bytes (new_entry file c)) \<le> 2 ^ 32"
    "unat (dir_slot ctx loc) + length (entry_bytes (new_entry file c)) \<le> 512 * n"
    using assms(5,6) by (auto simp: io_addr_ok_def len)
  note il = sd_blk.io_pending_len [OF io]
  have "disk_bytes (sd_sectors V m2) (dir_slot ctx loc) 32 = entry_bytes (new_entry file c)"
    using disk_bytes_puts [where N = n, OF b(1) il b(2)] by (simp add: s len)
  moreover have "disk_byte (sd_sectors V m2) y = disk_byte (io_pending io (sd_sectors V m)) y"
    if "unat y < unat (dir_slot ctx loc) \<or> unat (dir_slot ctx loc) + 32 \<le> unat y" for y
    using disk_byte_puts [where N = n and y = y, OF b(1) il b(2)] that by (auto simp: s len)
  ultimately show ?thesis using c(1) f by (auto simp: new_entry_bytes)
qed

theorem fat32_creat_entry_layout_witness:
  "\<exists>f1 io1 m1 m2. fat32_creat_file (sd_ops sim_bus) (\<lambda>_. 0) demo_ctx (demo_file [65, 66] [67] []) (io_disk zero_mem) (sim_disk zero_mem) =
      Some (0, f1, io1, m1) \<and>
    io_flush_write_buffer (sd_ops sim_bus) io1 m1 = Some (0, io1, m2) \<and>
    disk_bytes (sd_sectors sim_view m2) (dir_slot demo_ctx 0) 32 =
      [65, 66, 0, 0, 0, 0, 0, 0] @ [67, 0, 0] @ replicate 15 0 @ [2, 0] @ replicate 4 0"
proof -
  have io: "io_sd_ok sim_view 100 sim_bus (io_disk zero_mem) (sim_disk zero_mem)"
    using sim_disk_ok [of 100 zero_mem] by simp
  have new: "fat32_file_exists demo_ctx (demo_file [65, 66] [67] []) = None"
    by (simp add: fat32_file_exists_def demo_ctx_def)
  have a: "fat32_get_next_root_dir_loc demo_ctx = Some 0" "fat32_get_next_cluster demo_ctx = Some 2"
    by (simp_all add: fat32_get_next_cluster_def fat32_get_next_root_dir_loc_def first_not.simps
        fat32_root_entry_found_def fat32_address_in_dir_def demo_ctx_def)
  have e: "unat (dir_slot demo_ctx 0) + 32 \<le> 5000" "io_addr_ok 100 5000"
    by (simp_all add: dir_slot_def demo_ctx_def SECTOR_SIZE_def io_addr_ok_def)
  have n: "c_strncpy 8 [65, 66] = [65, 66, 0, 0, 0, 0, 0, 0 :: u8]" "c_strncpy 3 [67] = [67, 0, 0 :: u8]" by code_simp+
  have r: "replicate 9 0 @ [ucast (drop_bit 16 (2 :: u32)), ucast (drop_bit 24 (2 :: u32))] @ replicate 4 0 @
      [ucast (2 :: u32), ucast (drop_bit 8 (2 :: u32))] @ replicate 4 0 = replicate 15 0 @ [2, 0 :: u8] @ replicate 4 0" by code_simp
  have d: "file_name (demo_file [65, 66] [67] []) = [65, 66]" "file_ext (demo_file [65, 66] [67] []) = [67]"
    by (simp_all add: demo_file_def)
  from fat32_creat_entry_layout [OF io new a e, of "\<lambda>_. 0"] show ?thesis unfolding d n r by blast
qed

section \<open>Writing\<close>

text \<open>C11. A log file, with undefined results of the byte writes that are not negative: creating a new file whose
  directory slot lies in a sector before its first cluster and then writing chunk after chunk (none of them empty)
  succeeds, and what the card will
  hold is the concatenation of the chunks from the file's first byte on, with their total length as
  the size in the directory entry.\<close>

theorem fat32_append_log:
  assumes "io_sd_ok V n bus io m" and "fat32_file_exists ctx file = None"
    and "fat32_get_next_root_dir_loc ctx = Some loc" and "fat32_get_next_cluster ctx = Some c"
    and "file_ready ctx (new_file ctx file loc c) e"
    and "unat (cluster_byte ctx c) + length (concat bufs) \<le> e" and "io_addr_ok n e"
    and "[] \<notin> set bufs" and "\<forall>s. 0 \<le> junk s" and "length e0 = 32"
  shows "\<exists>f1 io1 m1 f2 io2 m2. fat32_creat_file (sd_ops bus) junk ctx file io m = Some (0, f1, io1, m1) \<and>
    fat32_log (sd_ops bus) junk e0 ctx f1 bufs io1 m1 = Some (f2, io2, m2) \<and> io_sd_ok V n bus io2 m2 \<and>
    file_view ctx f2 (io_pending io2 (sd_sectors V m2)) = (concat bufs, of_nat (length (concat bufs)))"
proof -
  have io: "io_ok (sd_ok V n bus) (sd_sectors V) n io m" using assms(1) by (simp only: io_sd_ok_def)
  let ?f = "new_file ctx file loc c"
  have slot: "file_slot ctx ?f = dir_slot ctx loc" by (simp add: file_slot_def new_file_def)
  then have sl: "unat (dir_slot ctx loc) + 32 \<le> e" using assms(5) by (simp add: file_ready_def)
  obtain io1 m1 where c: "fat32_creat_file (sd_ops bus) junk ctx file io m = Some (0, ?f, io1, m1)"
    "io_ok (sd_ok V n bus) (sd_sectors V) n io1 m1"
    "io_pending io1 (sd_sectors V m1) = disk_puts (dir_slot ctx loc) (entry_bytes (new_entry file c)) (io_pending io (sd_sectors V m))"
    using sd_blk.creat_new_ok [OF io assms(2-4) sl assms(7,9)] by blast
  have wf: "entry_wf (new_entry file c)"
    using entry_of_wf [of "replicate 32 0"] by (simp add: new_entry_def entry_wf_def)
  have b: "unat (dir_slot ctx loc) + length (entry_bytes (new_entry file c)) \<le> 2 ^ 32"
    "unat (dir_slot ctx loc) + length (entry_bytes (new_entry file c)) \<le> 512 * n"
    using sl assms(7) length_entry_bytes [OF wf] by (auto simp: io_addr_ok_def)
  have "disk_bytes (io_pending io1 (sd_sectors V m1)) (dir_slot ctx loc) 32 = entry_bytes (new_entry file c)"
    using disk_bytes_puts [where N = n, OF b(1) sd_blk.io_pending_len [OF io] b(2)] length_entry_bytes [OF wf]
    by (simp add: c(3))
  then have v0: "file_view ctx ?f (io_pending io1 (sd_sectors V m1)) = ([], 0)"
    using entry_of_bytes [OF wf] by (simp add: file_view_def slot disk_bytes_def) (simp add: new_file_def new_entry_def)
  have "unat (current_byte_offset ?f) + length (concat bufs) \<le> e" using assms(6) by (simp add: new_file_def)
  from sd_blk.log_view [OF c(2) assms(8) this assms(5,7,9,10)] v0 c(1) show ?thesis
    by (auto simp: io_sd_ok_def)
qed

definition log_ctx :: fat32_ctx where
  "log_ctx = demo_ctx\<lparr>root_dir_entries := [demo_file [79] [79] [2]]\<rparr>"

theorem fat32_append_log_witness:
  "\<exists>f1 io1 m1 f2 io2 m2.
    fat32_creat_file (sd_ops sim_bus) (\<lambda>_. 0) log_ctx (demo_file [65] [66] []) (io_disk zero_mem) (sim_disk zero_mem) = Some (0, f1, io1, m1) \<and>
    fat32_log (sd_ops sim_bus) (\<lambda>_. 0) (replicate 32 0) log_ctx f1 [[1, 2], [3]] io1 m1 = Some (f2, io2, m2) \<and>
    file_view log_ctx f2 (io_pending io2 (sd_sectors sim_view m2)) = ([1, 2, 3], 3)"
proof -
  have io: "io_sd_ok sim_view 100 sim_bus (io_disk zero_mem) (sim_disk zero_mem)"
    using sim_disk_ok [of 100 zero_mem] by simp
  have new: "fat32_file_exists log_ctx (demo_file [65] [66] []) = None"
    by (simp add: fat32_file_exists_def log_ctx_def demo_ctx_def demo_file_def c_strncmp_eq_def)
  have a: "fat32_get_next_root_dir_loc log_ctx = Some 1" "fat32_get_next_cluster log_ctx = Some 3"
    by (simp_all add: fat32_get_next_cluster_def fat32_get_next_root_dir_loc_def first_not.simps
        fat32_root_entry_found_def fat32_address_in_dir_def log_ctx_def demo_ctx_def demo_file_def)
  have r: "file_ready log_ctx (new_file log_ctx (demo_file [65] [66] []) 1 3) 5000"
    "unat (cluster_byte log_ctx 3) + length (concat [[1, 2], [3 :: u8]]) \<le> 5000"
    by (simp_all add: file_ready_def file_slot_def new_file_def cluster_byte_def dir_slot_def log_ctx_def demo_ctx_def SECTOR_SIZE_def)
  have e: "io_addr_ok 100 5000" by (simp add: io_addr_ok_def)
  show ?thesis
    using fat32_append_log [OF io new a r e, of "\<lambda>_. 0" "replicate 32 0"]
    by (simp del: fat32_log.simps) blast
qed

text \<open>Extending a chain writes through a pointer taken for a cluster number: \<open>fat32_update_fat\<close>
  on a file that already has clusters stores the new cluster into the FAT cell numbered by the address
  of the list node's data, so that unless that address happens to be the last cluster's number, the cell
  of the last cluster keeps its value and the chain on the card does not grow.\<close>

theorem fat32_update_fat_wrong_cell:
  assumes "io_sd_ok V n bus io m" and "io_addr_ok n e" and "\<forall>s. 0 \<le> junk s" and "fat_list file = xs @ [last_cluster]"
    and "\<forall>c \<in> {last_cluster, data_ptr, cluster}. fat_in_range ctx e c \<and> unat (fat_cell_addr ctx c) = 512 * unat (fat_begin_sector ctx) + 4 * unat c"
    and "data_ptr \<noteq> last_cluster" and "cluster \<noteq> last_cluster"
  shows "\<exists>f' io' m'. fat32_update_fat (sd_ops bus) junk data_ptr ctx file cluster io m = Some (0, f', io', m') \<and>
    fat_list f' = xs @ [last_cluster, cluster] \<and>
    fat_cell ctx (io_pending io' (sd_sectors V m')) last_cluster = fat_cell ctx (io_pending io (sd_sectors V m)) last_cluster"
proof -
  let ?s = "io_pending io (sd_sectors V m)" and ?a = "fat_cell_addr ctx"
  have io: "io_ok (sd_ok V n bus) (sd_sectors V) n io m" using assms(1) by (simp only: io_sd_ok_def)
  have addr: "fat_begin_sector ctx * ucast SECTOR_SIZE + 4 * c = ?a c" for c
    by (simp add: fat_cell_addr_def SECTOR_SIZE_def SECTOR_SIZE_BYTES_def mult.commute)
  have r: "unat (?a c) + 4 \<le> e" "unat (?a c) = 512 * unat (fat_begin_sector ctx) + 4 * unat c"
    if "c \<in> {last_cluster, data_ptr, cluster}" for c
    using assms(5) that by (auto simp: fat_in_range_def)
  have ne: "unat data_ptr \<noteq> unat last_cluster" "unat cluster \<noteq> unat last_cluster"
    using assms(6,7) by (simp_all add: word_unat_eq_iff)
  obtain io1 m1 where w1: "io_write_nbytes (sd_ops bus) junk io (bytes32 cluster) (?a data_ptr) m = Some (0, io1, m1)"
    "io_ok (sd_ok V n bus) (sd_sectors V) n io1 m1" "io_pending io1 (sd_sectors V m1) = disk_puts (?a data_ptr) (bytes32 cluster) ?s"
    using sd_blk.io_write_ok [OF io, of "?a data_ptr" "bytes32 cluster" e junk] r(1) [of data_ptr] assms(2,3) by auto
  obtain io2 m2 where w2: "io_write_nbytes (sd_ops bus) junk io1 (bytes32 0x0FFFFFFF) (?a cluster) m1 = Some (0, io2, m2)"
    "io_pending io2 (sd_sectors V m2) = disk_puts (?a cluster) (bytes32 0x0FFFFFFF) (io_pending io1 (sd_sectors V m1))"
    using sd_blk.io_write_ok [OF w1(2), of "?a cluster" "bytes32 0x0FFFFFFF" e junk] r(1) [of cluster] assms(2,3) by auto
  have e: "e \<le> 2 ^ 32" "e \<le> 512 * n" using assms(2) by (auto simp: io_addr_ok_def)
  have "disk_bytes (disk_puts (?a data_ptr) (bytes32 cluster) ?s) (?a last_cluster) 4 = disk_bytes ?s (?a last_cluster) 4"
    using r [of data_ptr] r [of last_cluster] ne e
    by (intro disk_bytes_frame [where N = n] sd_blk.io_pending_len [OF io]) auto
  moreover have "disk_bytes (disk_puts (?a cluster) (bytes32 0x0FFFFFFF) (io_pending io1 (sd_sectors V m1))) (?a last_cluster) 4 =
      disk_bytes (io_pending io1 (sd_sectors V m1)) (?a last_cluster) 4"
    using r [of cluster] r [of last_cluster] ne e
    by (intro disk_bytes_frame [where N = n] sd_blk.io_pending_len [OF w1(2)]) auto
  ultimately have cell: "fat_cell ctx (io_pending io2 (sd_sectors V m2)) last_cluster = fat_cell ctx ?s last_cluster"
    by (simp add: fat_cell_def w2(2) w1(3))
  have "fat32_update_fat (sd_ops bus) junk data_ptr ctx file cluster io m =
      Some (0, file\<lparr>fat_list := xs @ [last_cluster, cluster]\<rparr>, io2, m2)"
    using w1(1) w2(1) assms(4) by (simp add: fat32_update_fat_def addr Let_def)
  with cell show ?thesis by auto
qed

theorem fat32_update_fat_wrong_cell_witness:
  "\<exists>f' io' m'. fat32_update_fat (sd_ops sim_bus) (\<lambda>_. 0) 100 demo_ctx (demo_file [] [] [2, 3]) 4 (io_disk zero_mem) (sim_disk zero_mem) =
      Some (0, f', io', m') \<and> fat_cell demo_ctx (io_pending io' (sd_sectors sim_view m')) 3 = 0"
proof -
  have io: "io_sd_ok sim_view 100 sim_bus (io_disk zero_mem) (sim_disk zero_mem)"
    using sim_disk_ok [of 100 zero_mem] by simp
  have e: "io_addr_ok 100 5000" by (simp add: io_addr_ok_def)
  have c: "\<forall>c \<in> {3, 100, 4}. fat_in_range demo_ctx 5000 c \<and>
      unat (fat_cell_addr demo_ctx c) = 512 * unat (fat_begin_sector demo_ctx) + 4 * unat c"
    by (simp add: fat_in_range_def fat_cell_addr_def demo_ctx_def)
  have l: "fat_list (demo_file [] [] [2, 3]) = [2] @ [3]" by (simp add: demo_file_def)
  show ?thesis
    using fat32_update_fat_wrong_cell [OF io e _ l c, of "\<lambda>_. 0"] by (auto simp: sim_disk_pending plain_cells)
qed

section \<open>Mounting\<close>

lemma initialize_fat32_run:
  fixes V :: "'c \<Rightarrow> 'x card_scheme"
  assumes "io_sd_ok V n bus io m" and "io_fresh (sd_sectors V) io m" and "io_addr_ok n e" and "512 \<le> e"
    and "sd_status sd \<noteq> SD_DISABLED"
    and "pt = partition_of (disk_bytes (sd_sectors V m) 0x1BE 16)"
    and "bs = boot_sector_of (disk_bytes (sd_sectors V m) (512 * pt_start_sector pt) 512)"
    and "ctx = fat32_set_context (fat32_set_partition fat32 [pt]) bs"
    and "unat (512 * pt_start_sector pt) + 512 \<le> e"
    and "unat (root_dir_sector ctx * ucast (sd_sector_size sd)) + 32 \<le> e"
    and "disk_byte (sd_sectors V m) (root_dir_sector ctx * ucast (sd_sector_size sd)) = 0"
  shows "\<exists>fat32' io' m'. initialize_fat32 (sd_ops bus) jf fat32 io sd m =
      Some (if pt_partition_type pt \<in> {PARTITION_TYPE_FAT32_LT2G, PARTITION_TYPE_FAT32_LBA} then 0 else - 1, fat32', io', m') \<and>
    (pt_partition_type pt \<in> {PARTITION_TYPE_FAT32_LT2G, PARTITION_TYPE_FAT32_LBA} \<longrightarrow> fat32' = ctx \<and>
      fat_begin_sector fat32' = pt_start_sector pt + ucast (bs_reserved_sectors bs) \<and>
      cluster_begin_sector fat32' = fat_begin_sector fat32' + ucast (bs_number_of_fats bs) * bs_sectors_per_fat_32 bs \<and>
      root_dir_sector fat32' = fat32_calc_lba_from_cluster (cluster_begin_sector fat32')
        (ucast (bs_sectors_per_cluster bs)) (bs_cluster_number_root_dir bs) \<and>
      root_dir_entries fat32' = [])"
proof -
  let ?s = "sd_sectors V m" and ?base = "root_dir_sector ctx * ucast (sd_sector_size sd)"
  have io: "io_ok (sd_ok V n bus) (sd_sectors V) n io m" using assms(1) by (simp only: io_sd_ok_def)
  have pt: "fat_partition ?s = pt" and bt: "fat_boot ?s = bs" and ctx: "ctx = fat_geometry fat32 ?s"
    using assms(6-8) by (simp_all add: fat_partition_def fat_boot_def fat_geometry_def)
  show ?thesis
  proof (cases "fat_type_ok pt")
    case False
    with sd_blk.mount_refused [OF io assms(2-5), of jf fat32] show ?thesis by (auto simp: pt fat_type_ok_def)
  next
    case True
    have "\<not> dir_open ?s ?base 0" using assms(11) by (simp add: dir_open_def)
    then have d: "dir_files ?s ?base [0..<16] = []" "dir_reads ?s ?base [0..<16] = 1"
      using dir_Cons_end [of ?s ?base 0] by (simp_all add: upt_conv_Cons)
    have c: "ctx\<lparr>root_dir_entries := []\<rparr> = ctx" using fat_geometry_fields(1) [of fat32 ?s] by (simp add: ctx [symmetric])
    have "volume_ok ctx ?s ?base e (\<lambda>_. [])"
      using assms(4,9,10) True d by (simp add: volume_ok_def pt shifted_chains_def)
    from sd_blk.mount_ok [OF io assms(2,3,5) ctx refl this, of jf] show ?thesis
      using True fat_geometry_fields [of fat32 ?s] c d(1) by (auto simp: root_listing_def fat_type_ok_def ctx pt bt)
  qed
qed

text \<open>Mounting a volume: on a card whose first partition entry has one of the two FAT32 types, whose
  boot sector lies inside the card, and whose root directory is empty, \<open>initialize_fat32\<close> returns 0
  with the partition data of the entry at 0x1BE and the geometry of the boot sector: the FAT begins
  after the reserved sectors, the clusters after the FATs, the root directory at its cluster. With any
  other partition type it returns -1.\<close>

theorem initialize_fat32_mounts:
  fixes V :: "'c \<Rightarrow> 'x card_scheme"
  assumes "io_sd_ok V n bus io m" and "io_fresh (sd_sectors V) io m" and "io_addr_ok n e" and "512 \<le> e"
    and "sd_status sd \<noteq> SD_DISABLED"
    and "pt = partition_of (disk_bytes (sd_sectors V m) 0x1BE 16)"
    and "bs = boot_sector_of (disk_bytes (sd_sectors V m) (512 * pt_start_sector pt) 512)"
    and "ctx = fat32_set_context (fat32_set_partition fat32 [pt]) bs"
    and "unat (512 * pt_start_sector pt) + 512 \<le> e"
    and "unat (root_dir_sector ctx * ucast (sd_sector_size sd)) + 32 \<le> e"
    and "disk_byte (sd_sectors V m) (root_dir_sector ctx * ucast (sd_sector_size sd)) = 0"
  shows "\<exists>fat32' io' m'. initialize_fat32 (sd_ops bus) jf fat32 io sd m =
      Some (if pt_partition_type pt \<in> {PARTITION_TYPE_FAT32_LT2G, PARTITION_TYPE_FAT32_LBA} then 0 else - 1, fat32', io', m') \<and>
    (pt_partition_type pt \<in> {PARTITION_TYPE_FAT32_LT2G, PARTITION_TYPE_FAT32_LBA} \<longrightarrow> fat32' = ctx \<and>
      fat_begin_sector fat32' = pt_start_sector pt + ucast (bs_reserved_sectors bs) \<and>
      cluster_begin_sector fat32' = fat_begin_sector fat32' + ucast (bs_number_of_fats bs) * bs_sectors_per_fat_32 bs \<and>
      root_dir_sector fat32' = fat32_calc_lba_from_cluster (cluster_begin_sector fat32')
        (ucast (bs_sectors_per_cluster bs)) (bs_cluster_number_root_dir bs) \<and>
      root_dir_entries fat32' = [])"
  by (rule initialize_fat32_run [OF assms])

text \<open>A card with one FAT32 partition at sector 1: two reserved sectors, one FAT of three sectors, the
  root directory at cluster 2.\<close>

definition mount_mem :: "u32 \<Rightarrow> u8 list" where
  "mount_mem a =
    (if a = 0 then replicate 450 0 @ [12, 0, 0, 0, 1, 0, 0, 0, 100] @ replicate 53 0
     else if a = 1 then replicate 13 0 @ [1, 2, 0, 1] @ replicate 19 0 @ [3] @ replicate 7 0 @ [2] @ replicate 467 0
     else replicate 512 0)"

lemma length_mount_mem [simp]: "length (mount_mem a) = 512"
  by (simp add: mount_mem_def)

definition mount_part :: PartitionTable where
  "mount_part = partition_of (disk_bytes mount_mem 0x1BE 16)"

lemma mount_part_fields: "pt_partition_type mount_part = 12" "pt_start_sector mount_part = 1"
  by (simp_all add: mount_part_def partition_of_def rd32_def le32_def disk_bytes_def disk_byte_def mount_mem_def nth_append)

definition mount_boot :: FAT32BootSector where
  "mount_boot = boot_sector_of (disk_bytes mount_mem 512 512)"

lemma mount_boot_fields:
  "bs_reserved_sectors mount_boot = 2" "bs_number_of_fats mount_boot = 1" "bs_sectors_per_cluster mount_boot = 1"
  "bs_sectors_per_fat_32 mount_boot = 3" "bs_cluster_number_root_dir mount_boot = 2"
  by (simp_all add: mount_boot_def boot_sector_of_def rd16_def le16_def rd32_def le32_def disk_bytes_def disk_byte_def
      mount_mem_def nth_append)

lemma mount_root: "root_dir_sector (fat32_set_context (fat32_set_partition demo_ctx [mount_part]) mount_boot) = 6"
  by (simp add: fat32_set_context_def fat32_set_partition_def mount_boot_fields mount_part_fields Let_def)

theorem initialize_fat32_mounts_witness:
  "\<exists>fat32' io' m'. initialize_fat32 (sd_ops sim_bus) (demo_file [] [] []) demo_ctx (io_disk mount_mem)
      \<lparr>sd_type = 2, sd_status = 0, sd_sector_size = 512\<rparr> (sim_disk mount_mem) = Some (0, fat32', io', m') \<and>
    fat_begin_sector fat32' = 3"
proof -
  let ?sd = "\<lparr>sd_type = 2, sd_status = 0, sd_sector_size = 512\<rparr>"
  have io: "io_sd_ok sim_view 100 sim_bus (io_disk mount_mem) (sim_disk mount_mem)"
    "io_fresh (sd_sectors sim_view) (io_disk mount_mem) (sim_disk mount_mem)"
    by (simp_all add: sim_disk_ok sim_disk_fresh)
  have e: "io_addr_ok 100 5000" "(512 :: nat) \<le> 5000" "sd_status ?sd \<noteq> SD_DISABLED"
    by (simp_all add: io_addr_ok_def SD_DISABLED_def)
  have s: "sd_sectors sim_view (sim_disk mount_mem) = mount_mem" by (simp add: sim_disk_sectors)
  have pt: "mount_part = partition_of (disk_bytes (sd_sectors sim_view (sim_disk mount_mem)) 0x1BE 16)"
    by (simp add: s mount_part_def)
  have bs: "mount_boot = boot_sector_of (disk_bytes (sd_sectors sim_view (sim_disk mount_mem)) (512 * pt_start_sector mount_part) 512)"
    by (simp add: s mount_boot_def mount_part_fields)
  let ?ctx = "fat32_set_context (fat32_set_partition demo_ctx [mount_part]) mount_boot"
  have r: "unat (512 * pt_start_sector mount_part) + 512 \<le> 5000"
    "unat (root_dir_sector ?ctx * ucast (sd_sector_size ?sd)) + 32 \<le> 5000"
    "disk_byte (sd_sectors sim_view (sim_disk mount_mem)) (root_dir_sector ?ctx * ucast (sd_sector_size ?sd)) = 0"
    by (simp_all add: mount_root mount_part_fields s) (simp add: disk_byte_def mount_mem_def)
  from initialize_fat32_mounts [OF io e pt bs refl r, of "demo_file [] [] []"] show ?thesis
    by (auto simp: mount_part_fields mount_boot_fields PARTITION_TYPE_FAT32_LBA_def)
qed

section \<open>A volume with files\<close>

text \<open>C25. A card with a FAT32 volume that has files: \<open>initialize_fat32\<close> returns 0 with the geometry of the boot
  sector and lists exactly the live slots before the end of the root directory (among its first 16), each with its
  name, size and slot, and with the list of clusters that the code follows for it. That list is not the file's
  chain: \<open>fat32_open_file\<close> starts two clusters after the one in the entry. \<open>volume_ok\<close> asks that each of these
  shifted chains exists in the FAT and ends; where one does not, the mount need not return. The card and the data
  waiting in the write cache are as before.\<close>

theorem initialize_fat32_lists:
  fixes V :: "'c \<Rightarrow> 'x card_scheme"
  assumes "io_sd_ok V n bus io m" and "io_fresh (sd_sectors V) io m" and "io_addr_ok n e" and "sd_status sd \<noteq> SD_DISABLED"
    and "ctx = fat_geometry fat (sd_sectors V m)" and "base = root_dir_sector ctx * ucast (sd_sector_size sd)"
    and "volume_ok ctx (sd_sectors V m) base e chain"
  shows "\<exists>io' m'. initialize_fat32 (sd_ops bus) jf fat io sd m =
      Some (0, ctx\<lparr>root_dir_entries := root_listing ctx (first_cluster jf) (sd_sectors V m) base chain\<rparr>, io', m') \<and>
    io_sd_ok V n bus io' m' \<and> io_fresh (sd_sectors V) io' m' \<and> sd_sectors V m' = sd_sectors V m \<and> io_same_out io io'"
proof -
  have "io_ok (sd_ok V n bus) (sd_sectors V) n io m" using assms(1) by (simp only: io_sd_ok_def)
  from sd_blk.mount_ok [OF this assms(2-7), of jf] show ?thesis by (auto simp: io_sd_ok_def)
qed

text \<open>C9. A file created on a volume just mounted (on which the shifted chains exist and end, and with undefined
  results of the byte writes that are not negative). If the directory lists its name, the call gives that file's slot
  and size and the list recorded at the mount, which starts two clusters after the one in the entry, and nothing is written.
  Otherwise it takes the first slot (of 17) without a live file, and the least cluster from 2 on that is in none of
  the recorded lists; the only change to what the card will hold is the new directory entry. The recorded lists
  are the shifted ones and the FAT is not consulted, so the cluster may be in use: in the example it is cluster
  3, where the entry of \<open>LOG.TXT\<close> says its data is.\<close>

theorem fat32_mount_creat:
  fixes V :: "'c \<Rightarrow> 'x card_scheme"
  assumes "io_sd_ok V n bus io m" and "io_fresh (sd_sectors V) io m" and "io_addr_ok n e" and "sd_status sd \<noteq> SD_DISABLED"
    and "ctx = fat_geometry fat (sd_sectors V m)" and "sd_sector_size sd = 512" and "base = dir_slot ctx 0"
    and "volume_ok ctx (sd_sectors V m) base e chain" and "files = dir_files (sd_sectors V m) base [0..<16]"
    and "length (concat (map chain files)) < 2 ^ 32 - 2" and "unat base + 32 * 17 \<le> e" and "\<forall>s. 0 \<le> junk s"
  shows "\<exists>ctx' io1 m1. initialize_fat32 (sd_ops bus) jf fat io sd m = Some (0, ctx', io1, m1) \<and>
    (case dir_lookup (sd_sectors V m) base f of
       Some i \<Rightarrow> fat32_creat_file (sd_ops bus) junk ctx' f io1 m1 =
         Some (0, reopened ctx f (dir_entry (sd_sectors V m) base i) i (chain i), io1, m1)
     | None \<Rightarrow> \<exists>l c io2 m2. l \<notin> set files \<and> (\<forall>i < l. i \<in> set files) \<and> l \<le> 16 \<and>
         c \<notin> set (concat (map chain files)) \<and> 2 \<le> c \<and> (\<forall>d. 2 \<le> d \<and> d < c \<longrightarrow> d \<in> set (concat (map chain files))) \<and>
         fat32_creat_file (sd_ops bus) junk ctx' f io1 m1 = Some (0, new_file ctx f (of_nat l) c, io2, m2) \<and>
         io_pending io2 (sd_sectors V m2) =
           disk_puts (base + 32 * of_nat l) (entry_bytes (new_entry f c)) (io_pending io (sd_sectors V m)))"
proof -
  let ?s = "sd_sectors V m"
  define C where "C = ctx\<lparr>root_dir_entries := root_listing ctx (first_cluster jf) ?s base chain\<rparr>"
  have io: "io_ok (sd_ok V n bus) (sd_sectors V) n io m" using assms(1) by (simp only: io_sd_ok_def)
  have "base = root_dir_sector ctx * ucast (sd_sector_size sd)" by (simp add: assms(6,7) dir_slot_def SECTOR_SIZE_def)
  from sd_blk.mount_ok [OF io assms(2-5) this assms(8), of jf] obtain io1 m1 where
    mt: "initialize_fat32 (sd_ops bus) jf fat io sd m = Some (0, C, io1, m1)"
    "io_ok (sd_ok V n bus) (sd_sectors V) n io1 m1" "sd_sectors V m1 = ?s" "io_same_out io io1"
    by (auto simp: C_def)
  have new_C: "new_file C f l c = new_file ctx f l c" for l c by (simp add: new_file_def cluster_byte_def C_def)
  show ?thesis
  proof (cases "dir_lookup ?s base f")
    case (Some i)
    with creat_existing [OF Some, of "sd_ops bus" junk ctx "first_cluster jf" chain io1 m1] mt(1) show ?thesis by (simp add: C_def)
  next
    case None
    then have new: "fat32_file_exists C f = None" by (simp add: C_def mounted_exists)
    note len = assms(10) [unfolded assms(9)]
    obtain c where c: "fat32_get_next_cluster C = Some c" "c \<notin> set (concat (map chain files))" "2 \<le> c"
      "\<forall>d. 2 \<le> d \<and> d < c \<longrightarrow> d \<in> set (concat (map chain files))"
      using mounted_alloc(1) [OF len, of ctx "first_cluster jf"] by (auto simp: C_def assms(9))
    obtain l where l: "l \<le> 16" "fat32_get_next_root_dir_loc C = Some (of_nat l)" "l \<notin> set files" "\<forall>i < l. i \<in> set files"
      using mounted_alloc(2) [OF len, of ctx "first_cluster jf"] by (auto simp: C_def assms(9))
    have slot: "dir_slot C (of_nat l) = base + 32 * of_nat l" by (simp add: assms(7) dir_slot_def C_def)
    have "unat base + 32 * l < 2 ^ 32" using l(1) assms(3,11) by (simp add: io_addr_ok_def)
    then have "unat (base + 32 * of_nat l) = unat base + 32 * l" using unat_add_of_nat [of base "32 * l"] by simp
    then have rng: "unat (dir_slot C (of_nat l)) + 32 \<le> e" using l(1) assms(11) by (simp add: slot)
    have pend: "io_pending io1 (sd_sectors V m1) = io_pending io ?s"
      using mt(3,4) by (simp add: io_pending_def io_same_out_def)
    from sd_blk.creat_new_ok [OF mt(2) new l(2) c(1) rng assms(3,12)] obtain io2 m2 where
      "fat32_creat_file (sd_ops bus) junk C f io1 m1 = Some (0, new_file ctx f (of_nat l) c, io2, m2)"
      "io_pending io2 (sd_sectors V m2) = disk_puts (base + 32 * of_nat l) (entry_bytes (new_entry f c)) (io_pending io ?s)"
      unfolding slot new_C pend by blast
    with l(1,3,4) c(2-4) have "\<exists>l c io2 m2. l \<notin> set files \<and> (\<forall>i < l. i \<in> set files) \<and> l \<le> 16 \<and>
         c \<notin> set (concat (map chain files)) \<and> 2 \<le> c \<and> (\<forall>d. 2 \<le> d \<and> d < c \<longrightarrow> d \<in> set (concat (map chain files))) \<and>
         fat32_creat_file (sd_ops bus) junk C f io1 m1 = Some (0, new_file ctx f (of_nat l) c, io2, m2) \<and>
         io_pending io2 (sd_sectors V m2) = disk_puts (base + 32 * of_nat l) (entry_bytes (new_entry f c)) (io_pending io ?s)"
      by blast
    with mt(1) None show ?thesis by auto
  qed
qed

text \<open>A volume like the one above, with a deleted slot, a file \<open>LOG.TXT\<close> of three bytes, a slot of a long name
  and an empty file \<open>A.B\<close> in its root directory. The entry of \<open>LOG.TXT\<close> has cluster 3, so its chain is read
  from 5: it goes to 7 and ends. An empty file has cluster 0, so its chain is read from 2: it is the directory's own.\<close>

definition dir_name :: "string \<Rightarrow> u8 list" where
  "dir_name s = map of_char s"

definition demo_slots :: "u8 list list" where
  "demo_slots =
    [0xE5 # replicate 31 0,
     dir_name ''LOG     TXT'' @ replicate 15 0 @ [3, 0, 3, 0, 0, 0],
     dir_name ''LONGNAME   '' @ 0x0F # replicate 20 0,
     dir_name ''A       B  '' @ replicate 15 0 @ replicate 6 0]"

definition files_mem :: "u32 \<Rightarrow> u8 list" where
  "files_mem a =
    (if a = 6 then concat demo_slots @ replicate 384 0
     else if a = 3 then replicate 20 0xFF @ [7, 0, 0, 0] @ replicate 488 0xFF
     else mount_mem a)"

definition files_chain :: "nat \<Rightarrow> u32 list" where
  "files_chain i = (if i = 1 then [5, 7] else [2])"

lemma demo_slots_len: "i < 4 \<Longrightarrow> length (demo_slots ! i) = 32"
  by (auto simp: demo_slots_def dir_name_def eval_nat_numeral less_Suc_eq)

lemma length_files_mem [simp]: "length (files_mem a) = 512"
  by (simp add: files_mem_def demo_slots_def dir_name_def)

text \<open>A run of bytes inside one sector is a slice of it.\<close>

lemma disk_bytes_sector:
  assumes "unat x mod 512 + k \<le> 512" and "length (s (drop_bit 9 x)) = 512"
  shows "disk_bytes s x k = slice (unat x mod 512) k (s (drop_bit 9 x))"
proof (rule nth_equalityI)
  show "length (disk_bytes s x k) = length (slice (unat x mod 512) k (s (drop_bit 9 x)))" using assms by simp
  fix i assume "i < length (disk_bytes s x k)"
  then have i: "i < k" by simp
  have lt: "unat x + i < 2 ^ 32"
  proof -
    have "unat x < 8388608 * 512" using unsigned_less [of x] by simp
    then have "unat x div 512 < 8388608" by (rule less_mult_imp_div_less)
    with assms(1) i mult_div_mod_eq [of 512 "unat x"] have "unat x + i < 8388608 * 512" by linarith
    then show ?thesis by simp
  qed
  then have u: "unat (x + of_nat i) = unat x + i" by (rule unat_add_of_nat)
  have "unat x + i = (unat x mod 512 + i) + unat x div 512 * 512" using div_mult_mod_eq [of "unat x" 512] by linarith
  moreover have "unat x mod 512 + i < 512" using assms(1) i by linarith
  ultimately have d: "(unat x + i) div 512 = unat x div 512" "(unat x + i) mod 512 = unat x mod 512 + i"
    by (simp_all only: div_mult_self1 mod_mult_self1 div_less mod_less add_0_right zero_neq_numeral)
  have "drop_bit 9 (x + of_nat i) = drop_bit 9 x"
    by (simp only: word_unat_eq_iff unat_sector u d)
  then show "disk_bytes s x k ! i = slice (unat x mod 512) k (s (drop_bit 9 x)) ! i"
    using i assms by (simp add: disk_bytes_def disk_byte_def sector_div sector_off u d slice_def)
qed

lemma files_slots:
  "disk_bytes files_mem 0xC00 32 = demo_slots ! 0" "disk_bytes files_mem 0xC20 32 = demo_slots ! 1"
  "disk_bytes files_mem 0xC40 32 = demo_slots ! 2" "disk_bytes files_mem 0xC60 32 = demo_slots ! 3"
  by (simp_all add: disk_bytes_sector drop_bit_eq_div) (simp_all add: files_mem_def demo_slots_def dir_name_def slice_def)

lemma files_bytes:
  "disk_byte files_mem 0xC00 = 0xE5" "disk_byte files_mem 0xC20 = 76" "disk_byte files_mem 0xC40 = 76"
  "disk_byte files_mem 0xC60 = 65" "disk_byte files_mem 0xC80 = 0"
  by (simp_all add: disk_byte_def files_mem_def demo_slots_def dir_name_def nth_append)

lemma files_dir:
  "dir_files files_mem 0xC00 [0..<16] = [1, 3]" "dir_reads files_mem 0xC00 [0..<16] = 5"
proof -
  have o: "dir_open files_mem 0xC00 0" "dir_open files_mem 0xC00 1" "dir_open files_mem 0xC00 2"
    "dir_open files_mem 0xC00 3" "\<not> dir_open files_mem 0xC00 4"
    by (simp_all add: dir_open_def files_bytes)
  have l: "\<not> dir_live files_mem 0xC00 0" "dir_live files_mem 0xC00 1" "\<not> dir_live files_mem 0xC00 2"
    "dir_live files_mem 0xC00 3"
    by (simp_all add: dir_live_def files_bytes dir_entry_def files_slots demo_slots_def dir_name_def entry_of_def nth_append)
  have "[0..<16] = 0 # 1 # 2 # 3 # 4 # [5..<16]" by (simp add: upt_conv_Cons)
  with o l show "dir_files files_mem 0xC00 [0..<16] = [1, 3]" "dir_reads files_mem 0xC00 [0..<16] = 5"
    by (simp_all add: dir_files_def dir_used_def dir_reads_def)
qed

lemma files_entries:
  "entry_cluster (dir_entry files_mem 0xC00 1) = 3" "entry_cluster (dir_entry files_mem 0xC00 3) = 0"
  "e_file_size (dir_entry files_mem 0xC00 1) = 3"
  "e_filename (dir_entry files_mem 0xC00 1) = dir_name ''LOG     ''"
  "e_filename_ext (dir_entry files_mem 0xC00 1) = dir_name ''TXT''"
  "e_filename (dir_entry files_mem 0xC00 3) = dir_name ''A       ''"
  by (simp_all add: dir_entry_def files_slots demo_slots_def entry_of_def entry_cluster_def dir_name_def slice_def
      rd16_def le16_def rd32_def le32_def nth_append)

text \<open>The geometry of the volume is the one of the empty volume above.\<close>

lemma files_sectors: "files_mem a = (if a = 6 \<or> a = 3 then files_mem a else mount_mem a)"
  by (simp add: files_mem_def)

lemma files_partition: "fat_partition files_mem = mount_part" "fat_boot files_mem = mount_boot"
proof -
  have b: "disk_bytes files_mem 0x1BE 16 = disk_bytes mount_mem 0x1BE 16"
    "disk_bytes files_mem 512 512 = disk_bytes mount_mem 512 512"
    by (simp_all add: disk_bytes_sector drop_bit_eq_div) (simp_all add: files_mem_def)
  then show p: "fat_partition files_mem = mount_part" by (simp add: fat_partition_def mount_part_def)
  show "fat_boot files_mem = mount_boot" using b by (simp add: fat_boot_def p mount_part_fields mount_boot_def)
qed

definition files_ctx :: fat32_ctx where
  "files_ctx = fat_geometry demo_ctx files_mem"

lemma files_ctx_fields: "root_dir_sector files_ctx = 6" "fat_begin_sector files_ctx = 3" "dir_slot files_ctx 0 = 0xC00"
  by (simp_all add: files_ctx_def fat_geometry_def files_partition mount_root dir_slot_def SECTOR_SIZE_def)
    (simp add: fat32_set_context_def fat32_set_partition_def mount_boot_fields mount_part_fields Let_def)

lemma files_cells:
  "fat_cell files_ctx files_mem 5 = 7" "fat_cell files_ctx files_mem 7 = 0xFFFFFFFF" "fat_cell files_ctx files_mem 2 = 0xFFFFFFFF"
proof -
  have "disk_bytes files_mem 0x614 4 = [7, 0, 0, 0]" "disk_bytes files_mem 0x61C 4 = replicate 4 0xFF"
    "disk_bytes files_mem 0x608 4 = replicate 4 0xFF"
    by (simp_all add: disk_bytes_sector drop_bit_eq_div) (simp_all add: files_mem_def slice_def)
  then show "fat_cell files_ctx files_mem 5 = 7" "fat_cell files_ctx files_mem 7 = 0xFFFFFFFF"
    "fat_cell files_ctx files_mem 2 = 0xFFFFFFFF"
    by (simp_all add: fat_cell_def fat_cell_addr_def files_ctx_fields SECTOR_SIZE_BYTES_def rd32_def le32_def)
qed

lemma files_volume: "volume_ok files_ctx files_mem 0xC00 5120 files_chain"
proof -
  have "fat_chain files_ctx files_mem [5, 7]" "fat_chain files_ctx files_mem [2]"
    by (simp_all add: files_cells fat_end_mark_def)
  moreover have "fat_in_range files_ctx 5120 d" if "d \<in> {5, 7, 2}" for d
    using that by (auto simp: fat_in_range_def fat_cell_addr_def files_ctx_fields SECTOR_SIZE_BYTES_def)
  ultimately show ?thesis
    by (simp add: volume_ok_def shifted_chains_def files_dir files_entries files_chain_def files_partition fat_type_ok_def
        mount_part_fields PARTITION_TYPE_FAT32_LBA_def fat_end_mark_def del: One_nat_def)
qed

definition files_sd :: sd_ctx where
  "files_sd = \<lparr>sd_type = 2, sd_status = 0, sd_sector_size = 512\<rparr>"

lemma files_start:
  "io_sd_ok sim_view 100 sim_bus (io_disk files_mem) (sim_disk files_mem)"
  "io_fresh (sd_sectors sim_view) (io_disk files_mem) (sim_disk files_mem)"
  "io_addr_ok 100 5120" "sd_status files_sd \<noteq> SD_DISABLED" "sd_sector_size files_sd = 512"
  "files_ctx = fat_geometry demo_ctx (sd_sectors sim_view (sim_disk files_mem))"
  "sd_sectors sim_view (sim_disk files_mem) = files_mem"
  by (simp_all add: sim_disk_ok sim_disk_fresh io_addr_ok_def files_sd_def SD_DISABLED_def sim_disk_sectors files_ctx_def)

theorem initialize_fat32_lists_witness:
  "\<exists>ctx io' m'. initialize_fat32 (sd_ops sim_bus) (demo_file [] [] []) demo_ctx (io_disk files_mem) files_sd (sim_disk files_mem) =
      Some (0, ctx, io', m') \<and>
    map file_name (root_dir_entries ctx) = [dir_name ''LOG     '', dir_name ''A       ''] \<and>
    map fat_list (root_dir_entries ctx) = [[5, 7], [2]] \<and> map root_dir_offset (root_dir_entries ctx) = [1, 3]"
proof -
  have base: "0xC00 = root_dir_sector files_ctx * ucast (sd_sector_size files_sd)" by (simp add: files_ctx_fields files_sd_def)
  have v: "volume_ok files_ctx (sd_sectors sim_view (sim_disk files_mem)) 0xC00 5120 files_chain"
    using files_volume by (simp only: files_start(7))
  have n: "c_strncpy 8 (dir_name ''LOG     '') = dir_name ''LOG     ''" "c_strncpy 8 (dir_name ''A       '') = dir_name ''A       ''"
    by code_simp+
  from initialize_fat32_lists [OF files_start(1-4) files_start(6) base v, of "demo_file [] [] []"]
  show ?thesis unfolding files_start(7)
    by (auto simp: root_listing_def files_dir dir_file_def files_entries files_chain_def n simp del: One_nat_def)
qed

lemma files_lookup:
  "dir_lookup files_mem 0xC00 (demo_file (dir_name ''LOG     '') (dir_name ''TXT'') []) = Some 1"
  "dir_lookup files_mem 0xC00 (demo_file (dir_name ''NEW     '') (dir_name ''TXT'') []) = None"
proof -
  have n: "c_strncmp_eq 8 (dir_name ''LOG     '') (dir_name ''LOG     '')" "c_strncmp_eq 3 (dir_name ''TXT'') (dir_name ''TXT'')"
    "\<not> c_strncmp_eq 8 (dir_name ''LOG     '') (dir_name ''NEW     '')" "\<not> c_strncmp_eq 8 (dir_name ''A       '') (dir_name ''NEW     '')"
    by code_simp+
  show "dir_lookup files_mem 0xC00 (demo_file (dir_name ''LOG     '') (dir_name ''TXT'') []) = Some 1"
    "dir_lookup files_mem 0xC00 (demo_file (dir_name ''NEW     '') (dir_name ''TXT'') []) = None"
    by (simp_all add: dir_lookup_def files_dir files_entries demo_file_def n del: One_nat_def)
qed

theorem fat32_mount_creat_witness:
  "\<exists>ctx io1 m1 f io2 m2.
    initialize_fat32 (sd_ops sim_bus) (demo_file [] [] []) demo_ctx (io_disk files_mem) files_sd (sim_disk files_mem) = Some (0, ctx, io1, m1) \<and>
    fat32_creat_file (sd_ops sim_bus) (\<lambda>_. 0) ctx (demo_file (dir_name ''LOG     '') (dir_name ''TXT'') []) io1 m1 = Some (0, f, io1, m1) \<and>
    file_size f = 3 \<and> fat_list f = [5, 7] \<and> current_cluster f = 5 \<and>
    fat32_creat_file (sd_ops sim_bus) (\<lambda>_. 0) ctx (demo_file (dir_name ''NEW     '') (dir_name ''TXT'') []) io1 m1 =
      Some (0, new_file files_ctx (demo_file (dir_name ''NEW     '') (dir_name ''TXT'') []) 0 3, io2, m2) \<and>
    io_pending io2 (sd_sectors sim_view m2) =
      disk_puts 0xC00 (entry_bytes (new_entry (demo_file (dir_name ''NEW     '') (dir_name ''TXT'') []) 3)) files_mem \<and>
    entry_cluster (dir_entry files_mem 0xC00 1) = 3"
proof -
  let ?J = "demo_file [] [] []" and ?log = "demo_file (dir_name ''LOG     '') (dir_name ''TXT'') []"
  let ?new = "demo_file (dir_name ''NEW     '') (dir_name ''TXT'') []"
  have v: "volume_ok files_ctx (sd_sectors sim_view (sim_disk files_mem)) 0xC00 5120 files_chain"
    using files_volume by (simp only: files_start(7))
  have fs: "[1, 3] = dir_files (sd_sectors sim_view (sim_disk files_mem)) 0xC00 [0..<16]" by (simp only: files_start(7) files_dir)
  have base: "0xC00 = dir_slot files_ctx 0" by (simp only: files_ctx_fields)
  have r: "length (concat (map files_chain [1, 3])) < 2 ^ 32 - 2" "unat (0xC00 :: u32) + 32 * 17 \<le> 5120"
    by (simp_all add: files_chain_def)
  note mc = fat32_mount_creat [OF files_start(1-4,6,5) base v fs r, of "\<lambda>_. 0" ?J]
  have cl: "set (concat (map files_chain [1, 3])) = {5, 7, 2}" by (auto simp: files_chain_def)
  have p: "io_pending (io_disk files_mem) files_mem = files_mem" using sim_disk_pending [of files_mem] by (simp add: files_start(7))
  obtain ctx io1 m1 where 1: "initialize_fat32 (sd_ops sim_bus) ?J demo_ctx (io_disk files_mem) files_sd (sim_disk files_mem) = Some (0, ctx, io1, m1)"
    "fat32_creat_file (sd_ops sim_bus) (\<lambda>_. 0) ctx ?log io1 m1 =
      Some (0, reopened files_ctx ?log (dir_entry files_mem 0xC00 1) 1 (files_chain 1), io1, m1)"
    using mc [of ?log] by (auto simp: files_start(7) files_lookup simp del: One_nat_def)
  obtain l c io2 m2 where 2: "l \<notin> {1, 3}" "\<forall>i < l. i \<in> {1, 3}" "c \<notin> {5, 7, 2}" "2 \<le> c" "\<forall>d. 2 \<le> d \<and> d < c \<longrightarrow> d \<in> {5, 7, 2}"
    "fat32_creat_file (sd_ops sim_bus) (\<lambda>_. 0) ctx ?new io1 m1 = Some (0, new_file files_ctx ?new (of_nat l) c, io2, m2)"
    "io_pending io2 (sd_sectors sim_view m2) = disk_puts (0xC00 + 32 * of_nat l) (entry_bytes (new_entry ?new c)) files_mem"
    using mc [of ?new] 1(1) unfolding cl by (auto simp: files_start(7) files_lookup p simp del: One_nat_def)
  have "file_size (reopened files_ctx ?log (dir_entry files_mem 0xC00 1) 1 (files_chain 1)) = 3"
    "fat_list (reopened files_ctx ?log (dir_entry files_mem 0xC00 1) 1 (files_chain 1)) = [5, 7]"
    "current_cluster (reopened files_ctx ?log (dir_entry files_mem 0xC00 1) 1 (files_chain 1)) = 5"
    by (simp_all add: reopened_def files_entries files_chain_def del: One_nat_def)
  moreover have "l = 0" using 2(2) by (cases l) auto
  moreover have "c = 3"
  proof (rule ccontr)
    assume "c \<noteq> 3"
    moreover have "c \<noteq> 2" using 2(3) by simp
    ultimately have lt: "(3 :: u32) < c" using 2(4) by (simp add: word_less_nat_alt word_le_nat_alt word_unat_eq_iff)
    have "(3 :: u32) \<in> {5, 7, 2}" by (rule mp [OF spec [OF 2(5), of 3]]) (simp add: lt)
    then show False by simp
  qed
  ultimately show ?thesis using 1 2(6,7) files_entries(1) by (auto simp del: One_nat_def)
qed

end
