(* ===== verification/Sd_Boot.thy ===== *)
theory Sd_Boot
  imports Sd_Card
begin

text \<open>
  Initialisation against a card: the answers of a version 2 card, from power-up, to the commands of
  \<open>initialize_sd\<close>. Nothing is asked of the block commands of a card that is not initialised (\<open>card_conforms\<close>
  speaks of ready cards only); the lemmas lead to a call that succeeds and makes the card ready.
\<close>

section \<open>The card at power-up\<close>

text \<open>A command frame sent to a card whose phase satisfies \<open>pre\<close> is answered, after at most six filler
  bytes, by the response \<open>r\<close> and the bytes \<open>rest\<close>, and leaves the card in the phase \<open>ph\<close>; \<open>post\<close> relates them.
  Sectors and registers do not change.\<close>

definition boot_replies ::
  "('c \<Rightarrow> 'x card_scheme) \<Rightarrow> 'c spi_bus \<Rightarrow> u8 \<Rightarrow> u32 \<Rightarrow> u8 \<Rightarrow> (card_phase \<Rightarrow> bool) \<Rightarrow>
    ('x card_scheme \<Rightarrow> u8 \<Rightarrow> u8 list \<Rightarrow> card_phase \<Rightarrow> bool) \<Rightarrow> bool" where
  "boot_replies V bus cmd arg crc pre post \<longleftrightarrow> (\<forall>k g c.
     spi_on k \<and> sd_selected g \<and> cd_pend (V c) = [] \<and> pre (cd_phase (V c)) \<longrightarrow>
     (\<exists>c' ph pad r rest. bus_send bus k g (sd_frame cmd arg crc) c = Some c' \<and>
        V c' = (V c)\<lparr>cd_phase := ph, cd_pend := pad @ r # rest\<rparr> \<and> card_quiet ph \<and>
        (\<forall>b \<in> set pad. b AND RET_MSB_MASK = RET_MSB_MASK) \<and> length pad \<le> 6 \<and>
        r AND RET_MSB_MASK \<noteq> RET_MSB_MASK \<and> post (V c) r rest ph))"

text \<open>While it is not selected a card between two commands does not see the clock.\<close>

definition boot_deselected :: "('c \<Rightarrow> 'x card_scheme) \<Rightarrow> 'c spi_bus \<Rightarrow> bool" where
  "boot_deselected V bus \<longleftrightarrow> (\<forall>k g c. spi_on k \<and> \<not> sd_selected g \<and> card_quiet (cd_phase (V c)) \<longrightarrow>
     (\<exists>b c'. bus_xfer bus k g 0xFF c = Some (b, c') \<and> V c' = V c))"

fun in_boot :: "card_phase \<Rightarrow> bool" where
  "in_boot (Card_boot k app) \<longleftrightarrow> True"
| "in_boot _ \<longleftrightarrow> False"

fun boot_wait_left :: "card_phase \<Rightarrow> nat" where
  "boot_wait_left (Card_boot k app) = k"
| "boot_wait_left _ = 0"

text \<open>The responses, with the bit of the idle state (1) as long as the card initialises. CMD0, in any phase,
  resets the card, which will then answer at most eight ACMD41 as busy; CMD8 echoes the check pattern; CMD55
  announces an application command; ACMD41 counts down, and its last answer makes the card ready; CMD58
  reads the operating conditions of a ready card.\<close>

definition card_boots :: "('c \<Rightarrow> 'x card_scheme) \<Rightarrow> 'c spi_bus \<Rightarrow> bool" where
  "card_boots V bus \<longleftrightarrow> boot_deselected V bus \<and>
     boot_replies V bus (0x40 OR 0) 0 0x95 card_quiet (\<lambda>C r rest ph. r = 1 \<and> rest = [] \<and> (\<exists>k \<le> 8. ph = Card_boot k False)) \<and>
     boot_replies V bus CMD8 (bind_args NOARG NOARG 1 CMD8_RESPONSE_PATTERN) CMD8_CRC in_boot
       (\<lambda>C r rest ph. r = 1 \<and> length rest = 4 \<and> rest ! 3 = CMD8_RESPONSE_PATTERN \<and>
          ph = Card_boot (boot_wait_left (cd_phase C)) False) \<and>
     boot_replies V bus CMD55 (bind_args NOARG NOARG NOARG NOARG) NOCRC in_boot
       (\<lambda>C r rest ph. r = 1 \<and> rest = [] \<and> ph = Card_boot (boot_wait_left (cd_phase C)) True) \<and>
     boot_replies V bus ACMD41 (bind_args SDHC_HIGH_SPEED_FLAG NOARG NOARG NOARG) NOCRC (\<lambda>ph. \<exists>k. ph = Card_boot k True)
       (\<lambda>C r rest ph. rest = [] \<and>
          (if boot_wait_left (cd_phase C) = 0 then r = 0 \<and> ph = Card_idle
           else r = 1 \<and> ph = Card_boot (boot_wait_left (cd_phase C) - 1) False)) \<and>
     boot_replies V bus CMD58 (bind_args NOARG NOARG NOARG NOARG) NOCRC (\<lambda>ph. ph = Card_idle)
       (\<lambda>C r rest ph. r = 0 \<and> rest = cd_ocr C \<and> length rest = 4 \<and> ph = Card_idle)"

section \<open>Commands\<close>

text \<open>The machine between two commands: the controller is on, the card is in no transfer and has nothing to say.\<close>

definition boot_at :: "('c \<Rightarrow> 'x card_scheme) \<Rightarrow> nat \<Rightarrow> 'c spi_bus \<Rightarrow> 'x card_scheme \<Rightarrow> 'c mcu \<Rightarrow> bool" where
  "boot_at V n bus C m \<longleftrightarrow> card_conforms V n bus \<and> card_boots V bus \<and> spi_on (m_spcr m) \<and> V (m_dev m) = C \<and>
     card_quiet (cd_phase C) \<and> cd_pend C = []"

lemma quiet_polls: "card_quiet ph \<Longrightarrow> ph \<noteq> Card_other"
  by auto

lemma boot_lines:
  assumes "card_lines V bus" and "card_quiet (cd_phase (V c))" and "cd_pend (V c) = []"
  shows "V (bus_lines bus g c) = V c"
proof -
  have "(V c)\<lparr>cd_pend := []\<rparr> = V c" using assms(3) by (rule card_pend_same)
  moreover have "V (bus_lines bus g c) = V c \<or> V (bus_lines bus g c) = (V c)\<lparr>cd_pend := []\<rparr>"
    using assms(1,2) unfolding card_lines_def by blast
  ultimately show ?thesis by auto
qed

lemma boot_enable:
  assumes "boot_at V n bus C m"
  shows "boot_at V n bus C (snd (spi_device_enable bus SPI_SD_CARD m)) \<and> sd_at V bus C (snd (spi_device_enable bus SPI_SD_CARD m))"
proof -
  obtain g1 g2 g3 where m': "snd (spi_device_enable bus SPI_SD_CARD m) =
     m\<lparr>m_gpio := g3, m_dev := bus_lines bus g3 (bus_lines bus g2 (bus_lines bus g1 (m_dev m)))\<rparr>" "sd_selected g3"
    using spi_enable_sd [of bus m] by auto
  have l: "card_lines V bus" and p: "card_polls V bus" using assms by (simp_all add: boot_at_def card_conforms_def)
  have i: "card_quiet (cd_phase (V (m_dev m)))" "cd_pend (V (m_dev m)) = []" "V (m_dev m) = C"
    using assms by (auto simp: boot_at_def)
  have "V (bus_lines bus g3 (bus_lines bus g2 (bus_lines bus g1 (m_dev m)))) = C"
    using boot_lines [OF l] i by metis
  then show ?thesis using assms m' p by (simp add: boot_at_def sd_at_def)
qed

lemma boot_command:
  assumes at: "boot_at V n bus C m" and rep: "boot_replies V bus cmd arg crc pre post" and pre: "pre (cd_phase C)"
  shows "\<exists>m' ph r rest. sd_command0 bus cmd arg crc m = Some (r, m') \<and> sd_at V bus (C\<lparr>cd_phase := ph, cd_pend := rest\<rparr>) m' \<and>
    card_quiet ph \<and> post C r rest ph \<and> r AND RET_MSB_MASK \<noteq> RET_MSB_MASK"
proof -
  let ?m = "snd (spi_device_enable bus SPI_SD_CARD m)"
  have e: "boot_at V n bus C ?m" "sd_at V bus C ?m" using boot_enable [OF at] by auto
  have "spi_on (m_spcr ?m) \<and> sd_selected (m_gpio ?m) \<and> cd_pend (V (m_dev ?m)) = [] \<and> pre (cd_phase (V (m_dev ?m)))"
    "V (m_dev ?m) = C"
    using e pre by (auto simp: boot_at_def sd_at_def)
  with rep obtain c' ph pad r rest where s: "bus_send bus (m_spcr ?m) (m_gpio ?m) (sd_frame cmd arg crc) (m_dev ?m) = Some c'"
    "V c' = C\<lparr>cd_phase := ph, cd_pend := pad @ r # rest\<rparr>" "card_quiet ph"
    "\<forall>b \<in> set pad. b AND RET_MSB_MASK = RET_MSB_MASK" "length pad \<le> 6" "r AND RET_MSB_MASK \<noteq> RET_MSB_MASK" "post C r rest ph"
    unfolding boot_replies_def by metis
  from sd_send_at [OF e(2) s(1,2)] have 1: "spi_send bus (sd_frame cmd arg crc) ?m = Some (?m\<lparr>m_dev := c'\<rparr>)"
    "sd_at V bus (C\<lparr>cd_phase := ph, cd_pend := pad @ r # rest\<rparr>) (?m\<lparr>m_dev := c'\<rparr>)" by auto
  have "length pad < MAX_CMD_TRIALS - 1" using s(5) by (simp add: MAX_CMD_TRIALS_def)
  from sd_resp_at [OF 1(2) _ _ s(4,6) this] quiet_polls [OF s(3)] obtain m' where
    "sd_resp (MAX_CMD_TRIALS - 1) bus (?m\<lparr>m_dev := c'\<rparr>) = Some (r, m')" "sd_at V bus (C\<lparr>cd_phase := ph, cd_pend := rest\<rparr>) m'" by auto
  with 1(1) s(3,6,7) show ?thesis
    by (intro exI [of _ m'] exI [of _ ph] exI [of _ r] exI [of _ rest]) (simp add: sd_command0_def sd_command_def)
qed

text \<open>Once the card has said everything the machine is between two commands again.\<close>

lemma boot_between:
  "\<lbrakk>boot_at V n bus C m; sd_at V bus C' m'; card_quiet (cd_phase C'); cd_pend C' = []\<rbrakk> \<Longrightarrow> boot_at V n bus C' m'"
  by (auto simp: boot_at_def sd_at_def)

lemma boot_said: "boot_at V n bus C m \<Longrightarrow> C\<lparr>cd_phase := ph, cd_pend := []\<rparr> = C\<lparr>cd_phase := ph\<rparr>"
  by (cases C) (simp add: boot_at_def)

text \<open>A command whose response has no further bytes.\<close>

lemma boot_short_command:
  assumes at: "boot_at V n bus C m" and rep: "boot_replies V bus cmd arg crc pre post" and pre: "pre (cd_phase C)"
    and short: "\<And>r rest ph. post C r rest ph \<Longrightarrow> rest = []"
  shows "\<exists>m' ph r. sd_command0 bus cmd arg crc m = Some (r, m') \<and> sd_at V bus (C\<lparr>cd_phase := ph\<rparr>) m' \<and>
    boot_at V n bus (C\<lparr>cd_phase := ph\<rparr>) m' \<and> post C r [] ph \<and> r AND RET_MSB_MASK \<noteq> RET_MSB_MASK"
proof -
  from boot_command [OF at rep pre] obtain m' ph r rest where
    1: "sd_command0 bus cmd arg crc m = Some (r, m')" "sd_at V bus (C\<lparr>cd_phase := ph, cd_pend := rest\<rparr>) m'"
      "card_quiet ph" "post C r rest ph" "r AND RET_MSB_MASK \<noteq> RET_MSB_MASK" by blast
  have rest: "rest = []" by (rule short [OF 1(4)])
  have a: "sd_at V bus (C\<lparr>cd_phase := ph\<rparr>) m'" using 1(2) boot_said [OF at] by (simp add: rest)
  have "cd_pend (C\<lparr>cd_phase := ph\<rparr>) = []" using at by (simp add: boot_at_def)
  with boot_between [OF at a] a 1(1,3-5) show ?thesis unfolding rest by auto
qed

lemma boot_wait:
  assumes "boot_at V n bus C m" and "sd_at V bus C m"
  shows "\<exists>m'. sd_wait_ready bus m = Some m' \<and> boot_at V n bus C m' \<and> sd_at V bus C m'"
proof -
  have i: "cd_phase C \<noteq> Card_other" "cd_pend C = []" using assms(1) by (auto simp: boot_at_def)
  from sd_wait_ready_short [OF assms(2)] i obtain m' where "sd_wait_ready bus m = Some m'" "sd_at V bus (C\<lparr>cd_pend := []\<rparr>) m'" by auto
  moreover have "C\<lparr>cd_pend := []\<rparr> = C" using i(2) by (rule card_pend_same)
  ultimately show ?thesis using assms(1) by (auto simp: boot_at_def sd_at_def)
qed

lemma sd_read_list_idle:
  assumes "sd_at V bus C m" and "cd_phase C \<noteq> Card_other" and "cd_pend C = []"
  shows "\<exists>m'. sd_read_list k bus m = Some (replicate k 0xFF, m') \<and> sd_at V bus C m'"
  using assms
proof (induction k arbitrary: m)
  case (Suc k)
  from sd_read_idle [OF Suc.prems] obtain m1 where "spi_read_char bus m = Some (0xFF, m1)" "sd_at V bus C m1" by auto
  with Suc show ?case by fastforce
qed simp

lemma sd_read_list_append:
  "sd_read_list (j + k) bus m = do { (xs, m) \<leftarrow> sd_read_list j bus m; (ys, m) \<leftarrow> sd_read_list k bus m; Some (xs @ ys, m) }"
  by (induction j arbitrary: m) (simp_all split: bind_splits)

text \<open>The eight bytes read after a response with four.\<close>

lemma boot_response_bytes:
  assumes "sd_at V bus (C\<lparr>cd_pend := rest\<rparr>) m" and "card_quiet (cd_phase C)" and "length rest = 4"
  shows "\<exists>m'. sd_get_bytes bus CMD_RESP_BYTES (replicate CMD_RESP_BYTES 0) m = Some (rest @ replicate 4 0xFF, m') \<and>
    sd_at V bus (C\<lparr>cd_pend := []\<rparr>) m'"
proof -
  note q = quiet_polls [OF assms(2)]
  from sd_read_list_at [OF assms(1), of rest "[]"] q obtain m1 where
    1: "sd_read_list 4 bus m = Some (rest, m1)" "sd_at V bus (C\<lparr>cd_pend := []\<rparr>) m1" using assms(3) by auto
  from sd_read_list_idle [OF 1(2), of 4] q obtain m2 where
    "sd_read_list 4 bus m1 = Some (replicate 4 0xFF, m2)" "sd_at V bus (C\<lparr>cd_pend := []\<rparr>) m2" by auto
  with 1(1) sd_read_list_append [of 4 4 bus m] show ?thesis
    by (simp add: sd_get_bytes_def CMD_RESP_BYTES_def)
qed

text \<open>A command whose response has four further bytes, and the read of them.\<close>

lemma boot_long_command:
  assumes at: "boot_at V n bus C m" and rep: "boot_replies V bus cmd arg crc pre post" and pre: "pre (cd_phase C)"
    and long: "\<And>r rest ph. post C r rest ph \<Longrightarrow> length rest = 4"
  shows "\<exists>m1 m' ph r rest. sd_command0 bus cmd arg crc m = Some (r, m1) \<and>
    sd_get_bytes bus CMD_RESP_BYTES (replicate CMD_RESP_BYTES 0) m1 = Some (rest @ replicate 4 0xFF, m') \<and>
    boot_at V n bus (C\<lparr>cd_phase := ph\<rparr>) m' \<and> post C r rest ph"
proof -
  from boot_command [OF at rep pre] obtain m1 ph r rest where
    1: "sd_command0 bus cmd arg crc m = Some (r, m1)" "sd_at V bus (C\<lparr>cd_phase := ph, cd_pend := rest\<rparr>) m1"
      "card_quiet ph" "post C r rest ph" by blast
  from boot_response_bytes [where C = "C\<lparr>cd_phase := ph\<rparr>", of V bus rest m1] 1(2,3) long [OF 1(4)] obtain m' where
    2: "sd_get_bytes bus CMD_RESP_BYTES (replicate CMD_RESP_BYTES 0) m1 = Some (rest @ replicate 4 0xFF, m')"
      "sd_at V bus (C\<lparr>cd_phase := ph, cd_pend := []\<rparr>) m'" by auto
  have "boot_at V n bus (C\<lparr>cd_phase := ph\<rparr>) m'"
    using boot_between [OF at 2(2)] 1(3) at by (simp add: boot_said [OF at] boot_at_def [of V n bus C m])
  with 1(1,4) 2(1) show ?thesis by blast
qed

section \<open>The steps of the initialisation\<close>

lemma boot_wake_up:
  assumes "boot_at V n bus C m"
  shows "\<exists>m'. sd_wake_up bus m = Some (0, m') \<and> boot_at V n bus C m'"
proof -
  obtain g where d: "spi_device_disable bus SPI_SD_CARD m = (0, m\<lparr>m_gpio := g, m_dev := bus_lines bus g (m_dev m)\<rparr>)"
    "bit (port_out g PORTB) 4"
    using spi_disable_sd [of bus m] by auto
  let ?m = "m\<lparr>m_gpio := g, m_dev := bus_lines bus g (m_dev m)\<rparr>"
  have l: "card_lines V bus" using assms by (simp add: boot_at_def card_conforms_def)
  have "V (bus_lines bus g (m_dev m)) = C" using boot_lines [OF l, of "m_dev m" g] assms by (simp add: boot_at_def)
  then have at: "boot_at V n bus C ?m" using assms by (simp add: boot_at_def)
  have off: "\<not> sd_selected (m_gpio ?m)" using d(2) by (simp add: sd_selected_def)
  have "\<exists>m'. spi_send bus (replicate k 0xFF) m = Some m' \<and> boot_at V n bus C m'"
    if "boot_at V n bus C m" "\<not> sd_selected (m_gpio m)" for k m
    using that
  proof (induction k arbitrary: m)
    case (Suc k)
    have "boot_deselected V bus" "spi_on (m_spcr m)" "card_quiet (cd_phase (V (m_dev m)))"
      using Suc.prems(1) by (auto simp: boot_at_def card_boots_def)
    then obtain b c' where c: "bus_xfer bus (m_spcr m) (m_gpio m) 0xFF (m_dev m) = Some (b, c')" "V c' = V (m_dev m)"
      using Suc.prems(2) unfolding boot_deselected_def by blast
    then have "boot_at V n bus C (m\<lparr>m_dev := c'\<rparr>)" using Suc.prems(1) by (simp add: boot_at_def)
    with Suc.IH [of "m\<lparr>m_dev := c'\<rparr>"] Suc.prems(2) c(1) show ?case by (simp add: spi_write_char_def)
  qed simp
  from this [OF at off, of 10] d(1) show ?thesis by (auto simp: sd_wake_up_def)
qed

lemma boot_cmd0:
  assumes at: "boot_at V n bus C m"
  shows "\<exists>k m'. sd_init_cmd0 bus m = Some (True, m') \<and> boot_at V n bus (C\<lparr>cd_phase := Card_boot k False\<rparr>) m' \<and> k \<le> 8"
proof -
  have rep: "boot_replies V bus (0x40 OR 0) 0 0x95 card_quiet (\<lambda>C r rest ph. r = 1 \<and> rest = [] \<and> (\<exists>k \<le> 8. ph = Card_boot k False))"
    and q: "card_quiet (cd_phase C)"
    using at by (simp_all add: boot_at_def card_boots_def)
  from boot_short_command [OF at rep q] obtain m1 k where
    1: "sd_command0 bus (0x40 OR 0) 0 0x95 m = Some (1, m1)" "sd_at V bus (C\<lparr>cd_phase := Card_boot k False\<rparr>) m1"
      "boot_at V n bus (C\<lparr>cd_phase := Card_boot k False\<rparr>) m1" "k \<le> 8" by auto
  from boot_wait [OF 1(3,2)] 1(1,4) show ?thesis
    by (auto simp: sd_init_cmd0_def MAX_CMD_TRIALS_def eval_nat_numeral R1_IDLE_STATE_def)
qed

lemma boot_cmd8:
  assumes at: "boot_at V n bus (C\<lparr>cd_phase := Card_boot k app\<rparr>) m"
  shows "\<exists>m'. sd_init_cmd8 bus sd m = Some (True, sd\<lparr>sd_type := SD_TYPE_2\<rparr>, m') \<and>
    boot_at V n bus (C\<lparr>cd_phase := Card_boot k False\<rparr>) m'"
proof -
  have rep: "boot_replies V bus CMD8 (bind_args NOARG NOARG 1 CMD8_RESPONSE_PATTERN) CMD8_CRC in_boot
       (\<lambda>C r rest ph. r = 1 \<and> length rest = 4 \<and> rest ! 3 = CMD8_RESPONSE_PATTERN \<and>
          ph = Card_boot (boot_wait_left (cd_phase C)) False)"
    using at by (simp add: boot_at_def card_boots_def)
  from boot_long_command [OF at rep] obtain m1 m2 rest where
    1: "sd_command0 bus CMD8 (bind_args NOARG NOARG 1 CMD8_RESPONSE_PATTERN) CMD8_CRC m = Some (1, m1)"
      "sd_get_bytes bus CMD_RESP_BYTES (replicate CMD_RESP_BYTES 0) m1 = Some (rest @ replicate 4 0xFF, m2)"
      "boot_at V n bus (C\<lparr>cd_phase := Card_boot k False\<rparr>) m2" "length rest = 4" "rest ! 3 = CMD8_RESPONSE_PATTERN" by auto
  have "(rest @ replicate 4 0xFF) ! 3 = CMD8_RESPONSE_PATTERN" using 1(4,5) by (simp add: nth_append)
  moreover have "R1_IDLE_STATE \<noteq> R1_IDLE_STATE OR R1_ILLEGAL_COMMAND" "R1_IDLE_STATE = 1"
    by (simp_all add: R1_IDLE_STATE_def R1_ILLEGAL_COMMAND_def)
  ultimately show ?thesis
    using 1(1-3) by (simp add: sd_init_cmd8_def MAX_CMD_TRIALS_def eval_nat_numeral Let_def del: replicate.simps)
qed

text \<open>One ACMD41: the card is ready after the last one.\<close>

definition boot_next :: "nat \<Rightarrow> card_phase" where
  "boot_next k = (if k = 0 then Card_idle else Card_boot (k - 1) False)"

lemma boot_acommand:
  assumes at: "boot_at V n bus (C\<lparr>cd_phase := Card_boot k app\<rparr>) m"
  shows "\<exists>m'. sd_acommand bus ACMD41 (bind_args SDHC_HIGH_SPEED_FLAG NOARG NOARG NOARG) NOCRC m =
      Some (if k = 0 then 0 else 1, m') \<and> boot_at V n bus (C\<lparr>cd_phase := boot_next k\<rparr>) m' \<and>
    sd_at V bus (C\<lparr>cd_phase := boot_next k\<rparr>) m'"
proof -
  have r55: "boot_replies V bus CMD55 (bind_args NOARG NOARG NOARG NOARG) NOCRC in_boot
       (\<lambda>C r rest ph. r = 1 \<and> rest = [] \<and> ph = Card_boot (boot_wait_left (cd_phase C)) True)"
    and r41: "boot_replies V bus ACMD41 (bind_args SDHC_HIGH_SPEED_FLAG NOARG NOARG NOARG) NOCRC (\<lambda>ph. \<exists>k. ph = Card_boot k True)
       (\<lambda>C r rest ph. rest = [] \<and>
          (if boot_wait_left (cd_phase C) = 0 then r = 0 \<and> ph = Card_idle
           else r = 1 \<and> ph = Card_boot (boot_wait_left (cd_phase C) - 1) False))"
    using at by (simp_all add: boot_at_def card_boots_def)
  from boot_short_command [OF at r55] obtain m1 where
    1: "sd_command0 bus CMD55 (bind_args NOARG NOARG NOARG NOARG) NOCRC m = Some (1, m1)"
      "sd_at V bus (C\<lparr>cd_phase := Card_boot k True\<rparr>) m1" "boot_at V n bus (C\<lparr>cd_phase := Card_boot k True\<rparr>) m1" by auto
  from boot_wait [OF 1(3,2)] obtain m2 where
    2: "sd_wait_ready bus m1 = Some m2" "boot_at V n bus (C\<lparr>cd_phase := Card_boot k True\<rparr>) m2" by auto
  from boot_short_command [OF 2(2) r41] obtain m3 ph r where
    3: "sd_command0 bus ACMD41 (bind_args SDHC_HIGH_SPEED_FLAG NOARG NOARG NOARG) NOCRC m2 = Some (r, m3)"
      "sd_at V bus (C\<lparr>cd_phase := ph\<rparr>) m3" "boot_at V n bus (C\<lparr>cd_phase := ph\<rparr>) m3"
      "if k = 0 then r = 0 \<and> ph = Card_idle else r = 1 \<and> ph = Card_boot (k - 1) False" by auto
  then show ?thesis
    using 1(1) 2(1) by (auto simp: sd_acommand_def boot_next_def R1_RESPONSE_ERR_def split: if_splits)
qed

lemma boot_acmd41_retry:
  "\<lbrakk>boot_at V n bus (C\<lparr>cd_phase := Card_boot k app\<rparr>) m; k \<le> j\<rbrakk> \<Longrightarrow>
    \<exists>m'. sd_retry j (sd_acommand bus ACMD41 (bind_args SDHC_HIGH_SPEED_FLAG NOARG NOARG NOARG) NOCRC) (sd_wait_ready bus)
        R1_READY_STATE m = Some (True, m') \<and>
      boot_at V n bus (C\<lparr>cd_phase := Card_idle\<rparr>) m' \<and> sd_at V bus (C\<lparr>cd_phase := Card_idle\<rparr>) m'"
proof (induction j arbitrary: k app m)
  case 0
  from boot_acommand [OF 0(1)] 0(2) show ?case by (auto simp: R1_READY_STATE_def boot_next_def)
next
  case (Suc j)
  from boot_acommand [OF Suc.prems(1)] obtain m1 where
    1: "sd_acommand bus ACMD41 (bind_args SDHC_HIGH_SPEED_FLAG NOARG NOARG NOARG) NOCRC m = Some (if k = 0 then 0 else 1, m1)"
      "boot_at V n bus (C\<lparr>cd_phase := boot_next k\<rparr>) m1" "sd_at V bus (C\<lparr>cd_phase := boot_next k\<rparr>) m1" by blast
  show ?case
  proof (cases "k = 0")
    case True
    with 1 show ?thesis by (auto simp: R1_READY_STATE_def boot_next_def)
  next
    case False
    then have n: "boot_next k = Card_boot (k - 1) False" "k - 1 \<le> j" using Suc.prems(2) by (simp_all add: boot_next_def)
    from boot_wait [OF 1(2,3)] obtain m2 where 2: "sd_wait_ready bus m1 = Some m2" "boot_at V n bus (C\<lparr>cd_phase := boot_next k\<rparr>) m2" by blast
    from Suc.IH [OF 2(2) [unfolded n(1)] n(2)] 1(1) 2(1) False show ?thesis by (simp add: R1_READY_STATE_def)
  qed
qed

lemma boot_acmd41:
  assumes at: "boot_at V n bus (C\<lparr>cd_phase := Card_boot k app\<rparr>) m" and k: "k \<le> 8" and ty: "sd_type sd = SD_TYPE_2"
  shows "\<exists>m'. sd_init_acmd41 bus sd m = Some (True, m') \<and> boot_at V n bus (C\<lparr>cd_phase := Card_idle\<rparr>) m'"
proof -
  from boot_acmd41_retry [OF at k] obtain m1 where
    1: "sd_retry 8 (sd_acommand bus ACMD41 (bind_args SDHC_HIGH_SPEED_FLAG NOARG NOARG NOARG) NOCRC) (sd_wait_ready bus)
        R1_READY_STATE m = Some (True, m1)" "boot_at V n bus (C\<lparr>cd_phase := Card_idle\<rparr>) m1"
      "sd_at V bus (C\<lparr>cd_phase := Card_idle\<rparr>) m1" by blast
  from boot_wait [OF 1(2,3)] 1(1) ty show ?thesis by (auto simp: sd_init_acmd41_def MAX_CMD_TRIALS_def)
qed

text \<open>The type that the operating conditions give.\<close>

definition ocr_type :: "u8 list \<Rightarrow> u8" where
  "ocr_type ocr = (if ocr ! 0 AND SDHC_OCR_MASK = SDHC_OCR_MASK then SD_TYPE_SDHC else SD_TYPE_2)"

lemma boot_cmd58:
  assumes at: "boot_at V n bus (C\<lparr>cd_phase := Card_idle\<rparr>) m" and ty: "sd_type sd = SD_TYPE_2"
  shows "\<exists>m'. sd_init_cmd58 bus sd m = Some (True, sd\<lparr>sd_type := ocr_type (cd_ocr C)\<rparr>, m') \<and>
    boot_at V n bus (C\<lparr>cd_phase := Card_idle\<rparr>) m'"
proof -
  have rep: "boot_replies V bus CMD58 (bind_args NOARG NOARG NOARG NOARG) NOCRC (\<lambda>ph. ph = Card_idle)
      (\<lambda>C r rest ph. r = 0 \<and> rest = cd_ocr C \<and> length rest = 4 \<and> ph = Card_idle)"
    using at by (simp add: boot_at_def card_boots_def)
  from boot_long_command [OF at rep] obtain m1 m2 where
    1: "sd_command0 bus CMD58 (bind_args NOARG NOARG NOARG NOARG) NOCRC m = Some (0, m1)"
      "sd_get_bytes bus CMD_RESP_BYTES (replicate CMD_RESP_BYTES 0) m1 = Some (cd_ocr C @ replicate 4 0xFF, m2)"
      "boot_at V n bus (C\<lparr>cd_phase := Card_idle\<rparr>) m2" "length (cd_ocr C) = 4" by auto
  have "sd\<lparr>sd_type := SD_TYPE_2\<rparr> = sd" using ty by (cases sd) simp
  moreover have "(cd_ocr C @ replicate 4 0xFF) ! 0 = cd_ocr C ! 0" using 1(4) by (simp add: nth_append)
  ultimately show ?thesis
    using 1(1-3) ty by (simp add: sd_init_cmd58_def MAX_CMD_TRIALS_def eval_nat_numeral R1_READY_STATE_def ocr_type_def del: replicate.simps)
qed

lemma initialize_sd_run:
  assumes at: "boot_at V n bus C m"
  shows "\<exists>m'. initialize_sd bus sd m = Some (0, \<lparr>sd_type = ocr_type (cd_ocr C), sd_status = SD_ENABLED, sd_sector_size = 512\<rparr>, m') \<and>
    sd_ok V n bus m' \<and> V (m_dev m') = C\<lparr>cd_phase := Card_idle\<rparr>"
proof -
  from boot_wake_up [OF at] obtain m1 where 1: "sd_wake_up bus m = Some (0, m1)" "boot_at V n bus C m1" by blast
  from boot_cmd0 [OF 1(2)] obtain k m2 where
    2: "sd_init_cmd0 bus m1 = Some (True, m2)" "boot_at V n bus (C\<lparr>cd_phase := Card_boot k False\<rparr>) m2" "k \<le> 8" by blast
  let ?sd = "sd\<lparr>sd_type := SD_TYPE_2\<rparr>"
  from boot_cmd8 [OF 2(2), of sd] obtain m3 where
    3: "sd_init_cmd8 bus sd m2 = Some (True, ?sd, m3)" "boot_at V n bus (C\<lparr>cd_phase := Card_boot k False\<rparr>) m3" by blast
  from boot_acmd41 [OF 3(2) 2(3), of ?sd] obtain m4 where
    4: "sd_init_acmd41 bus ?sd m3 = Some (True, m4)" "boot_at V n bus (C\<lparr>cd_phase := Card_idle\<rparr>) m4" by auto
  from boot_cmd58 [OF 4(2), of ?sd] obtain m5 where
    5: "sd_init_cmd58 bus ?sd m4 = Some (True, ?sd\<lparr>sd_type := ocr_type (cd_ocr C)\<rparr>, m5)"
      "boot_at V n bus (C\<lparr>cd_phase := Card_idle\<rparr>) m5" by auto
  have "sd_ok V n bus m5" "V (m_dev m5) = C\<lparr>cd_phase := Card_idle\<rparr>" using 5(2) by (auto simp: sd_ok_def boot_at_def)
  then show ?thesis
    using 1(1) 2(1) 3(1) 4(1) 5(1) by (cases sd) (auto simp: initialize_sd_def sd_init_sequence_def SECTOR_SIZE_def)
qed

section \<open>The simulated card\<close>

text \<open>Replies of the simulated card in a given state.\<close>

lemma sim_view_step:
  "\<lbrakk>sim_rx c = []; sim_data c = None\<rbrakk> \<Longrightarrow> sim_view (c\<lparr>sim_pend := bs, sim_st := st\<rparr>) =
    (sim_view c)\<lparr>cd_phase := (case st of Sim_power \<Rightarrow> Card_power | Sim_boot k app \<Rightarrow> Card_boot k app | Sim_ready \<Rightarrow> Card_idle), cd_pend := bs\<rparr>"
  by (simp add: sim_view_def sim_sect_def fun_eq_iff)

lemma sim_replies:
  assumes "cmd \<noteq> 0xFF" and pre: "\<And>ph. pre ph \<Longrightarrow> card_quiet ph"
    and step: "\<And>c. pre (cd_phase (sim_view c)) \<Longrightarrow> sim_rx c = [] \<Longrightarrow> sim_data c = None \<Longrightarrow>
      \<exists>r rest st. sim_reply c cmd arg = c\<lparr>sim_pend := 0xFF # r # rest, sim_st := st\<rparr> \<and> r AND RET_MSB_MASK \<noteq> RET_MSB_MASK \<and>
        post (sim_view c) r rest (case st of Sim_power \<Rightarrow> Card_power | Sim_boot k app \<Rightarrow> Card_boot k app | Sim_ready \<Rightarrow> Card_idle)"
  shows "boot_replies sim_view sim_bus cmd arg crc pre post"
proof (unfold boot_replies_def, intro allI impI)
  fix k g c
  assume a: "spi_on k \<and> sd_selected g \<and> cd_pend (sim_view c) = [] \<and> pre (cd_phase (sim_view c))"
  then have c: "sd_selected g" "sim_rx c = []" "sim_data c = None" using pre sim_quiet by blast+
  from step [of c] a c obtain r rest st where
    r: "sim_reply c cmd arg = c\<lparr>sim_pend := 0xFF # r # rest, sim_st := st\<rparr>" "r AND RET_MSB_MASK \<noteq> RET_MSB_MASK"
      "post (sim_view c) r rest (case st of Sim_power \<Rightarrow> Card_power | Sim_boot k app \<Rightarrow> Card_boot k app | Sim_ready \<Rightarrow> Card_idle)"
    by blast
  have "card_quiet (case st of Sim_power \<Rightarrow> Card_power | Sim_boot k app \<Rightarrow> Card_boot k app | Sim_ready \<Rightarrow> Card_idle)"
    by (cases st) simp_all
  with r sim_command [OF c assms(1), of k arg crc] sim_view_step [OF c(2,3)]
  show "\<exists>c' ph pad r rest. bus_send sim_bus k g (sd_frame cmd arg crc) c = Some c' \<and>
      sim_view c' = (sim_view c)\<lparr>cd_phase := ph, cd_pend := pad @ r # rest\<rparr> \<and> card_quiet ph \<and>
      (\<forall>b \<in> set pad. b AND RET_MSB_MASK = RET_MSB_MASK) \<and> length pad \<le> 6 \<and>
      r AND RET_MSB_MASK \<noteq> RET_MSB_MASK \<and> post (sim_view c) r rest ph"
    by (intro exI [of _ "sim_reply c cmd arg"] exI [of _ "case st of Sim_power \<Rightarrow> Card_power | Sim_boot k app \<Rightarrow> Card_boot k app | Sim_ready \<Rightarrow> Card_idle"]
        exI [of _ "[0xFF]"] exI [of _ r] exI [of _ rest]) (simp add: RET_MSB_MASK_def)
qed

lemmas sim_cmd_defs = CMD8_def CMD17_def CMD24_def CMD55_def CMD58_def ACMD41_def

lemma in_boot_quiet: "in_boot ph \<Longrightarrow> card_quiet ph"
  by (cases ph) simp_all

lemma sim_in_boot: "in_boot (cd_phase (sim_view c)) \<Longrightarrow> \<exists>k app. sim_st c = Sim_boot k app \<and> boot_wait_left (cd_phase (sim_view c)) = k"
  by (auto simp: sim_view_def split: if_splits option.splits sim_state.splits)

lemma sim_boots: "card_boots sim_view sim_bus"
proof -
  have "boot_deselected sim_view sim_bus"
    by (auto simp: boot_deselected_def sim_bus_def sim_xfer_def)
  moreover have "boot_replies sim_view sim_bus (0x40 OR 0) 0 0x95 card_quiet
      (\<lambda>C r rest ph. r = 1 \<and> rest = [] \<and> (\<exists>k \<le> 8. ph = Card_boot k False))"
  proof (rule sim_replies, goal_cases)
    case (3 c)
    show ?case
      by (intro exI [of _ 1] exI [of _ "[]"] exI [of _ "Sim_boot 2 False"]) (simp add: sim_reply_def RET_MSB_MASK_def)
  qed simp_all
  moreover have "boot_replies sim_view sim_bus CMD8 (bind_args NOARG NOARG 1 CMD8_RESPONSE_PATTERN) CMD8_CRC in_boot
       (\<lambda>C r rest ph. r = 1 \<and> length rest = 4 \<and> rest ! 3 = CMD8_RESPONSE_PATTERN \<and>
          ph = Card_boot (boot_wait_left (cd_phase C)) False)"
  proof (rule sim_replies [OF _ in_boot_quiet], goal_cases)
    case (3 c)
    from sim_in_boot [OF 3(1)] obtain k app where "sim_st c = Sim_boot k app" "boot_wait_left (cd_phase (sim_view c)) = k" by blast
    then show ?case
      by (intro exI [of _ 1] exI [of _ "[0, 0, 1, 0xAA]"] exI [of _ "Sim_boot k False"])
        (simp add: sim_reply_def sim_cmd_defs RET_MSB_MASK_def CMD8_RESPONSE_PATTERN_def)
  qed (simp_all add: sim_cmd_defs)
  moreover have "boot_replies sim_view sim_bus CMD55 (bind_args NOARG NOARG NOARG NOARG) NOCRC in_boot
       (\<lambda>C r rest ph. r = 1 \<and> rest = [] \<and> ph = Card_boot (boot_wait_left (cd_phase C)) True)"
  proof (rule sim_replies [OF _ in_boot_quiet], goal_cases)
    case (3 c)
    from sim_in_boot [OF 3(1)] obtain k app where "sim_st c = Sim_boot k app" "boot_wait_left (cd_phase (sim_view c)) = k" by blast
    then show ?case
      by (intro exI [of _ 1] exI [of _ "[]"] exI [of _ "Sim_boot k True"]) (simp add: sim_reply_def sim_cmd_defs RET_MSB_MASK_def)
  qed (simp_all add: sim_cmd_defs)
  moreover have "boot_replies sim_view sim_bus ACMD41 (bind_args SDHC_HIGH_SPEED_FLAG NOARG NOARG NOARG) NOCRC (\<lambda>ph. \<exists>k. ph = Card_boot k True)
       (\<lambda>C r rest ph. rest = [] \<and>
          (if boot_wait_left (cd_phase C) = 0 then r = 0 \<and> ph = Card_idle
           else r = 1 \<and> ph = Card_boot (boot_wait_left (cd_phase C) - 1) False))"
  proof (rule sim_replies, goal_cases)
    case (3 c)
    then obtain k where k: "cd_phase (sim_view c) = Card_boot k True" "sim_st c = Sim_boot k True" by (auto simp: sim_phase)
    then show ?case
      by (intro exI [of _ "if k = 0 then 0 else 1"] exI [of _ "[]"] exI [of _ "if k = 0 then Sim_ready else Sim_boot (k - 1) False"])
        (simp add: sim_reply_def sim_cmd_defs RET_MSB_MASK_def)
  qed (auto simp: sim_cmd_defs)
  moreover have "boot_replies sim_view sim_bus CMD58 (bind_args NOARG NOARG NOARG NOARG) NOCRC (\<lambda>ph. ph = Card_idle)
       (\<lambda>C r rest ph. r = 0 \<and> rest = cd_ocr C \<and> length rest = 4 \<and> ph = Card_idle)"
  proof (rule sim_replies, goal_cases)
    case (3 c)
    then have st: "sim_st c = Sim_ready" by (simp add: sim_phase)
    then have "sim_reply c CMD58 (bind_args NOARG NOARG NOARG NOARG) = c\<lparr>sim_pend := 0xFF # 0 # sim_ocr, sim_st := Sim_ready\<rparr>"
      by (cases c) (simp add: sim_reply_def sim_cmd_defs)
    then show ?case
      by (intro exI [of _ 0] exI [of _ sim_ocr] exI [of _ Sim_ready]) (simp add: RET_MSB_MASK_def sim_ocr_def sim_view_def)
  qed (simp_all add: sim_cmd_defs)
  ultimately show ?thesis by (simp add: card_boots_def)
qed

text \<open>The simulated card as it is after power-up.\<close>

definition sim_off :: "sim mcu \<Rightarrow> sim mcu" where
  "sim_off m = m\<lparr>m_dev := (m_dev m)\<lparr>sim_st := Sim_power\<rparr>\<rparr>"

lemma sim_off_sectors [simp]: "sd_sectors sim_view (sim_off m) = sd_sectors sim_view m"
  by (rule ext) (simp add: sd_sectors_def sim_view_def sim_sect_def sim_off_def)

lemma boot_sim_at:
  "\<lbrakk>sim_rx (m_dev m) = []; sim_data (m_dev m) = None; sim_pend (m_dev m) = []; spi_on (m_spcr m)\<rbrakk> \<Longrightarrow>
    boot_at sim_view n sim_bus (sim_view (m_dev m)) m"
  by (simp add: boot_at_def sim_conforms sim_boots sim_quiet sim_pend_view)

section \<open>Properties\<close>



end
