(* ===== verification/Firmware_Boot.thy ===== *)
theory Firmware_Boot
  imports Firmware_Display Fat_Props Sd_Boot
begin

text \<open>
  The start-up: the hardware, the card and the volume on it (or no card at all), the ELM327 and the list of
  supported PIDs, and the display; then the passes of the loop.
\<close>

section \<open>Start-up\<close>

lemma mute_token: "sd_token n mute_bus m = Some (- 1, m)"
  by (induction n) (simp_all add: mute_read)

lemma mute_get_sector: "\<exists>m'. sd_get_sector mute_bus a buf k m = Some (- 1, buf, m')"
  by (simp add: sd_get_sector_def sd_init_read_sector_def mute_wait mute_send mute_token)

lemma mute_io: "\<exists>m'. initialize_io (sd_ops mute_bus) io sd m = Some (- 1, io, m')"
proof -
  obtain m' where "sd_get_sector mute_bus 0 (input_sector_buf io) (unat SECTOR_SIZE) m = Some (- 1, input_sector_buf io, m')"
    using mute_get_sector by blast
  then show ?thesis by (simp add: initialize_io_def sd_ops_def)
qed

lemma mute_sd: "\<exists>m'. initialize_sd mute_bus sd m = Some (- 1, sd\<lparr>sd_status := SD_DISABLED\<rparr>, m')"
proof -
  obtain m1 where m1: "sd_wake_up mute_bus m = Some (0, m1)"
    using spi_disable_sd [of mute_bus m] by (auto simp: sd_wake_up_def mute_send)
  obtain m2 where "sd_retry MAX_CMD_TRIALS (sd_command0 mute_bus (0x40 OR 0) 0 0x95) Some R1_IDLE_STATE m1 = Some (False, m2)"
    using mute_retry by blast
  with m1 show ?thesis by (simp add: initialize_sd_def sd_init_sequence_def sd_init_cmd0_def)
qed

lemma initialize_spi_dev:
  "\<exists>g. m_dev (initialize_spi bus m) = m_dev m \<or> m_dev (initialize_spi bus m) = bus_lines bus g (m_dev m)"
  by (auto simp: initialize_spi_def spi_initialize_slave_select_def mcu_pin_def Let_def split: prod.split)

lemma fw_hardware_mcu:
  "\<exists>g. fw_mcu (fw_hardware P s) =
      initialize_spi (pl_bus P) ((fw_mcu s)\<lparr>m_gpio := g, m_dev := bus_lines (pl_bus P) g (m_dev (fw_mcu s))\<rparr>)"
  by (simp add: fw_hardware_def Let_def) (rule exI, rule refl)

lemma fw_hardware_boot:
  assumes "card_conforms V n (pl_bus P)" and "card_boots V (pl_bus P)"
    and idle: "card_quiet (cd_phase (V (m_dev (fw_mcu s))))" "cd_pend (V (m_dev (fw_mcu s))) = []"
  shows "boot_at V n (pl_bus P) (V (m_dev (fw_mcu s))) (fw_mcu (fw_hardware P s)) \<and>
    sd_sectors V (fw_mcu (fw_hardware P s)) = sd_sectors V (fw_mcu s)"
proof -
  let ?c = "m_dev (fw_mcu s)"
  have l: "card_lines V (pl_bus P)" using assms(1) by (simp add: card_conforms_def)
  obtain g1 where m: "fw_mcu (fw_hardware P s) =
      initialize_spi (pl_bus P) ((fw_mcu s)\<lparr>m_gpio := g1, m_dev := bus_lines (pl_bus P) g1 ?c\<rparr>)"
    using fw_hardware_mcu by blast
  have 1: "V (bus_lines (pl_bus P) g1 ?c) = V ?c" by (rule boot_lines [OF l idle])
  have 2: "V (bus_lines (pl_bus P) g (bus_lines (pl_bus P) g1 ?c)) = V ?c" for g
    using boot_lines [OF l, of "bus_lines (pl_bus P) g1 ?c" g] idle unfolding 1 by blast
  have V: "V (m_dev (fw_mcu (fw_hardware P s))) = V ?c"
    using initialize_spi_dev [of "pl_bus P" "(fw_mcu s)\<lparr>m_gpio := g1, m_dev := bus_lines (pl_bus P) g1 ?c\<rparr>"] 1 2
    unfolding m by auto
  have "spi_on (m_spcr (fw_mcu (fw_hardware P s)))" unfolding m using spi_initialised by blast
  with V assms show ?thesis by (simp add: boot_at_def sd_sectors_def)
qed

lemma fw_hardware_io: "fw_io (fw_hardware P s) = fw_io s" "fw_sd (fw_hardware P s) = fw_sd s"
  by (simp_all add: fw_hardware_def Let_def)

lemma fw_storage_mute:
  assumes "pl_bus P = mute_bus"
  shows "\<exists>m. fw_storage P s = Some (s\<lparr>fw_sd := (fw_sd s)\<lparr>sd_status := SD_DISABLED\<rparr>, fw_mcu := m\<rparr>)"
proof -
  obtain m1 where 1: "initialize_sd mute_bus (fw_sd s) (fw_mcu s) = Some (- 1, (fw_sd s)\<lparr>sd_status := SD_DISABLED\<rparr>, m1)"
    using mute_sd by blast
  obtain m2 where 2: "initialize_io (sd_ops mute_bus) (fw_io s) ((fw_sd s)\<lparr>sd_status := SD_DISABLED\<rparr>) m1 = Some (- 1, fw_io s, m2)"
    using mute_io by blast
  show ?thesis using 1 2 by (intro exI [where x = m2]) (simp add: fw_storage_def assms initialize_fat32_def)
qed

lemma fw_hardware_parts:
  "fw_elm (fw_hardware P s) = (fw_elm s)\<lparr>ew_fifo := initialize_fifo (ew_fifo (fw_elm s))\<rparr>"
  "fw_obd (fw_hardware P s) = fw_obd s" "fw_heap (fw_hardware P s) = fw_heap s" "fw_fat (fw_hardware P s) = fw_fat s"
  "tw_hw (fw_twi (fw_hardware P s)) = tw_hw (fw_twi s)"
  by (simp_all add: fw_hardware_def Let_def initialize_i2c_def)

lemma fw_storage_parts:
  "fw_storage P s = Some s1 \<Longrightarrow> fw_elm s1 = fw_elm s \<and> fw_obd s1 = fw_obd s \<and> fw_heap s1 = fw_heap s \<and> fw_twi s1 = fw_twi s"
  by (auto simp: fw_storage_def bind_eq_Some_conv split: prod.splits)

lemma elm_ready_init:
  assumes "length (f_buf (ew_fifo w)) = 64" and "rx_fits 0 (ew_env w)"
  shows "elm_ready (w\<lparr>ew_fifo := initialize_fifo (ew_fifo w)\<rparr>)"
    and "elm_pending (w\<lparr>ew_fifo := initialize_fifo (ew_fifo w)\<rparr>) = concat (ew_env w)"
  using assms fifo_init_wf [OF assms(1)] fifo_init_list [of "ew_fifo w"]
  by (simp_all add: elm_ready_def elm_room_def elm_pending_def) (simp add: initialize_fifo_def fifo_accepts_def)

text \<open>The answers during the start-up: three to the ELM327's own commands, and the supported PIDs.\<close>

definition fw_boot_answers :: "u8 list \<Rightarrow> u8 list \<Rightarrow> u8 list \<Rightarrow> u8 list \<Rightarrow> u8 list" where
  "fw_boot_answers u v x bs = u @ 62 # v @ 62 # x @ 62 # obd_answer [] (0 # bs) [13, 13] @ [62]"

definition elm_banner :: "u8 list \<Rightarrow> bool" where
  "elm_banner u \<longleftrightarrow> length u < 32 \<and> 0 \<notin> set u \<and> 62 \<notin> set u"

definition pids_listed :: "u8 list \<Rightarrow> nat list" where
  "pids_listed bs = filter (pid_supported bs) [1..<32]"

lemma fw_vehicle_ok:
  assumes P: "fw_platform_ok P view" and w: "elm_ready (fw_elm s)" "elm_pending (fw_elm s) = fw_boot_answers u v x bs @ tail"
    and ban: "elm_banner u" "elm_banner v" "elm_banner x" "length bs = 4"
    and mem: "malloc_ok (pl_malloc P)" "push_all (list_push_head (pl_malloc P)) (map (pl_image P) (pids_listed bs)) 0 (fw_heap s) \<noteq> None"
    and img: "\<forall>i<32. pl_cmd P (pl_image P i) = obd_cmds ! i"
  shows "\<exists>s'. fw_vehicle P s = Some s' \<and> fw_list P (rev (pids_listed bs)) s' \<and>
    elm_ready (fw_elm s') \<and> elm_pending (fw_elm s') = tail \<and> fw_twi s' = fw_twi s \<and> fw_sd s' = fw_sd s \<and> fw_fat s' = fw_fat s \<and>
    ew_tx (fw_elm s') = ew_tx (fw_elm s) @ ELM_RESET @ ECHO_OFF @ SEARCH_BUS @ cstr ''0100'' @ [13]"
proof -
  obtain b1 b2 b3 b4 where bs: "bs = [b1, b2, b3, b4]" using ban(4) by (auto simp: numeral_eq_Suc length_Suc_conv)
  have stk: "64 < length (pl_stack P)" and rx: "pl_rx P = script_rx" using P by (simp_all add: fw_platform_ok_def)
  let ?a = "obd_answer [] [0, b1, b2, b3, b4] [13, 13] @ 62 # tail"
  have "elm_pending (fw_elm s) = u @ 62 # v @ 62 # x @ 62 # ?a" using w(2) by (simp add: fw_boot_answers_def bs)
  from initialize_elm_run [OF w(1) this, of "pl_stack P"] ban stk obtain w1 where
    1: "initialize_elm script_rx (pl_stack P) (fw_elm s) = Some (0, w1)" "elm_ready w1" "elm_pending w1 = ?a"
      "ew_tx w1 = ew_tx (fw_elm s) @ ELM_RESET @ ECHO_OFF @ SEARCH_BUS"
    by (auto simp: elm_banner_def)
  have ws: "list_all c_isspace [13, 13]" by (simp add: c_isspace_def)
  have "32 \<le> length (pl_stack P)" using stk by simp
  from initialize_obd_run [OF 1(2,3) _ ws stk this mem(1) refl, of "pl_image P" "fw_heap s" "fw_obd s"]
    mem(2) [unfolded pids_listed_def bs]
  obtain p h' w' where 2: "initialize_obd script_rx (pl_malloc P) (pl_image P) (pl_stack P) (pl_stack P) (fw_obd s) (fw_heap s) w1 =
      Some (0, (fw_obd s)\<lparr>linked_list := p\<rparr>, h', w')" "list_rep h' p (rev (map (pl_image P) (pids_listed bs)))"
    "ew_tx w' = ew_tx w1 @ cstr ''0100'' @ [13]" "elm_ready w'" "elm_pending w' = tail"
    by (auto simp: pids_listed_def bs)
  have "map (pl_cmd P) (map (pl_image P) (pids_listed bs)) = map ((!) obd_cmds) (pids_listed bs)"
    using img by (simp add: pids_listed_def)
  then have "map (pl_cmd P) (rev (map (pl_image P) (pids_listed bs))) = map ((!) obd_cmds) (rev (pids_listed bs))"
    by (simp only: rev_map [symmetric])
  with 1 2 show ?thesis by (auto simp: fw_vehicle_def rx fw_list_def)
qed

lemma fw_lcd_on_ok:
  assumes P: "fw_platform_ok P view" and v: "view (tw_hw (fw_twi s)) = (TW_idle, shown, q)"
  shows "\<exists>w. fw_lcd_on P s = Some (s\<lparr>fw_twi := w, fw_buf := [0xFE, 0x54] @ replicate 11 0 @ pl_behind P\<rparr>) \<and>
    view (tw_hw w) = (TW_idle, shown @ [0xFE, 0x54] @ replicate 11 0, q)"
proof -
  have "twi_conforms (pl_twi P) view" using P by (simp add: fw_platform_ok_def)
  from i2c_send_only [OF this v, of "0x50" "[0xFE, 0x54] @ replicate 11 0"] show ?thesis
    by (auto simp: fw_lcd_on_def eval_nat_numeral)
qed

text \<open>The assumptions on the platform and the memory at reset.\<close>

definition fw_reset_ok ::
  "('c, u8 list list, 'h, 'f) platform \<Rightarrow> 'h tw_view \<Rightarrow> u8 list \<Rightarrow> ('c, u8 list list, 'h) fw \<Rightarrow> bool" where
  "fw_reset_ok P view bs s \<longleftrightarrow> fw_platform_ok P view \<and> malloc_ok (pl_malloc P) \<and>
    (\<forall>i<32. pl_cmd P (pl_image P i) = obd_cmds ! i) \<and> length (f_buf (ew_fifo (fw_elm s))) = 64 \<and>
    rx_fits 0 (ew_env (fw_elm s)) \<and> length bs = 4 \<and>
    push_all (list_push_head (pl_malloc P)) (map (pl_image P) (pids_listed bs)) 0 (fw_heap s) \<noteq> None"

lemma fw_start_ok:
  assumes s: "fw_reset_ok P view bs s" and v: "view (tw_hw (fw_twi s)) = (TW_idle, shown, q)"
    and ban: "elm_banner u" "elm_banner v" "elm_banner x"
    and env: "concat (ew_env (fw_elm s)) = fw_boot_answers u v x bs @ tail"
    and st: "fw_storage P (fw_hardware P s) = Some s1"
  shows "\<exists>s'. fw_start P s = Some s' \<and> fw_list P (rev (pids_listed bs)) s' \<and>
    fw_idle P view tail (shown @ [0xFE, 0x54] @ replicate 11 0) s' \<and> length (fw_buf s') = 13 + length (pl_behind P) \<and>
    fw_sd s' = fw_sd s1 \<and> fw_fat s' = fw_fat s1 \<and>
    ew_tx (fw_elm s') = ew_tx (fw_elm s) @ ELM_RESET @ ECHO_OFF @ SEARCH_BUS @ cstr ''0100'' @ [13]"
proof -
  note r = s [unfolded fw_reset_ok_def]
  have parts: "fw_elm s1 = (fw_elm s)\<lparr>ew_fifo := initialize_fifo (ew_fifo (fw_elm s))\<rparr>" "fw_obd s1 = fw_obd s"
    "fw_heap s1 = fw_heap s" "tw_hw (fw_twi s1) = tw_hw (fw_twi s)"
    using fw_storage_parts [OF st] by (simp_all add: fw_hardware_parts)
  have e: "elm_ready (fw_elm s1)" "elm_pending (fw_elm s1) = fw_boot_answers u v x bs @ tail"
    using elm_ready_init [of "fw_elm s"] r env by (simp_all add: parts)
  obtain s2 where 2: "fw_vehicle P s1 = Some s2" "fw_list P (rev (pids_listed bs)) s2" "elm_ready (fw_elm s2)"
    "elm_pending (fw_elm s2) = tail" "fw_twi s2 = fw_twi s1" "fw_sd s2 = fw_sd s1" "fw_fat s2 = fw_fat s1"
    "ew_tx (fw_elm s2) = ew_tx (fw_elm s1) @ ELM_RESET @ ECHO_OFF @ SEARCH_BUS @ cstr ''0100'' @ [13]"
    using fw_vehicle_ok [of P view s1 u v x bs tail] e ban r parts by auto
  have "view (tw_hw (fw_twi s2)) = (TW_idle, shown, q)" using 2(5) parts v by simp
  with fw_lcd_on_ok [of P view s2 shown q] r obtain w where
    "fw_lcd_on P s2 = Some (s2\<lparr>fw_twi := w, fw_buf := [0xFE, 0x54] @ replicate 11 0 @ pl_behind P\<rparr>)"
    "view (tw_hw w) = (TW_idle, shown @ [0xFE, 0x54] @ replicate 11 0, q)" by blast
  with 2 st parts show ?thesis by (auto simp: fw_start_def fw_idle_def fw_list_def)
qed

lemma fw_boot_run_ok:
  assumes s: "fw_reset_ok P view bs s" and v: "view (tw_hw (fw_twi s)) = (TW_idle, shown, q)"
    and ban: "elm_banner u" "elm_banner v" "elm_banner x"
    and env: "concat (ew_env (fw_elm s)) = fw_boot_answers u v x bs @ concat (map fw_answers rounds) @ tail"
    and st: "fw_storage P (fw_hardware P s) = Some s1"
    and rounds: "list_all (\<lambda>xs. map fst xs = rev (pids_listed bs) \<and> list_all (fw_cmds_ok (13 + length (pl_behind P))) xs) rounds"
  shows "\<exists>s2 s'. fw_start P s = Some s2 \<and> fw_run P (length rounds) s2 = Some s' \<and>
    fw_idle P view tail (shown @ [0xFE, 0x54] @ replicate 11 0 @ concat (map (fw_screen (pl_fl P)) rounds)) s'"
proof -
  obtain s2 where 2: "fw_start P s = Some s2" "fw_list P (rev (pids_listed bs)) s2"
    "fw_idle P view (concat (map fw_answers rounds) @ tail) (shown @ [0xFE, 0x54] @ replicate 11 0) s2"
    "length (fw_buf s2) = 13 + length (pl_behind P)"
    using fw_start_ok [OF s v ban env st] by blast
  have P: "fw_platform_ok P view" using s by (simp add: fw_reset_ok_def)
  show ?thesis using fw_run_ok [OF P _ 2(2,3)] rounds 2(1,4) by auto
qed

text \<open>A card that holds a FAT32 volume inside its first 65536 sectors (with shifted chains that end, see
  \<open>shifted_chains\<close>), and what mounting it gives: the geometry and the files of its root directory, each with
  its shifted chain. \<open>fc\<close> is the field that the code never sets.\<close>

definition fw_root :: "(u32 \<Rightarrow> u8 list) \<Rightarrow> fat32_ctx \<Rightarrow> u32" where
  "fw_root disk fat = root_dir_sector (fat_geometry fat disk) * 512"

definition fw_volume :: "(u32 \<Rightarrow> u8 list) \<Rightarrow> nat \<Rightarrow> fat32_ctx \<Rightarrow> (nat \<Rightarrow> u32 list) \<Rightarrow> bool" where
  "fw_volume disk n fat chain \<longleftrightarrow> 0 < n \<and> (\<forall>a. unat a < n \<longrightarrow> length (disk a) = 512) \<and>
    volume_ok (fat_geometry fat disk) disk (fw_root disk fat) (512 * min n 65536) chain"

definition fw_mounted :: "(u32 \<Rightarrow> u8 list) \<Rightarrow> fat32_ctx \<Rightarrow> u32 \<Rightarrow> (nat \<Rightarrow> u32 list) \<Rightarrow> fat32_ctx" where
  "fw_mounted disk fat fc chain =
    (fat_geometry fat disk)\<lparr>root_dir_entries := root_listing (fat_geometry fat disk) fc disk (fw_root disk fat) chain\<rparr>"

lemma fw_storage_ok:
  assumes boot: "boot_at V n (pl_bus P) C (fw_mcu s)" and vol: "fw_volume (sd_sectors V (fw_mcu s)) n (fw_fat s) chain"
    and buf: "length (input_sector_buf (fw_io s)) = 512" "length (output_sector_buf (fw_io s)) = 512"
  shows "\<exists>s'. fw_storage P s = Some s' \<and>
    fw_fat s' = fw_mounted (sd_sectors V (fw_mcu s)) (fw_fat s) (first_cluster (pl_junk_file P)) chain \<and>
    sd_status (fw_sd s') = SD_ENABLED \<and> sd_type (fw_sd s') = ocr_type (cd_ocr C) \<and> fw_elm s' = fw_elm s"
proof -
  let ?B = "pl_bus P" and ?d = "sd_sectors V (fw_mcu s)"
  let ?t = "ocr_type (cd_ocr C)"
  from initialize_sd_run [OF boot, of "fw_sd s"] obtain m1 where
    1: "initialize_sd ?B (fw_sd s) (fw_mcu s) = Some (0, \<lparr>sd_type = ?t, sd_status = SD_ENABLED, sd_sector_size = 512\<rparr>, m1)"
      "sd_ok V n ?B m1" "V (m_dev m1) = C\<lparr>cd_phase := Card_idle\<rparr>" by blast
  have s1: "sd_sectors V m1 = ?d" using 1(3) boot by (simp add: sd_sectors_def boot_at_def fun_eq_iff)
  let ?sd = "\<lparr>sd_type = ?t, sd_status = SD_ENABLED, sd_sector_size = 512\<rparr>" and ?e = "512 * min n 65536"
  have n: "0 < n" "\<forall>a. unat a < n \<longrightarrow> length (sd_sectors V m1 a) = 512" using vol s1 by (auto simp: fw_volume_def)
  from sd_blk.initialize_io_ok [OF 1(2) n(1) buf n(2), of ?sd] obtain io2 m2 where
    2: "initialize_io (sd_ops ?B) (fw_io s) ?sd m1 = Some (0, io2, m2)" "io_ok (sd_ok V n ?B) (sd_sectors V) n io2 m2"
      "io_fresh (sd_sectors V) io2 m2" "sd_sectors V m2 = ?d"
    using s1 by auto
  have e: "io_addr_ok n ?e" and st: "sd_status ?sd \<noteq> SD_DISABLED"
    by (auto simp: io_addr_ok_def SD_ENABLED_def SD_DISABLED_def)
  have ctx: "fat_geometry (fw_fat s) ?d = fat_geometry (fw_fat s) (sd_sectors V m2)" by (simp add: 2(4))
  have base: "fw_root ?d (fw_fat s) = root_dir_sector (fat_geometry (fw_fat s) ?d) * ucast (sd_sector_size ?sd)"
    by (simp add: fw_root_def)
  have v: "volume_ok (fat_geometry (fw_fat s) ?d) (sd_sectors V m2) (fw_root ?d (fw_fat s)) ?e chain"
    using vol by (simp add: fw_volume_def 2(4))
  from sd_blk.mount_ok [OF 2(2,3) e st ctx base v, of "pl_junk_file P"] 2(4) obtain io3 m3 where
    "initialize_fat32 (sd_ops ?B) (pl_junk_file P) (fw_fat s) io2 ?sd m2 =
      Some (0, fw_mounted ?d (fw_fat s) (first_cluster (pl_junk_file P)) chain, io3, m3)"
    by (auto simp: fw_mounted_def)
  with 1(1) 2(1) show ?thesis by (simp add: fw_storage_def)
qed

text \<open>Both ports run at 38400 baud after the hardware is set up, and the receive interrupt of the second is on.\<close>

lemma fw_hardware_uarts:
  "uart_baud (fw_uart (fw_hardware P s)) (uart_ports ! UART_PORT_0) = 38400"
  "uart_baud (fw_uart (fw_hardware P s)) (uart_ports ! UART_PORT_1) = 38400"
  "bit (fw_uart (fw_hardware P s) UCSR1B) RXCIE"
proof -
  let ?c0 = "uart_setup UART_PORT_0 (MYUBRR BUAD_UART_0) (fw_uart s)"
  let ?c1 = "uart_setup UART_PORT_1 (MYUBRR BUAD_UART_1) ?c0"
  have u: "fw_uart (fw_hardware P s) = ?c1(UCSR1B := ?c1 UCSR1B OR push_bit RXCIE 1)"
    by (simp add: fw_hardware_def initialize_uart_regs UART_PORT_0_def UART_PORT_1_def Let_def)
  have b: "uart_baud ?c0 (uart_ports ! UART_PORT_0) = 38400" "uart_baud ?c1 (uart_ports ! UART_PORT_1) = 38400"
    using uart_setup_baud [of UART_PORT_0 BUAD_UART_0] uart_setup_baud [of UART_PORT_1 BUAD_UART_1]
    by (simp_all add: UART_PORT_0_def UART_PORT_1_def BUAD_UART_0_def BUAD_UART_1_def FOSC_def)
  have p: "ubrrl (uart_ports ! UART_PORT_0) = UBRR0L" "ubrrh (uart_ports ! UART_PORT_0) = UBRR0H"
    "ubrrl (uart_ports ! UART_PORT_1) = UBRR1L" "ubrrh (uart_ports ! UART_PORT_1) = UBRR1H"
    "ucsrb (uart_ports ! UART_PORT_1) = UCSR1B" "ucsrc (uart_ports ! UART_PORT_1) = UCSR1C"
    by (simp_all add: uart_ports_def UART_PORT_0_def UART_PORT_1_def)
  have "?c1 UBRR0L = ?c0 UBRR0L" "?c1 UBRR0H = ?c0 UBRR0H"
    by (simp_all add: uart_setup_def [of UART_PORT_1] p Let_def)
  with b show "uart_baud (fw_uart (fw_hardware P s)) (uart_ports ! UART_PORT_0) = 38400"
    "uart_baud (fw_uart (fw_hardware P s)) (uart_ports ! UART_PORT_1) = 38400"
    unfolding u uart_baud_def p by simp_all
  show "bit (fw_uart (fw_hardware P s) UCSR1B) RXCIE" unfolding u by (simp add: RXCIE_def bit_simps)
qed

end
