(* ===== verification/Firmware_Props.thy ===== *)
theory Firmware_Props
  imports Firmware_Boot
begin

text \<open>
  The properties of the firmware as a whole: the device from reset to its display, one pass of the loop, the
  start-up with and without a card, and the types of its state under any behaviour of the devices.
\<close>

section \<open>Properties\<close>

text \<open>A platform to try the theorems on: no card, a simulated display, and a vehicle with speed and
  engine speed.\<close>

definition demo_float :: "int float_ops" where
  "demo_float = \<lparr>fl_of_int = (\<lambda>i. i), fl_div = (\<lambda>x n. x * 100 div n), fl_sub = (-), fl_fmt = dec_int\<rparr>"

definition demo_platform :: "(unit, u8 list list, tw_mode \<times> u8 list \<times> u8 list, int) platform" where
  "demo_platform = \<lparr>pl_bus = mute_bus, pl_rx = script_rx, pl_twi = sim_twi, pl_fl = demo_float, pl_malloc = arena 9,
     pl_image = (\<lambda>i. [of_nat i]), pl_cmd = (\<lambda>d. obd_cmds ! unat (hd d)), pl_stack = replicate 70 9, pl_ret = [], pl_behind = [],
     pl_junk_file = demo_file [] [] []\<rparr>"

definition demo_fw :: "u8 list list \<Rightarrow> (unit, u8 list list, tw_mode \<times> u8 list \<times> u8 list) fw" where
  "demo_fw cs = \<lparr>fw_mcu = unit_mcu, fw_elm = demo_elm cs, fw_twi = demo_twi (TW_idle, [], []),
     fw_sd = \<lparr>sd_type = 0, sd_status = 0, sd_sector_size = 0\<rparr>, fw_io = io_zero, fw_fat = demo_ctx,
     fw_obd = \<lparr>supported_devices = 0, linked_list = 0\<rparr>, fw_heap = empty_heap, fw_buf = [],
     fw_uart = (\<lambda>_. 0)\<rparr>"

lemma demo_platform_ok: "fw_platform_ok demo_platform (\<lambda>h. h)"
  by (simp add: fw_platform_ok_def demo_platform_def sim_twi_conforms)

lemma demo_pids: "pids_listed [0, 24, 0, 0] = [12, 13]"
  by code_simp

lemma demo_push: "push_all (list_push_head (arena 9)) [[12], [13]] 0 empty_heap \<noteq> None"
  by (simp add: list_push_head_def list_new_node_def empty_heap_def eval_nat_numeral Let_def)

lemma demo_reset: "rx_fits 0 cs \<Longrightarrow> fw_reset_ok demo_platform (\<lambda>h. h) [0, 24, 0, 0] (demo_fw cs)"
proof -
  have i: "\<forall>i<32. pl_cmd demo_platform (pl_image demo_platform i) = obd_cmds ! i"
    by (auto simp: demo_platform_def unat_of_nat take_bit_nat_eq_self)
  have m: "malloc_ok (pl_malloc demo_platform)" by (simp add: demo_platform_def arena_ok)
  assume "rx_fits 0 cs"
  then show ?thesis using demo_push unfolding fw_reset_ok_def demo_pids
    by (simp add: demo_platform_ok i m) (simp add: demo_platform_def demo_fw_def demo_elm_def demo_fifo_def)
qed

text \<open>C1. The device from reset to its display: with a vehicle that answers the start-up commands and
  supports the PIDs marked in \<open>bs\<close>, a display that acknowledges, and memory for the list, and as long as
  the FIFO never overflows and the card driver returns (whatever it returns), the start-up succeeds; then in every pass
  of the loop the display receives the home command and, for each supported PID it shows, from the highest
  to the lowest, the cursor command and the 20 bytes of label, decoded value and unit.\<close>

theorem fw_boot_run_displays:
  assumes "fw_reset_ok P view bs s" and "view (tw_hw (fw_twi s)) = (TW_idle, shown, q)"
    and "elm_banner u" "elm_banner v" "elm_banner x"
    and "concat (ew_env (fw_elm s)) = fw_boot_answers u v x bs @ concat (map fw_answers rounds) @ tail"
    and "fw_storage P (fw_hardware P s) = Some s1"
    and "list_all (\<lambda>xs. map fst xs = rev (pids_listed bs) \<and> list_all (fw_cmds_ok (13 + length (pl_behind P))) xs) rounds"
  shows "\<exists>s2 s'. fw_start P s = Some s2 \<and> fw_run P (length rounds) s2 = Some s' \<and>
    fw_idle P view tail (shown @ [0xFE, 0x54] @ replicate 11 0 @ concat (map (fw_screen (pl_fl P)) rounds)) s'"
  by (rule fw_boot_run_ok [OF assms])

definition demo_rounds :: "(nat \<times> reply) list list" where
  "demo_rounds = [[(13, Data [13, 80]), (12, Data [12, 26, 248])], [(13, No_data), (12, Data [12, 27, 0])]]"

text \<open>The bytes of a demonstration, one in each poll.\<close>

definition demo_stream :: "u8 list list" where
  "demo_stream = map (\<lambda>b. [b]) (fw_boot_answers [79, 75, 13] [79, 75, 13] [79, 75, 13] [0, 24, 0, 0] @ concat (map fw_answers demo_rounds))"

lemma rx_fits_single: "rx_fits 0 (map (\<lambda>b. [b]) bs)"
  by (induction bs) auto

lemma demo_cmds_ok: "list_all (\<lambda>xs. map fst xs = [13, 12] \<and> list_all (fw_cmds_ok 13) xs) demo_rounds"
  by (simp add: demo_rounds_def fw_cmds_ok_def obd_needs_def obd_cmds_defs)

lemma demo_facts:
  "fw_reset_ok demo_platform (\<lambda>h. h) [0, 24, 0, 0] (demo_fw demo_stream)"
  "tw_hw (fw_twi (demo_fw demo_stream)) = (TW_idle, [], [])"
  "elm_banner [79, 75, 13]" "elm_banner [79, 75, 13]" "elm_banner [79, 75, 13]"
  "concat (ew_env (fw_elm (demo_fw demo_stream))) =
    fw_boot_answers [79, 75, 13] [79, 75, 13] [79, 75, 13] [0, 24, 0, 0] @ concat (map fw_answers demo_rounds) @ []"
proof -
  show "fw_reset_ok demo_platform (\<lambda>h. h) [0, 24, 0, 0] (demo_fw demo_stream)"
    by (rule demo_reset) (simp only: demo_stream_def rx_fits_single)
  show "tw_hw (fw_twi (demo_fw demo_stream)) = (TW_idle, [], [])" by (simp add: demo_fw_def demo_twi_def)
  show "elm_banner [79, 75, 13]" "elm_banner [79, 75, 13]" "elm_banner [79, 75, 13]" by (simp_all add: elm_banner_def)
  show "concat (ew_env (fw_elm (demo_fw demo_stream))) =
      fw_boot_answers [79, 75, 13] [79, 75, 13] [79, 75, 13] [0, 24, 0, 0] @ concat (map fw_answers demo_rounds) @ []"
    by (simp add: demo_fw_def demo_elm_def demo_stream_def concat_map_singleton)
qed

lemma demo_storage: "\<exists>s1. fw_storage demo_platform (fw_hardware demo_platform (demo_fw cs)) = Some s1"
proof -
  have "pl_bus demo_platform = mute_bus" by (simp add: demo_platform_def)
  from fw_storage_mute [OF this] show ?thesis by blast
qed

lemma demo_start:
  "\<exists>s. fw_start demo_platform (demo_fw demo_stream) = Some s \<and> fw_list demo_platform [13, 12] s \<and>
    fw_idle demo_platform (\<lambda>h. h) (concat (map fw_answers demo_rounds) @ []) ([0xFE, 0x54] @ replicate 11 0) s \<and>
    length (fw_buf s) = 13"
proof -
  obtain s1 where "fw_storage demo_platform (fw_hardware demo_platform (demo_fw demo_stream)) = Some s1"
    using demo_storage by blast
  from fw_start_ok [OF demo_facts this] show ?thesis unfolding demo_pids by (auto simp: demo_platform_def)
qed

theorem fw_boot_run_displays_witness:
  "\<exists>s2 s'. fw_start demo_platform (demo_fw demo_stream) = Some s2 \<and> fw_run demo_platform 2 s2 = Some s' \<and>
    fst (snd (tw_hw (fw_twi s'))) = [0xFE, 0x54] @ replicate 11 0 @ concat (map (fw_screen demo_float) demo_rounds)"
proof -
  obtain s1 where st: "fw_storage demo_platform (fw_hardware demo_platform (demo_fw demo_stream)) = Some s1"
    using demo_storage by blast
  have c: "list_all (\<lambda>xs. map fst xs = rev (pids_listed [0, 24, 0, 0]) \<and>
      list_all (fw_cmds_ok (13 + length (pl_behind demo_platform))) xs) demo_rounds"
    using demo_cmds_ok by (simp add: demo_pids demo_platform_def)
  have n: "length demo_rounds = 2" by (simp add: demo_rounds_def)
  have f: "pl_fl demo_platform = demo_float" by (simp add: demo_platform_def)
  show ?thesis
    using fw_boot_run_displays [OF demo_facts st c] unfolding n f by (auto simp: fw_idle_def)
qed

text \<open>C2. One pass of the loop: the display receives exactly the screen of the commands in the list, the
  driver is ready for the next pass, and the list, the context and the buffer's size are as before.\<close>

theorem fw_pass_displays:
  assumes "fw_platform_ok P view" and "fw_list P (map fst xs) s"
    and "list_all (fw_cmds_ok (length (fw_buf s))) xs"
    and "fw_idle P view (fw_answers xs @ tail) shown s" and "3 \<le> length (fw_buf s)"
  shows "\<exists>s'. fw_pass P s = Some s' \<and> fw_idle P view tail (shown @ fw_screen (pl_fl P) xs) s' \<and> fw_same s s'"
  by (rule fw_pass_ok [OF assms])

text \<open>The first screen of the demonstration, \<open>SPEED: 80\<close> and \<open>RPM: 1726\<close> with their units.\<close>

definition demo_line :: "u8 \<Rightarrow> u8 list \<Rightarrow> u8 list" where
  "demo_line pos t = [0xFE, 0x45, pos] @ t @ replicate (20 - length t) 0"

lemma demo_texts:
  "c_snprintf 20 (cstr ''RPM: '' @ obd_text demo_float Get_engine_rpm [65, 12, 26, 248] @ cstr ''rpm'') (replicate 20 0) =
     cstr ''RPM: 1726rpm'' @ replicate 8 0"
  "c_snprintf 20 (cstr ''SPEED: '' @ obd_text demo_float Get_vehicle_speed [65, 13, 80] @ cstr ''km/h'') (replicate 20 0) =
     cstr ''SPEED: 80km/h'' @ replicate 7 0"
  by code_simp+

lemma demo_screen:
  "fw_screen demo_float (hd demo_rounds) =
    [0xFE, 0x46] @ demo_line 0x54 (cstr ''SPEED: 80km/h'') @ demo_line 0 (cstr ''RPM: 1726rpm'')"
proof -
  have l: "length (cstr ''SPEED: 80km/h'') = 13" "length (cstr ''RPM: 1726rpm'') = 12" by (simp_all add: cstr_def)
  show ?thesis
    by (simp add: demo_rounds_def fw_screen_def fw_frame_def fw_entry_def obd_cmds_defs fw_line_def fw_line_pids demo_texts demo_line_def l)
qed

theorem fw_pass_displays_witness:
  "\<exists>s s' s''. fw_start demo_platform (demo_fw demo_stream) = Some s \<and> fw_pass demo_platform s = Some s' \<and>
    fst (snd (tw_hw (fw_twi s'))) = [0xFE, 0x54] @ replicate 11 0 @
      [0xFE, 0x46] @ demo_line 0x54 (cstr ''SPEED: 80km/h'') @ demo_line 0 (cstr ''RPM: 1726rpm'') \<and>
    fw_pass demo_platform s' = Some s'' \<and> fw_same s s''"
proof -
  let ?s = "demo_fw demo_stream" and ?P = demo_platform and ?p = "fw_answers (demo_rounds ! 1)"
  from demo_start obtain s where s: "fw_start ?P ?s = Some s" "fw_list ?P [13, 12] s"
    "fw_idle ?P (\<lambda>h. h) (fw_answers (demo_rounds ! 0) @ ?p @ []) ([0xFE, 0x54] @ replicate 11 0) s" "length (fw_buf s) = 13"
    by (auto simp: demo_rounds_def)
  have r: "map fst (demo_rounds ! 0) = [13, 12]" "map fst (demo_rounds ! 1) = [13, 12]"
    "list_all (fw_cmds_ok (length (fw_buf s))) (demo_rounds ! 0)" "list_all (fw_cmds_ok (length (fw_buf s))) (demo_rounds ! 1)"
    using demo_cmds_ok s(4) by (simp_all add: demo_rounds_def)
  have b: "3 \<le> length (fw_buf s)" using s(4) by simp
  from fw_pass_displays [OF demo_platform_ok _ r(3) s(3) b] s(2) r(1) obtain s' where
    s': "fw_pass ?P s = Some s'" "fw_same s s'"
    "fw_idle ?P (\<lambda>h. h) (?p @ []) (([0xFE, 0x54] @ replicate 11 0) @ fw_screen (pl_fl ?P) (demo_rounds ! 0)) s'" by auto
  have l: "fw_list ?P (map fst (demo_rounds ! 1)) s'" using s(2) unfolding r(2) by (simp only: fw_list_same [OF s'(2)])
  have r4: "list_all (fw_cmds_ok (length (fw_buf s'))) (demo_rounds ! 1)" "3 \<le> length (fw_buf s')"
    using r(4) b s'(2) by (simp_all add: fw_same_def)
  from fw_pass_displays [OF demo_platform_ok l r4(1) s'(3) r4(2)] obtain s'' where
    s'': "fw_pass ?P s' = Some s''" "fw_same s' s''" by blast
  have "fw_screen (pl_fl ?P) (demo_rounds ! 0) =
      [0xFE, 0x46] @ demo_line 0x54 (cstr ''SPEED: 80km/h'') @ demo_line 0 (cstr ''RPM: 1726rpm'')"
    using demo_screen by (simp add: demo_platform_def demo_rounds_def)
  with s'(3) have "fst (snd (tw_hw (fw_twi s'))) = [0xFE, 0x54] @ replicate 11 0 @
      [0xFE, 0x46] @ demo_line 0x54 (cstr ''SPEED: 80km/h'') @ demo_line 0 (cstr ''RPM: 1726rpm'')"
    by (auto simp: fw_idle_def)
  with s(1) s'(1,2) s'' fw_same_trans [OF s'(2) s''(2)] show ?thesis by blast
qed

text \<open>C30. Without a card (the data line stays high) the start-up still comes to its end: the driver is marked as
  disabled and the file system's context is untouched, the ELM327 receives its four commands, the list of
  supported PIDs is built, and the display receives the 13 bytes FE 54 00 ... 00 of the array of \<open>main\<close>.\<close>

theorem fw_start_without_card:
  assumes "pl_bus P = mute_bus" and "fw_reset_ok P view bs s" and "view (tw_hw (fw_twi s)) = (TW_idle, shown, q)"
    and "elm_banner u" "elm_banner v" "elm_banner x"
    and "concat (ew_env (fw_elm s)) = fw_boot_answers u v x bs @ tail"
  shows "\<exists>s'. fw_start P s = Some s' \<and> sd_status (fw_sd s') = SD_DISABLED \<and> fw_fat s' = fw_fat s \<and>
    fw_list P (rev (pids_listed bs)) s' \<and> fw_idle P view tail (shown @ [0xFE, 0x54] @ replicate 11 0) s' \<and>
    ew_tx (fw_elm s') = ew_tx (fw_elm s) @ ELM_RESET @ ECHO_OFF @ SEARCH_BUS @ cstr ''0100'' @ [13]"
proof -
  obtain m where "fw_storage P (fw_hardware P s) = Some ((fw_hardware P s)\<lparr>fw_sd := (fw_sd (fw_hardware P s))\<lparr>sd_status := SD_DISABLED\<rparr>, fw_mcu := m\<rparr>)"
    using fw_storage_mute [OF assms(1)] by blast
  from fw_start_ok [OF assms(2-7) this] show ?thesis by (auto simp: fw_hardware_parts)
qed

theorem fw_start_without_card_witness:
  "\<exists>s'. fw_start demo_platform (demo_fw demo_stream) = Some s' \<and> sd_status (fw_sd s') = SD_DISABLED \<and>
    fw_list demo_platform [13, 12] s' \<and>
    ew_tx (fw_elm s') = cstr ''ATZ'' @ [13] @ cstr ''ATE0'' @ [13] @ cstr ''ATSP0'' @ [13] @ cstr ''0100'' @ [13]"
proof -
  have m: "pl_bus demo_platform = mute_bus" by (simp add: demo_platform_def)
  show ?thesis
    using fw_start_without_card [OF m demo_facts] unfolding demo_pids
    by (auto simp: demo_fw_def demo_elm_def ELM_RESET_def ECHO_OFF_def SEARCH_BUS_def)
qed


definition sd_platform :: "(sim, u8 list list, tw_mode \<times> u8 list \<times> u8 list, int) platform" where
  "sd_platform = \<lparr>pl_bus = sim_bus, pl_rx = script_rx, pl_twi = sim_twi, pl_fl = demo_float, pl_malloc = arena 9,
     pl_image = (\<lambda>i. [of_nat i]), pl_cmd = (\<lambda>d. obd_cmds ! unat (hd d)), pl_stack = replicate 70 9, pl_ret = [], pl_behind = [],
     pl_junk_file = demo_file [] [] []\<rparr>"

definition sd_fw :: "(sim, u8 list list, tw_mode \<times> u8 list \<times> u8 list) fw" where
  "sd_fw = \<lparr>fw_mcu = sim_off (sim_disk files_mem), fw_elm = demo_elm [], fw_twi = demo_twi (TW_idle, [], []),
     fw_sd = \<lparr>sd_type = 0, sd_status = 0, sd_sector_size = 0\<rparr>, fw_io = io_disk files_mem, fw_fat = demo_ctx,
     fw_obd = \<lparr>supported_devices = 0, linked_list = 0\<rparr>, fw_heap = empty_heap, fw_buf = [],
     fw_uart = (\<lambda>_. 0)\<rparr>"

lemma sd_fw_volume: "fw_volume files_mem 10 demo_ctx files_chain"
proof -
  have "fw_root files_mem demo_ctx = 0xC00"
    using files_ctx_fields(1) by (simp add: fw_root_def files_ctx_def)
  with files_volume show ?thesis by (simp add: fw_volume_def files_ctx_def)
qed




end
