(* ===== verification/Fat_Restart.thy ===== *)
theory Fat_Restart
  imports Fat_Props
begin

text \<open>
  A file across a restart: what the next mount finds of a file that was created, written and flushed. The
  lemmas follow the medium: which bytes a log leaves alone, how the listing of the directory changes when a
  slot is filled, and that the geometry and the chains of the volume are read as before.
\<close>

section \<open>The directory with one more file\<close>

text \<open>The slots past the end of the directory are free as well.\<close>

definition dir_tail_free :: "(u32 \<Rightarrow> u8 list) \<Rightarrow> u32 \<Rightarrow> bool" where
  "dir_tail_free s base \<longleftrightarrow> (\<forall>i < 16. \<forall>j < i. \<not> dir_open s base j \<longrightarrow> \<not> dir_open s base i)"

lemma takeWhile_closed:
  "(\<And>i j. j < i \<Longrightarrow> i < n \<Longrightarrow> \<not> P j \<Longrightarrow> \<not> P i) \<Longrightarrow> takeWhile P [0..<n] = filter P [0..<n]"
proof (induction n)
  case (Suc n)
  then have IH: "takeWhile P [0..<n] = filter P [0..<n]" by (meson less_SucI)
  show ?case
  proof (cases "\<forall>j < n. P j")
    case True
    then have "takeWhile P ([0..<n] @ [n]) = [0..<n] @ takeWhile P [n]" by (intro takeWhile_append2) simp
    with True show ?thesis by simp
  next
    case False
    then obtain j where j: "j < n" "\<not> P j" by blast
    then have "takeWhile P ([0..<n] @ [n]) = takeWhile P [0..<n]" by (intro takeWhile_append1) auto
    moreover have "\<not> P n" using Suc.prems j by blast
    ultimately show ?thesis using IH by simp
  qed
qed simp

lemma dir_live_open: "dir_live s base i \<Longrightarrow> dir_open s base i"
  by (simp add: dir_live_def dir_open_def)

lemma dir_files_closed:
  assumes "dir_tail_free s base" shows "dir_files s base [0..<16] = filter (dir_live s base) [0..<16]"
proof -
  have "takeWhile (dir_open s base) [0..<16] = filter (dir_open s base) [0..<16]"
    using assms by (intro takeWhile_closed) (auto simp: dir_tail_free_def)
  then show ?thesis using dir_live_open by (auto simp: dir_files_def dir_used_def intro: filter_cong)
qed

lemma dir_byte_entry: "disk_byte s (base + of_nat i * 32) = e_filename (dir_entry s base i) ! 0"
  by (simp only: entry_first_byte)

lemma dir_files_insert:
  assumes t: "dir_tail_free s base" and below: "\<And>i. i < l \<Longrightarrow> i \<in> set (dir_files s base [0..<16])"
    and same: "\<And>i. i < 16 \<Longrightarrow> i \<noteq> l \<Longrightarrow> dir_entry s' base i = dir_entry s base i"
    and new: "dir_live s' base l"
  shows "dir_files s' base [0..<16] = filter (\<lambda>i. i \<in> set (dir_files s base [0..<16]) \<or> i = l) [0..<16]"
proof -
  have eq: "dir_open s' base i = dir_open s base i \<and> dir_live s' base i = dir_live s base i" if "i < 16" "i \<noteq> l" for i
    using same [OF that] by (simp add: dir_open_def dir_live_def dir_byte_entry)
  have op: "dir_open s base i" if "i < l" for i
    using below [OF that] dir_live_open by (auto simp: dir_files_closed [OF t])
  have "dir_tail_free s' base"
    unfolding dir_tail_free_def
  proof (intro allI impI)
    fix i j assume a: "i < 16" "j < i" "\<not> dir_open s' base j"
    then have "j \<noteq> l" using dir_live_open [OF new] by blast
    then have c: "\<not> dir_open s base j" using eq [of j] a by simp
    then have "\<not> dir_open s base i" using t a unfolding dir_tail_free_def by blast
    moreover have "i \<noteq> l" using op [of j] a(2) c by auto
    ultimately show "\<not> dir_open s' base i" using eq a(1) by simp
  qed
  then have "dir_files s' base [0..<16] = filter (dir_live s' base) [0..<16]" by (rule dir_files_closed)
  also have "\<dots> = filter (\<lambda>i. i \<in> set (dir_files s base [0..<16]) \<or> i = l) [0..<16]"
    using eq new by (intro filter_cong) (auto simp: dir_files_closed [OF t])
  finally show ?thesis .
qed

text \<open>A new directory entry, read back.\<close>

lemma entry_cluster_new: "entry_cluster (new_entry f c) = c"
proof -
  have "65536 * unat (ucast (drop_bit 16 c) :: u16) + unat (ucast c :: u16) = unat c"
  proof -
    have "unat (drop_bit 16 c) = unat c div 65536" by (simp only: unat_drop_bit_eq) (simp add: drop_bit_eq_div)
    moreover have "unat c div 65536 < 65536" using unsigned_less [of c] by (simp add: less_mult_imp_div_less)
    ultimately have "unat (ucast (drop_bit 16 c) :: u16) = unat c div 65536" using unat_ucast_32_16 [of "drop_bit 16 c"] by simp
    moreover have "unat (ucast c :: u16) = unat c mod 65536" by (simp add: unsigned_ucast_eq take_bit_eq_mod)
    ultimately show ?thesis by simp
  qed
  then show ?thesis by (simp add: entry_cluster_def new_entry_def)
qed

lemma new_entry_wf: "entry_wf ((new_entry f c)\<lparr>e_file_size := k\<rparr>)"
  using entry_of_wf [of "replicate 32 0"] by (simp add: new_entry_def entry_wf_def)

text \<open>The slot of a new file is the first one that no file has.\<close>

lemma mounted_slots:
  assumes "length (concat (map chain (dir_files s base [0..<16]))) < 2 ^ 32 - 2"
    and "fat32_get_next_root_dir_loc (ctx\<lparr>root_dir_entries := root_listing ctx fc s base chain\<rparr>) = Some (of_nat l)" and "l < 16"
  shows "l \<notin> set (dir_files s base [0..<16]) \<and> (\<forall>i < l. i \<in> set (dir_files s base [0..<16]))"
proof -
  define fs where "fs = dir_files s base [0..<16]"
  define C where "C = ctx\<lparr>root_dir_entries := root_listing ctx fc s base chain\<rparr>"
  have lists: "map fat_list (root_dir_entries C) = map chain fs" "map root_dir_offset (root_dir_entries C) = map of_nat fs"
    "length (root_dir_entries C) = length fs"
    by (simp_all add: C_def fs_def root_listing_def dir_file_def)
  have "length fs \<le> 16" using length_dir_files [of s base "[0..<16]"] by (simp add: fs_def)
  then have "length fs < 2 ^ 32" by simp
  from alloc_least(2) [of C, unfolded lists, OF assms(1) [folded fs_def] this] assms(2) [folded C_def]
  have a: "\<not> fat32_root_entry_found C (of_nat l)" "\<And>d. d < of_nat l \<Longrightarrow> fat32_root_entry_found C d"
    by (simp_all only: option.inject) blast+
  have found: "fat32_root_entry_found C d \<longleftrightarrow> d \<in> of_nat ` set fs" for d
    using root_entry_set [of C, unfolded lists(2)] by auto
  have inj: "i = j" if "(of_nat i :: u32) = of_nat j" "i < 16" "j < 16" for i j
  proof -
    have "i < 2 ^ 32" "j < 2 ^ 32" using that(2,3) by simp_all
    then have "unat (of_nat i :: u32) = i" "unat (of_nat j :: u32) = j" by (simp_all only: unat_of_nat_u32)
    with that(1) show ?thesis by metis
  qed
  have "i \<in> set fs" if "i < l" for i
  proof -
    have "(of_nat i :: u32) < of_nat l"
      using that assms(3) unat_of_nat_u32 [of i] unat_of_nat_u32 [of l] by (simp add: word_less_nat_alt)
    from a(2) [OF this] obtain j where j: "j \<in> set fs" "(of_nat i :: u32) = of_nat j" unfolding found by blast
    moreover have "j < 16" using j(1) dir_files_set [of s base "[0..<16]"] by (auto simp: fs_def)
    ultimately have "i = j" using inj [of i j] that assms(3) by simp
    with j(1) show ?thesis by simp
  qed
  moreover have "l \<notin> set fs" using a(1) unfolding found by blast
  ultimately show ?thesis unfolding fs_def by blast
qed

section \<open>What a log leaves alone\<close>

text \<open>Below byte \<open>d\<close> nothing but the directory entry in \<open>slot\<close> differs.\<close>

definition keeps_but :: "u32 \<Rightarrow> nat \<Rightarrow> (u32 \<Rightarrow> u8 list) \<Rightarrow> (u32 \<Rightarrow> u8 list) \<Rightarrow> bool" where
  "keeps_but slot d s s' \<longleftrightarrow> (\<forall>x k. unat x + k \<le> d \<and> (unat x + k \<le> unat slot \<or> unat slot + 32 \<le> unat x) \<longrightarrow>
     disk_bytes s' x k = disk_bytes s x k)"

lemma keeps_but_refl [simp]: "keeps_but slot d s s"
  by (simp add: keeps_but_def)

lemma keeps_but_trans: "keeps_but slot d s s' \<Longrightarrow> keeps_but slot d s' s'' \<Longrightarrow> keeps_but slot d s s''"
  by (simp add: keeps_but_def)

lemma keeps_but_bytes: "\<lbrakk>keeps_but slot d s s'; unat x + k \<le> d; unat x + k \<le> unat slot \<or> unat slot + 32 \<le> unat x\<rbrakk> \<Longrightarrow>
    disk_bytes s' x k = disk_bytes s x k"
  by (simp add: keeps_but_def)

lemma keeps_but_puts:
  assumes "unat x + length bs \<le> 2 ^ 32" and "unat x + length bs \<le> 512 * n" and "\<And>a. unat a < n \<Longrightarrow> length (s a) = 512"
    and "d \<le> 2 ^ 32" and "d \<le> unat x \<or> x = slot \<and> length bs = 32"
  shows "keeps_but slot d s (disk_puts x bs s)"
  unfolding keeps_but_def using assms by (auto intro!: disk_bytes_frame [where N = n])

context block_device
begin

lemma write_keeps:
  assumes io: "io_ok ok sect n io m" and buf: "buf \<noteq> []" "unat (current_byte_offset g) + length buf \<le> e"
    and ready: "file_ready ctx g e" and e: "io_addr_ok n e" and junk: "\<forall>s. 0 \<le> junk s" and e0: "length e0 = 32"
    and w: "fat32_write_file_nbytes B junk e0 ctx g buf io m = Some (0, g', io', m')"
  defines "s \<equiv> io_pending io (sect m)" and "s' \<equiv> io_pending io' (sect m')" and "slot \<equiv> file_slot ctx g"
  shows "keeps_but slot (unat (start_byte_offset g)) s s' \<and>
    (let E = entry_of (disk_bytes s slot 32)
     in entry_of (disk_bytes s' slot 32) = E\<lparr>e_file_size := e_file_size E + of_nat (length buf)\<rparr>)"
proof -
  let ?st = "start_byte_offset g" and ?cur = "current_byte_offset g"
  have sep: "unat slot div 512 < unat ?cur div 512"
    using ready div_le_mono [of "unat ?st" "unat ?cur" 512] by (simp add: file_ready_def slot_def)
  have sl: "unat slot + 32 \<le> e" using ready by (simp add: file_ready_def slot_def)
  note wf = write_file_ok [OF io buf sl [unfolded slot_def file_slot_def] e sep [unfolded slot_def file_slot_def] junk e0]
  define s1 where "s1 = disk_puts ?cur buf s"
  define E where "E = entry_of (disk_bytes s1 slot 32)"
  define E' where "E' = E\<lparr>e_file_size := e_file_size E + of_nat (length buf)\<rparr>"
  have s': "s' = disk_puts slot (entry_bytes E') s1"
    using wf w by (auto simp: Let_def s_def s'_def s1_def E_def E'_def slot_def file_slot_def)
  have r: "unat slot + 32 \<le> unat ?st" "unat ?st \<le> unat ?cur" "unat ?cur + length buf \<le> 512 * n" "unat ?cur + length buf \<le> 2 ^ 32"
    using ready buf(2) e by (auto simp: file_ready_def slot_def io_addr_ok_def)
  have len: "\<And>a. unat a < n \<Longrightarrow> length (s a) = 512" unfolding s_def by (rule io_pending_len [OF io])
  then have len1: "\<And>a. unat a < n \<Longrightarrow> length (s1 a) = 512" by (simp add: s1_def)
  have wE: "entry_wf E'" using entry_of_wf [of "disk_bytes s1 slot 32"] by (simp add: E'_def E_def entry_wf_def)
  note eb = length_entry_bytes [OF wE]
  have k1: "keeps_but slot (unat ?st) s s1" unfolding s1_def using r by (intro keeps_but_puts [where n = n] len) auto
  have k2: "keeps_but slot (unat ?st) s1 s'" unfolding s' using r eb by (intro keeps_but_puts [where n = n] len1) auto
  have "disk_bytes s1 slot 32 = disk_bytes s slot 32"
    unfolding s1_def using r by (intro disk_bytes_frame [where N = n] len) auto
  moreover have "disk_bytes s' slot 32 = entry_bytes E'"
    unfolding s' using disk_bytes_puts [where s = s1 and N = n and x = slot and bs = "entry_bytes E'"] r eb len1 by auto
  ultimately show ?thesis
    using keeps_but_trans [OF k1 k2] entry_of_bytes [OF wE] by (simp add: Let_def E'_def E_def)
qed

lemma log_offsets:
  assumes "io_ok ok sect n io m" and "[] \<notin> set bufs" and "unat (current_byte_offset g) + length (concat bufs) \<le> e"
    and "file_ready ctx g e" and e: "io_addr_ok n e" and junk: "\<forall>s. 0 \<le> junk s" and e0: "length e0 = 32"
    and "fat32_log B junk e0 ctx g bufs io m = Some (g', io', m')"
  shows "start_byte_offset g' = start_byte_offset g \<and> unat (current_byte_offset g') = unat (current_byte_offset g) + length (concat bufs)"
  using assms(1-4,8)
proof (induction bufs arbitrary: g io m)
  case (Cons buf bufs)
  have b: "buf \<noteq> []" "unat (current_byte_offset g) + length buf \<le> e" using Cons.prems(2,3) by auto
  obtain g1 io1 m1 where w: "fat32_write_file_nbytes B junk e0 ctx g buf io m = Some (0, g1, io1, m1)"
    "io_ok ok sect n io1 m1" "file_ready ctx g1 e"
    "unat (current_byte_offset g1) = unat (current_byte_offset g) + length buf"
    using write_file_view [OF Cons.prems(1) b Cons.prems(4) e junk e0] by blast
  have "start_byte_offset g1 = start_byte_offset g"
    using w(1) by (auto simp: fat32_write_file_nbytes_def bind_eq_Some_conv)
  with Cons.IH [OF w(2) _ _ w(3)] Cons.prems(2,3,5) w(1,4) show ?case by simp
qed simp

lemma log_keeps:
  assumes "io_ok ok sect n io m" and "[] \<notin> set bufs" and "unat (current_byte_offset g) + length (concat bufs) \<le> e"
    and "file_ready ctx g e" and e: "io_addr_ok n e" and junk: "\<forall>s. 0 \<le> junk s" and e0: "length e0 = 32"
    and "fat32_log B junk e0 ctx g bufs io m = Some (g', io', m')"
  shows "io_ok ok sect n io' m' \<and>
    keeps_but (file_slot ctx g) (unat (start_byte_offset g)) (io_pending io (sect m)) (io_pending io' (sect m')) \<and>
    (let E = entry_of (disk_bytes (io_pending io (sect m)) (file_slot ctx g) 32)
     in entry_of (disk_bytes (io_pending io' (sect m')) (file_slot ctx g) 32) =
       E\<lparr>e_file_size := e_file_size E + of_nat (length (concat bufs))\<rparr>)"
  using assms(1-4,8)
proof (induction bufs arbitrary: g io m)
  case Nil
  then show ?case by (simp add: Let_def)
next
  case (Cons buf bufs)
  have b: "buf \<noteq> []" "unat (current_byte_offset g) + length buf \<le> e" using Cons.prems(2,3) by auto
  obtain g1 io1 m1 where w: "fat32_write_file_nbytes B junk e0 ctx g buf io m = Some (0, g1, io1, m1)"
    "io_ok ok sect n io1 m1" "file_ready ctx g1 e"
    "unat (current_byte_offset g1) = unat (current_byte_offset g) + length buf"
    using write_file_view [OF Cons.prems(1) b Cons.prems(4) e junk e0] by blast
  have g1: "file_slot ctx g1 = file_slot ctx g" "start_byte_offset g1 = start_byte_offset g"
    using w(1) by (auto simp: fat32_write_file_nbytes_def bind_eq_Some_conv file_slot_def)
  have "fat32_log B junk e0 ctx g1 bufs io1 m1 = Some (g', io', m')" using Cons.prems(5) w(1) by simp
  moreover have "unat (current_byte_offset g1) + length (concat bufs) \<le> e" using Cons.prems(3) w(4) by simp
  moreover have "[] \<notin> set bufs" using Cons.prems(2) by simp
  ultimately have ih: "io_ok ok sect n io' m' \<and>
    keeps_but (file_slot ctx g1) (unat (start_byte_offset g1)) (io_pending io1 (sect m1)) (io_pending io' (sect m')) \<and>
    (let E = entry_of (disk_bytes (io_pending io1 (sect m1)) (file_slot ctx g1) 32)
     in entry_of (disk_bytes (io_pending io' (sect m')) (file_slot ctx g1) 32) =
       E\<lparr>e_file_size := e_file_size E + of_nat (length (concat bufs))\<rparr>)"
    using Cons.IH [OF w(2) _ _ w(3)] by blast
  from write_keeps [OF Cons.prems(1) b Cons.prems(4) e junk e0 w(1)] ih show ?case
    unfolding g1 by (auto simp: Let_def add.assoc intro: keeps_but_trans)
qed

end

section \<open>The volume after a log\<close>

text \<open>The usual order on a card: the partition table and the boot sector, the FAT cells of every file, the
  directory, and then, from byte \<open>d\<close> on, the data of the new file, whose chain is \<open>ch\<close>.\<close>

definition volume_ordered :: "fat32_ctx \<Rightarrow> (u32 \<Rightarrow> u8 list) \<Rightarrow> u32 \<Rightarrow> nat \<Rightarrow> (nat \<Rightarrow> u32 list) \<Rightarrow> u32 list \<Rightarrow> bool" where
  "volume_ordered ctx s base d chain ch \<longleftrightarrow> 512 \<le> unat base \<and> unat (512 * pt_start_sector (fat_partition s)) + 512 \<le> unat base \<and>
     (\<forall>i \<in> set (dir_files s base [0..<16]). \<forall>k \<in> set (chain i). fat_in_range ctx (unat base) k) \<and>
     (\<forall>k \<in> set ch. fat_in_range ctx (unat base) k) \<and> unat base + 512 \<le> d \<and> dir_tail_free s base"

definition listing_with :: "fat32_ctx \<Rightarrow> u32 \<Rightarrow> (u32 \<Rightarrow> u8 list) \<Rightarrow> u32 \<Rightarrow> (nat \<Rightarrow> u32 list) \<Rightarrow> nat \<Rightarrow> FAT32Entry \<Rightarrow> u32 list \<Rightarrow> fat32_file list" where
  "listing_with ctx fc s base chain l en ch =
    map (\<lambda>i. if i = l then dir_file ctx fc en l ch else dir_file ctx fc (dir_entry s base i) i (chain i))
      (filter (\<lambda>i. i \<in> set (dir_files s base [0..<16]) \<or> i = l) [0..<16])"

lemma fat_chain_cells: "(\<And>k. k \<in> set cs \<Longrightarrow> fat_cell ctx s' k = fat_cell ctx s k) \<Longrightarrow> fat_chain ctx s' cs = fat_chain ctx s cs"
  by (induction cs rule: induct_list012) auto

lemma fat_in_range_mono: "fat_in_range ctx a k \<Longrightarrow> a \<le> e \<Longrightarrow> fat_in_range ctx e k"
  by (simp add: fat_in_range_def)

lemma dir_slot_aligned: "512 dvd unat (dir_slot ctx 0)"
proof -
  have "(4294967296 :: nat) = 512 * 8388608" by simp
  then have "(512 :: nat) dvd 4294967296" by (rule dvdI)
  then show ?thesis by (simp add: dir_slot_def SECTOR_SIZE_def unat_word_ariths(2) dvd_mod)
qed

lemma restart_volume:
  assumes base: "unat base + 512 \<le> e" "unat base + 512 \<le> 2 ^ 32" and ord: "volume_ordered ctx s base d chain ch"
    and vol: "volume_ok ctx s base e chain"
    and slot: "slot = base + of_nat l * 32" "l < 16" and k: "keeps_but slot d s s'"
    and en: "entry_of (disk_bytes s' slot 32) = en" "e_filename en ! 0 \<notin> {0, 0xE5}" "e_file_attr en AND 0x0F \<noteq> 0x0F"
    and below: "\<forall>i < l. i \<in> set (dir_files s base [0..<16])" and l: "l \<notin> set (dir_files s base [0..<16])"
    and ch: "fat_chain ctx s ch" "hd ch = entry_cluster en + 2"
  shows "fat_geometry fat s' = fat_geometry fat s" and "volume_ok ctx s' base e (chain(l := ch))"
    and "root_listing ctx fc s' base (chain(l := ch)) = listing_with ctx fc s base chain l en ch"
proof -
  have o: "512 \<le> unat base" "unat (512 * pt_start_sector (fat_partition s)) + 512 \<le> unat base" "unat base + 512 \<le> d"
    "dir_tail_free s base" using ord by (simp_all add: volume_ordered_def)
  have u: "unat (base + of_nat i * 32) = unat base + 32 * i" if "i < 16" for i
    using unat_add_of_nat [of base "32 * i"] that base(2) by (simp add: mult.commute)
  have low: "disk_bytes s' x n = disk_bytes s x n" if "unat x + n \<le> unat base" for x n
    using that o(3) u [OF slot(2)] by (intro keeps_but_bytes [OF k]) (auto simp: slot(1))
  have p: "fat_partition s' = fat_partition s" using low [of "0x1BE" 16] o(1) by (simp add: fat_partition_def)
  have b: "fat_boot s' = fat_boot s" using low [of "512 * pt_start_sector (fat_partition s)" 512] o(2) by (simp add: fat_boot_def p)
  show "fat_geometry fat s' = fat_geometry fat s" by (simp add: fat_geometry_def p b)
  have other: "dir_entry s' base i = dir_entry s base i" if "i < 16" "i \<noteq> l" for i
  proof -
    have "disk_bytes s' (base + of_nat i * 32) 32 = disk_bytes s (base + of_nat i * 32) 32"
      using that o(3) u [OF slot(2)] u [OF that(1)] by (intro keeps_but_bytes [OF k]) (auto simp: slot(1))
    then show ?thesis by (simp add: dir_entry_def)
  qed
  have own: "dir_entry s' base l = en" using en(1) by (simp add: dir_entry_def slot(1))
  then have own': "dir_live s' base l" using en(2,3) by (simp add: dir_live_def dir_byte_entry)
  from dir_files_insert [OF o(4) below [rule_format] other own']
  have files: "dir_files s' base [0..<16] = filter (\<lambda>i. i \<in> set (dir_files s base [0..<16]) \<or> i = l) [0..<16]" .
  have cell: "fat_cell ctx s' i = fat_cell ctx s i" if "fat_in_range ctx (unat base) i" for i
    using low that by (simp add: fat_cell_def fat_in_range_def)
  have chains: "shifted_chains ctx s' base [0..<16] e (chain(l := ch))"
    unfolding shifted_chains_def
  proof
    fix i assume "i \<in> set (dir_files s' base [0..<16])"
    then have i: "i < 16" "i = l \<or> i \<noteq> l \<and> i \<in> set (dir_files s base [0..<16])" unfolding files by auto
    have rng: "\<forall>j \<in> set ((chain(l := ch)) i). fat_in_range ctx (unat base) j"
      using ord i(2) by (auto simp: volume_ordered_def)
    then have same: "fat_chain ctx s' ((chain(l := ch)) i) = fat_chain ctx s ((chain(l := ch)) i)"
      using cell by (intro fat_chain_cells) blast
    have "fat_chain ctx s ((chain(l := ch)) i) \<and> hd ((chain(l := ch)) i) = entry_cluster (dir_entry s' base i) + 2"
      using i ch own other [OF i(1)] vol by (auto simp: volume_ok_def shifted_chains_def)
    with same rng fat_in_range_mono [of ctx "unat base" _ e] base(1)
    show "fat_chain ctx s' ((chain(l := ch)) i) \<and> hd ((chain(l := ch)) i) = entry_cluster (dir_entry s' base i) + 2 \<and>
        (\<forall>j \<in> set ((chain(l := ch)) i). fat_in_range ctx e j)" by auto
  qed
  have "dir_reads s' base [0..<16] \<le> 16" by (simp add: dir_reads_def)
  with base(1) chains vol show "volume_ok ctx s' base e (chain(l := ch))" by (simp add: volume_ok_def p)
  show "root_listing ctx fc s' base (chain(l := ch)) = listing_with ctx fc s base chain l en ch"
    unfolding root_listing_def files listing_with_def using own other by (intro map_cong) auto
qed

context block_device
begin

lemma restart_ok:
  assumes io: "io_ok ok sect n io m" "io_fresh sect io m" "io_clean sect io m" "io_addr_ok n e" and sd: "sd_status sd \<noteq> SD_DISABLED"
      "sd_sector_size sd = 512"
    and s: "s = sect m" and ctx: "ctx = fat_geometry fat s" and base: "base = dir_slot ctx 0" and vol: "volume_ok ctx s base e chain"
    and C: "C = ctx\<lparr>root_dir_entries := root_listing ctx (first_cluster jf) s base chain\<rparr>"
    and new: "dir_lookup s base f = None" and name: "c_strncpy 8 (file_name f) ! 0 \<notin> {0, 0xE5}"
    and l: "fat32_get_next_root_dir_loc C = Some (of_nat l)" "l < 16" and c: "fat32_get_next_cluster C = Some c"
    and len: "length (concat (map chain (dir_files s base [0..<16]))) < 2 ^ 32 - 2"
    and ord: "volume_ordered ctx s base (unat (cluster_byte ctx c)) chain ch" and ch: "fat_chain ctx s ch" "hd ch = c + 2"
    and bufs: "[] \<notin> set bufs" "unat (cluster_byte ctx c) + length (concat bufs) \<le> e"
    and junk: "\<forall>s. 0 \<le> junk s" and e0: "length e0 = 32"
    and io0: "length (input_sector_buf io0) = 512" "length (output_sector_buf io0) = 512"
  defines "en \<equiv> (new_entry f c)\<lparr>e_file_size := of_nat (length (concat bufs))\<rparr>"
  shows "\<exists>io1 m1 f1 io2 m2 f2 io3 m3 m4 io5 m5 io6 m6. initialize_fat32 B jf fat io sd m = Some (0, C, io1, m1) \<and>
    fat32_creat_file B junk C f io1 m1 = Some (0, f1, io2, m2) \<and> fat32_log B junk e0 C f1 bufs io2 m2 = Some (f2, io3, m3) \<and>
    io_flush_write_buffer B io3 m3 = Some (0, io3, m4) \<and> initialize_io B io0 sd m4 = Some (0, io5, m5) \<and>
    initialize_fat32 B jf fat io5 sd m5 =
      Some (0, ctx\<lparr>root_dir_entries := listing_with ctx (first_cluster jf) s base chain l en ch\<rparr>, io6, m6) \<and>
    disk_bytes (sect m6) (cluster_byte ctx c) (length (concat bufs)) = concat bufs"
proof -
  let ?cb = "cluster_byte ctx c" and ?slot = "base + of_nat l * 32"
  have root: "base = root_dir_sector ctx * ucast (sd_sector_size sd)" by (simp add: sd(2) base dir_slot_def SECTOR_SIZE_def)
  have o: "unat base + 512 \<le> unat ?cb" using ord by (simp add: volume_ordered_def)
  have b: "unat base + 512 \<le> e" "unat base + 512 \<le> 2 ^ 32" and cb32: "unat ?cb \<le> 2 ^ 32" using o bufs(2) io(4) by (simp_all add: io_addr_ok_def)
  have su: "unat ?slot = unat base + 32 * l"
    using unat_add_of_nat [of base "32 * l"] l(2) b(2) by (simp add: mult.commute)
  obtain io1 m1 where mt: "initialize_fat32 B jf fat io sd m = Some (0, C, io1, m1)"
    "io_ok ok sect n io1 m1" "sect m1 = s" "io_same_out io io1"
    using mount_ok [OF io(1,2,4) sd(1) ctx [unfolded s] root vol [unfolded s], of jf] by (auto simp: C s)
  have p1: "io_pending io1 (sect m1) = s"
    using io(3) mt(3,4) s by (simp add: io_pending_def io_same_out_def io_clean_def)
  have slot: "dir_slot C (of_nat l) = ?slot" by (simp add: base dir_slot_def C)
  have cb: "cluster_byte C c = ?cb" by (simp add: cluster_byte_def C)
  have ex: "fat32_file_exists C f = None" using new by (simp add: C mounted_exists)
  have sl: "unat (dir_slot C (of_nat l)) + 32 \<le> e" using b(1) l(2) su slot by simp
  obtain io2 m2 where cr: "fat32_creat_file B junk C f io1 m1 = Some (0, new_file C f (of_nat l) c, io2, m2)"
    "io_ok ok sect n io2 m2" "io_pending io2 (sect m2) = disk_puts ?slot (entry_bytes (new_entry f c)) s"
    using creat_new_ok [OF mt(2) ex l(1) c sl io(4) junk] unfolding slot p1 by blast
  let ?f = "new_file C f (of_nat l) c"
  have wf: "entry_wf (new_entry f c)" using new_entry_wf [of 0 f c] by (simp add: new_entry_def)
  have f: "file_slot C ?f = ?slot" "start_byte_offset ?f = ?cb" "current_byte_offset ?f = ?cb"
    using slot cb by (simp_all add: file_slot_def new_file_def)
  have "unat ?slot div 512 < unat ?cb div 512"
  proof -
    obtain k where k: "unat base = 512 * k" using dir_slot_aligned [of ctx] unfolding base by (rule dvdE)
    then have "unat ?slot div 512 = k" using su l(2) by simp
    moreover have "k + 1 \<le> unat ?cb div 512" using o k by (simp add: less_eq_div_iff_mult_less_eq)
    ultimately show ?thesis by simp
  qed
  then have ready: "file_ready C ?f e" using o bufs(2) su l(2) unfolding file_ready_def f by simp
  have cur: "unat (current_byte_offset ?f) + length (concat bufs) \<le> e" using bufs(2) by (simp only: f)
  obtain f2 io3 m3 where lg: "fat32_log B junk e0 C ?f bufs io2 m2 = Some (f2, io3, m3)" "io_ok ok sect n io3 m3"
    "file_view C f2 (io_pending io3 (sect m3)) = (fst (file_view C ?f (io_pending io2 (sect m2))) @ concat bufs,
       snd (file_view C ?f (io_pending io2 (sect m2))) + of_nat (length (concat bufs)))"
    using log_view [OF cr(2) bufs(1) cur ready io(4) junk e0] by blast
  define s' where "s' = io_pending io3 (sect m3)"
  obtain m4 where fl: "io_flush_write_buffer B io3 m3 = Some (0, io3, m4)" "ok m4" "sect m4 = s'"
    using io_flush_write_ok [OF lg(2)] by (auto simp: s'_def)
  have n: "0 < n" "\<forall>a. unat a < n \<longrightarrow> length (sect m4 a) = 512"
    using lg(2) io_pending_len [OF lg(2)] fl(3) by (auto simp: io_ok_def s'_def)
  obtain io5 m5 where i5: "initialize_io B io0 sd m4 = Some (0, io5, m5)" "io_ok ok sect n io5 m5" "io_fresh sect io5 m5" "sect m5 = s'"
    using initialize_io_ok [OF fl(2) n(1) io0 n(2), of sd] fl(3) by auto
  have eb: "disk_bytes (io_pending io2 (sect m2)) ?slot 32 = entry_bytes (new_entry f c)"
    "keeps_but ?slot (unat ?cb) s (io_pending io2 (sect m2))"
  proof -
    have r: "unat ?slot + length (entry_bytes (new_entry f c)) \<le> 2 ^ 32" "unat ?slot + length (entry_bytes (new_entry f c)) \<le> 512 * n"
      using sl slot io(4) length_entry_bytes [OF wf] by (auto simp: io_addr_ok_def)
    have ls: "\<And>a. unat a < n \<Longrightarrow> length (s a) = 512" using io(1) by (simp add: io_ok_def s)
    show "disk_bytes (io_pending io2 (sect m2)) ?slot 32 = entry_bytes (new_entry f c)"
      using disk_bytes_puts [where s = s and N = n, OF r(1) ls r(2)] length_entry_bytes [OF wf] by (simp add: cr(3))
    show "keeps_but ?slot (unat ?cb) s (io_pending io2 (sect m2))"
      unfolding cr(3) using r length_entry_bytes [OF wf] cb32 by (intro keeps_but_puts [where n = n] ls) auto
  qed
  note lk = log_keeps [OF cr(2) bufs(1) cur ready io(4) junk e0 lg(1), unfolded f eb(1) Let_def entry_of_bytes [OF wf], folded s'_def]
  have k: "keeps_but ?slot (unat ?cb) s s'" using keeps_but_trans [OF eb(2)] lk by blast
  have en: "entry_of (disk_bytes s' ?slot 32) = en" "e_filename en ! 0 \<notin> {0, 0xE5}" "e_file_attr en AND 0x0F \<noteq> 0x0F"
    "entry_cluster en = c"
    using lk name entry_cluster_new [of f c]
    by (simp_all add: en_def new_entry_def entry_of_def entry_cluster_def)
  have free: "l \<notin> set (dir_files s base [0..<16])" and below: "\<forall>i < l. i \<in> set (dir_files s base [0..<16])"
    using mounted_slots [OF len l(1) [unfolded C] l(2)] by auto
  note rv = restart_volume [OF b ord vol refl l(2) k en(1-3) below free ch(1)]
  have ch2: "hd ch = entry_cluster en + 2" using en(4) ch(2) by simp
  note rv' = rv [OF ch2]
  have ctx': "ctx = fat_geometry fat (sect m5)" by (simp only: i5(4) rv'(1) ctx)
  have vol': "volume_ok ctx (sect m5) base e (chain(l := ch))" unfolding i5(4) by (rule rv'(2))
  obtain io6 m6 where m6: "initialize_fat32 B jf fat io5 sd m5 =
      Some (0, ctx\<lparr>root_dir_entries := root_listing ctx (first_cluster jf) s' base (chain(l := ch))\<rparr>, io6, m6)" "sect m6 = s'"
    using mount_ok [OF i5(2,3) io(4) sd(1) ctx' root vol', of jf] unfolding i5(4) by blast
  have "start_byte_offset f2 = ?cb \<and> unat (current_byte_offset f2) = unat ?cb + length (concat bufs)"
    using log_offsets [OF cr(2) bufs(1) cur ready io(4) junk e0 lg(1)] by (simp only: f)
  moreover have "fst (file_view C ?f (io_pending io2 (sect m2))) = []" by (simp add: file_view_def f disk_bytes_def)
  ultimately have "disk_bytes s' ?cb (length (concat bufs)) = concat bufs"
    using arg_cong [OF lg(3), of fst] by (simp add: file_view_def s'_def)
  with mt(1) cr(1) lg(1) fl(1) i5(1) m6 show ?thesis unfolding rv'(3) by blast
qed

end

section \<open>The property\<close>

text \<open>C10. A log survives a restart. On a card with a FAT32 volume (ordered as usual, with the cluster given away behind
  the directory, and a chain that ends at the place where opening the new file looks for one, two clusters on), where
  the shifted chains of the files exist and end, and with undefined results of the byte writes that are not
  negative: mount it, create a new file, append chunk after chunk, flush, and start again with fresh caches. All of
  it returns 0, and the records of the files listed before are the same in the second listing, which has one more,
  with the new file's name, its slot and the number of bytes appended as its size; the card holds these bytes at
  the file's first byte. Nothing is said of the data of the other files: the new file may be given the cluster
  of one of them.\<close>

theorem fat32_log_survives:
  fixes V :: "'c \<Rightarrow> 'x card_scheme"
  assumes "io_sd_ok V n bus io m" and "io_fresh (sd_sectors V) io m" and "io_clean (sd_sectors V) io m" and "io_addr_ok n e"
    and "sd_status sd \<noteq> SD_DISABLED" and "sd_sector_size sd = 512"
    and "s = sd_sectors V m" and "ctx = fat_geometry fat s" and "base = dir_slot ctx 0" and "volume_ok ctx s base e chain"
    and "C = ctx\<lparr>root_dir_entries := root_listing ctx (first_cluster jf) s base chain\<rparr>"
    and "dir_lookup s base f = None" and "c_strncpy 8 (file_name f) ! 0 \<notin> {0, 0xE5}"
    and "fat32_get_next_root_dir_loc C = Some (of_nat l)" and "l < 16" and "fat32_get_next_cluster C = Some c"
    and "length (concat (map chain (dir_files s base [0..<16]))) < 2 ^ 32 - 2"
    and "volume_ordered ctx s base (unat (cluster_byte ctx c)) chain ch" and "fat_chain ctx s ch" and "hd ch = c + 2"
    and "[] \<notin> set bufs" and "unat (cluster_byte ctx c) + length (concat bufs) \<le> e"
    and "\<forall>s. 0 \<le> junk s" and "length e0 = 32"
    and "length (input_sector_buf io0) = 512" and "length (output_sector_buf io0) = 512"
    and "en = (new_entry f c)\<lparr>e_file_size := of_nat (length (concat bufs))\<rparr>"
  shows "\<exists>io1 m1 f1 io2 m2 f2 io3 m3 m4 io5 m5 io6 m6.
    initialize_fat32 (sd_ops bus) jf fat io sd m = Some (0, C, io1, m1) \<and>
    fat32_creat_file (sd_ops bus) junk C f io1 m1 = Some (0, f1, io2, m2) \<and>
    fat32_log (sd_ops bus) junk e0 C f1 bufs io2 m2 = Some (f2, io3, m3) \<and>
    io_flush_write_buffer (sd_ops bus) io3 m3 = Some (0, io3, m4) \<and>
    initialize_io (sd_ops bus) io0 sd m4 = Some (0, io5, m5) \<and>
    initialize_fat32 (sd_ops bus) jf fat io5 sd m5 =
      Some (0, ctx\<lparr>root_dir_entries := listing_with ctx (first_cluster jf) s base chain l en ch\<rparr>, io6, m6) \<and>
    disk_bytes (sd_sectors V m6) (cluster_byte ctx c) (length (concat bufs)) = concat bufs"
proof -
  have "io_ok (sd_ok V n bus) (sd_sectors V) n io m" using assms(1) by (simp only: io_sd_ok_def)
  from sd_blk.restart_ok [OF this assms(2-26)] show ?thesis unfolding assms(27) .
qed

text \<open>On the example volume the new file gets the slot of the deleted one and cluster 3, behind the directory.\<close>

definition restart_file :: fat32_file where
  "restart_file = demo_file (dir_name ''NEW     '') (dir_name ''TXT'') []"

definition restart_listing :: "fat32_file list" where
  "restart_listing = root_listing files_ctx (first_cluster (demo_file [] [] [])) files_mem 0xC00 files_chain"

lemma restart_alloc:
  "fat32_get_next_root_dir_loc (files_ctx\<lparr>root_dir_entries := restart_listing\<rparr>) = Some (of_nat 0)"
  "fat32_get_next_cluster (files_ctx\<lparr>root_dir_entries := restart_listing\<rparr>) = Some 3"
  by (simp_all add: fat32_get_next_root_dir_loc_def fat32_get_next_cluster_def first_not.simps fat32_root_entry_found_def
      fat32_address_in_dir_def restart_listing_def root_listing_def files_dir dir_file_def files_chain_def del: One_nat_def)

lemma files_data: "cluster_byte files_ctx 3 = 0xE00"
proof -
  have "cluster_begin_sector files_ctx = 6" "sectors_per_cluster files_ctx = 1"
    by (simp_all add: files_ctx_def fat_geometry_def files_partition)
      (simp_all add: fat32_set_context_def fat32_set_partition_def mount_boot_fields mount_part_fields Let_def)
  then show ?thesis by (simp add: cluster_byte_def SECTOR_SIZE_def)
qed

lemma files_tail: "dir_tail_free files_mem 0xC00"
proof -
  have "disk_byte files_mem (0xC00 + of_nat i * 32) = 0" if "4 \<le> i" "i < 16" for i
  proof -
    have "i \<in> set [4..<16]" using that by (simp only: set_upt atLeastLessThan_iff)
    moreover have "list_all (\<lambda>i. disk_byte files_mem (0xC00 + of_nat i * 32) = 0) [4..<16]"
      by (simp add: upt_conv_Cons disk_byte_def files_mem_def demo_slots_def dir_name_def nth_append)
    ultimately show ?thesis by (simp only: list_all_iff)
  qed
  moreover have "dir_open files_mem 0xC00 j" if "j < 4" for j
  proof -
    have "j \<in> set [0..<4]" using that by (simp only: set_upt atLeastLessThan_iff) simp
    moreover have "[0..<4] = [0, 1, 2, 3 :: nat]" by code_simp
    ultimately have "j = 0 \<or> j = 1 \<or> j = 2 \<or> j = 3" by simp
    then show ?thesis by (auto simp: dir_open_def files_bytes simp del: One_nat_def)
  qed
  ultimately show ?thesis unfolding dir_tail_free_def by (meson dir_open_def linorder_not_less order.trans order.strict_implies_order)
qed

lemma files_ordered: "volume_ordered files_ctx files_mem 0xC00 (unat (cluster_byte files_ctx 3)) files_chain [5, 7]"
proof -
  have "fat_in_range files_ctx 3072 d" if "d \<in> {5, 7, 2}" for d
    using that by (auto simp: fat_in_range_def fat_cell_addr_def files_ctx_fields SECTOR_SIZE_BYTES_def)
  then show ?thesis
    by (simp add: volume_ordered_def files_dir files_chain_def files_tail files_data files_partition mount_part_fields del: One_nat_def)
qed

theorem fat32_log_survives_witness:
  "\<exists>C io1 m1 f1 io2 m2 f2 io3 m3 m4 io5 m5 C' io6 m6.
    initialize_fat32 (sd_ops sim_bus) (demo_file [] [] []) demo_ctx (io_disk files_mem) files_sd (sim_disk files_mem) = Some (0, C, io1, m1) \<and>
    fat32_creat_file (sd_ops sim_bus) (\<lambda>_. 0) C restart_file io1 m1 = Some (0, f1, io2, m2) \<and>
    fat32_log (sd_ops sim_bus) (\<lambda>_. 0) (replicate 32 0) C f1 [[1, 2], [3]] io2 m2 = Some (f2, io3, m3) \<and>
    io_flush_write_buffer (sd_ops sim_bus) io3 m3 = Some (0, io3, m4) \<and>
    initialize_io (sd_ops sim_bus) io_zero files_sd m4 = Some (0, io5, m5) \<and>
    initialize_fat32 (sd_ops sim_bus) (demo_file [] [] []) demo_ctx io5 files_sd m5 = Some (0, C', io6, m6) \<and>
    map file_name (root_dir_entries C') = [dir_name ''NEW     '', dir_name ''LOG     '', dir_name ''A       ''] \<and>
    map file_size (root_dir_entries C') = [3, 3, 0] \<and> disk_bytes (sd_sectors sim_view m6) 0xE00 3 = [1, 2, 3]"
proof -
  let ?J = "demo_file [] [] []" and ?en = "(new_entry restart_file 3)\<lparr>e_file_size := of_nat (length (concat [[1, 2], [3 :: u8]]))\<rparr>"
  let ?L = "listing_with files_ctx (first_cluster ?J) files_mem 0xC00 files_chain 0 ?en [5, 7]"
  have clean: "io_clean (sd_sectors sim_view) (io_disk files_mem) (sim_disk files_mem)"
    by (simp add: io_clean_def files_start(7)) (simp add: io_disk_def io_zero_def)
  have ctx: "files_ctx = fat_geometry demo_ctx files_mem" by (simp add: files_ctx_def)
  have base: "0xC00 = dir_slot files_ctx 0" by (simp only: files_ctx_fields)
  have n: "c_strncpy 8 (dir_name ''NEW     '') = dir_name ''NEW     ''" "c_strncpy 8 (dir_name ''LOG     '') = dir_name ''LOG     ''"
    "c_strncpy 8 (dir_name ''A       '') = dir_name ''A       ''" by code_simp+
  have name: "c_strncpy 8 (file_name restart_file) ! 0 \<notin> {0, 0xE5}"
    by (simp add: restart_file_def demo_file_def n) (simp add: dir_name_def)
  have len: "length (concat (map files_chain (dir_files files_mem 0xC00 [0..<16]))) < 2 ^ 32 - 2"
    by (simp add: files_dir files_chain_def)
  have ch: "fat_chain files_ctx files_mem [5, 7]" "hd [5, 7] = (3 :: u32) + 2"
    by (simp_all add: files_cells fat_end_mark_def)
  have b: "[] \<notin> set [[1, 2], [3 :: u8]]" "unat (cluster_byte files_ctx 3) + length (concat [[1, 2], [3 :: u8]]) \<le> 5120"
    by (simp_all add: files_data)
  have z: "\<forall>s :: io_ctx. (0 :: int) \<le> (\<lambda>_. 0) s" "length (replicate 32 (0 :: u8)) = 32"
    "length (input_sector_buf io_zero) = 512" "length (output_sector_buf io_zero) = 512"
    by (simp_all add: io_zero_def)
  note al = restart_alloc [unfolded restart_listing_def]
  note r = fat32_log_survives [OF files_start(1,2) clean files_start(3-5) files_start(7) [symmetric] ctx base files_volume refl
      files_lookup(2) [folded restart_file_def] name al(1) _ al(2) len files_ordered ch b z refl]
  have l: "filter (\<lambda>i. i \<in> set (dir_files files_mem 0xC00 [0..<16]) \<or> i = 0) [0..<16] = [0, 1, 3]"
    unfolding files_dir by code_simp
  have e3: "e_file_size (dir_entry files_mem 0xC00 3) = 0"
    by (simp add: dir_entry_def files_slots demo_slots_def entry_of_def dir_name_def rd32_def le32_def nth_append)
  have names: "map file_name ?L = [dir_name ''NEW     '', dir_name ''LOG     '', dir_name ''A       '']" "map file_size ?L = [3, 3, 0]"
    unfolding listing_with_def l
    by (simp_all add: dir_file_def files_entries e3 new_entry_def restart_file_def demo_file_def n del: One_nat_def)
  define C C' where "C = files_ctx\<lparr>root_dir_entries := restart_listing\<rparr>" and "C' = files_ctx\<lparr>root_dir_entries := ?L\<rparr>"
  obtain io1 m1 f1 io2 m2 f2 io3 m3 m4 io5 m5 io6 m6 where
    "initialize_fat32 (sd_ops sim_bus) ?J demo_ctx (io_disk files_mem) files_sd (sim_disk files_mem) = Some (0, C, io1, m1)"
    "fat32_creat_file (sd_ops sim_bus) (\<lambda>_. 0) C restart_file io1 m1 = Some (0, f1, io2, m2)"
    "fat32_log (sd_ops sim_bus) (\<lambda>_. 0) (replicate 32 0) C f1 [[1, 2], [3]] io2 m2 = Some (f2, io3, m3)"
    "io_flush_write_buffer (sd_ops sim_bus) io3 m3 = Some (0, io3, m4)"
    "initialize_io (sd_ops sim_bus) io_zero files_sd m4 = Some (0, io5, m5)"
    "initialize_fat32 (sd_ops sim_bus) ?J demo_ctx io5 files_sd m5 = Some (0, C', io6, m6)"
    and data: "disk_bytes (sd_sectors sim_view m6) (cluster_byte files_ctx 3) (length (concat [[1, 2], [3 :: u8]])) = concat [[1, 2], [3]]"
    using r [folded restart_listing_def, folded C_def C'_def] by auto
  moreover have "map file_name (root_dir_entries C') = [dir_name ''NEW     '', dir_name ''LOG     '', dir_name ''A       '']"
    "map file_size (root_dir_entries C') = [3, 3, 0]"
    using names by (simp_all add: C'_def)
  moreover have "disk_bytes (sd_sectors sim_view m6) 0xE00 3 = [1, 2, 3]" using data by (simp add: files_data numeral_3_eq_3)
  ultimately show ?thesis by - (rule exI conjI | assumption)+
qed

end
