(* ===== verification/Diagnostics.thy ===== *)
theory Diagnostics
  imports Fat Fifo Uart
begin

text \<open>
  The functions that print the state of a structure, in src/fat.c and src/fifo.c, and the two timer
  accessors of src/time.c. Output is the list of bytes the serial port sends; \<open>printf\<close> goes through
  \<open>stdio_putchar\<close>, which sends a carriage return before every line feed.
\<close>

section \<open>printf\<close>

definition stdio_out :: "u8 list \<Rightarrow> u8 list" where
  "stdio_out bs = concat (map stdio_bytes bs)"

definition fmt_lX :: "u32 \<Rightarrow> u8 list" where
  "fmt_lX v = hex_nat (unat v)"

section \<open>The file system\<close>

definition fat32_dump_filename :: "FAT32Entry \<Rightarrow> u8 list" where
  "fat32_dump_filename e = uart_write_strn (e_filename e) 8 @ uart_write_str (cstr ''.'') @ uart_write_strn (e_filename_ext e) 3"

definition fat32_dump_address :: "u32 \<Rightarrow> u8 list" where
  "fat32_dump_address dat = cstr ''fat list item: '' @ uart_write_32 dat @ [13, 10]"

definition fat32_dump_entry :: "FAT32Entry \<Rightarrow> u8 list" where
  "fat32_dump_entry e =
    cstr ''file name: '' @ uart_write_strn (e_filename e) 8 @ cstr ''.'' @ uart_write_strn (e_filename_ext e) 3 @
    [13, 10] @ cstr ''file size: 0x'' @ uart_write_32 (e_file_size e) @
    [13, 10] @ cstr ''first cluster address: 0x'' @
    uart_write_32 (fat32_calc_first_cluster (e_first_cluster_addr_high e) (e_first_cluster_addr_low e)) @ [13, 10]"

text \<open>The name and the extension are arrays without a terminating NUL: \<open>%s\<close> goes on into the fields that
  follow them in the packed structure; \<open>ptr\<close> is the memory from the pointer \<open>fat_list\<close> on.\<close>

definition file_mem :: "fat32_file \<Rightarrow> u8 list \<Rightarrow> u8 list" where
  "file_mem f ptr = file_name f @ file_ext f @ bytes32 (file_size f) @ bytes32 (start_byte_offset f) @
    bytes32 (current_byte_offset f) @ bytes32 (root_dir_offset f) @ bytes32 (current_cluster f) @
    bytes32 (first_cluster f) @ bytes32 (current_sector f) @ bytes32 (f_sectors_per_cluster f) @ ptr"

definition fat32_dump_file_meta :: "fat32_file \<Rightarrow> u8 list \<Rightarrow> u8 list" where
  "fat32_dump_file_meta f ptr = stdio_out (
    cstr ''file name: '' @ c_str (file_mem f ptr) @ cstr ''.'' @ c_str (drop 8 (file_mem f ptr)) @ [10] @
    cstr ''file size: 0x'' @ fmt_lX (file_size f) @ [10] @
    cstr ''file start byte: 0x'' @ fmt_lX (start_byte_offset f) @ [10] @
    cstr ''file current cluster: 0x'' @ fmt_lX (current_cluster f) @ [10] @
    cstr ''file sectors per cluster: 0x'' @ fmt_lX (f_sectors_per_cluster f) @ [10] @
    cstr ''file current sector: 0x'' @ fmt_lX (current_sector f) @ [10] @
    cstr ''file root directory offset: 0x'' @ fmt_lX (root_dir_offset f) @ [10])"

section \<open>The FIFO\<close>

definition fifo_status_text :: "fifo_status \<Rightarrow> u8 list" where
  "fifo_status_text st = (case st of FIFO_FULL \<Rightarrow> cstr ''full'' | FIFO_EMPTY \<Rightarrow> cstr ''empty'' | FIFO_READY \<Rightarrow> cstr ''ready'')"

definition fifo_dump_cell :: "fifo_t \<Rightarrow> nat \<Rightarrow> u8 list" where
  "fifo_dump_cell f i =
    cstr ''fifo address: '' @ dec_nat i @ cstr '' data: '' @ dec_nat (unat (f_buf f ! i)) @ [32] @
    (if unat (f_head f) = i then cstr '' <- head'' else []) @
    (if unat (f_tail f) = i then cstr '' <- tail'' else []) @ [10]"

definition fifo_dump_mem :: "fifo_t \<Rightarrow> u8 list" where
  "fifo_dump_mem f = stdio_out (
    cstr ''fifo status: '' @ fifo_status_text (f_status f) @ [10] @ concat (map (fifo_dump_cell f) [0..<unat FIFO_SIZE]))"

section \<open>The timers\<close>

text \<open>Timer 0 counts in 8 bits, timer 1 in 16. For another timer the functions do nothing, and reading it
  returns no value.\<close>

record timer_regs =
  tcnt0 :: u8
  tcnt1 :: u16

definition TIMER0 :: u8 where "TIMER0 = 0"
definition TIMER1 :: u8 where "TIMER1 = 1"

definition get_timer_val :: "u8 \<Rightarrow> timer_regs \<Rightarrow> u16 option" where
  "get_timer_val tmr r = (if tmr = TIMER0 then Some (ucast (tcnt0 r)) else if tmr = TIMER1 then Some (tcnt1 r) else None)"

definition set_time :: "u8 \<Rightarrow> u16 \<Rightarrow> timer_regs \<Rightarrow> timer_regs" where
  "set_time tmr v r = (if tmr = TIMER0 then r\<lparr>tcnt0 := ucast v\<rparr> else if tmr = TIMER1 then r\<lparr>tcnt1 := v\<rparr> else r)"

section \<open>What they show\<close>

lemma set_time_get:
  "get_timer_val tmr (set_time tmr v r) =
    (if tmr = TIMER0 then Some (v AND 0xFF) else if tmr = TIMER1 then Some v else None)"
proof -
  have "(ucast (ucast v :: u8) :: u16) = v AND mask 8"
    by (rule bit_word_eqI) (auto simp: bit_simps)
  then show ?thesis by (simp add: get_timer_val_def set_time_def TIMER0_def TIMER1_def mask_eq_exp_minus_1)
qed

lemma hex_nat_value: "list_all c_isxdigit (hex_nat n) \<and> hex_nat n \<noteq> [] \<and> hex_fold 0 (hex_nat n) = int n"
proof (induction n rule: hex_nat.induct)
  case (1 n)
  have d: "c_isxdigit (hex_char (n mod 16)) \<and> hex_val (hex_char (n mod 16)) = int (n mod 16)"
    using hex_char_props [of "n mod 16"] by simp
  show ?case
  proof (cases "n < 16")
    case True
    then show ?thesis using d by (subst (1 2 3) hex_nat.simps) (simp add: hex_fold_def)
  next
    case False
    have "int n = 16 * int (n div 16) + int (n mod 16)" by (simp add: zdiv_int zmod_int)
    with False d 1 show ?thesis by (subst (1 2 3) hex_nat.simps) (simp add: hex_fold_def)
  qed
qed

text \<open>\<open>%lX\<close> prints a number that reads back as its value.\<close>

lemma fmt_lX_value: "c_strtol16 (fmt_lX v @ [0]) = uint v"
  using c_strtol16_digits [of "hex_nat (unat v)"] hex_nat_value [of "unat v"] by (simp add: fmt_lX_def)

text \<open>A name of eight and an extension of three bytes are printed with the bytes of the size behind them:
  for a file of 65 (0x41) bytes \<open>LOGFILE1TXTA.TXTA\<close>.\<close>

lemma fat32_dump_file_meta_overrun:
  assumes "length (file_name f) = 8" and "0 \<notin> set (file_name f)" and "length (file_ext f) = 3" and "0 \<notin> set (file_ext f)"
    and "file_size f = 0x41"
  shows "c_str (file_mem f ptr) = file_name f @ file_ext f @ [0x41]" and "c_str (drop 8 (file_mem f ptr)) = file_ext f @ [0x41]"
proof -
  have sz: "bytes32 (0x41 :: u32) = [0x41, 0, 0, 0]" by code_simp
  have m: "file_mem f ptr = (file_name f @ file_ext f @ [0x41]) @ 0 # drop 13 (file_mem f ptr)"
    using assms(1,3,5) by (simp add: file_mem_def sz eval_nat_numeral)
  show "c_str (file_mem f ptr) = file_name f @ file_ext f @ [0x41]"
    using assms(2,4) by (subst m, intro c_str_append) auto
  have "drop 8 (file_mem f ptr) = (file_ext f @ [0x41]) @ 0 # drop 13 (file_mem f ptr)"
    using assms(1) by (subst m) simp
  then show "c_str (drop 8 (file_mem f ptr)) = file_ext f @ [0x41]"
    using assms(4) by (simp only:, intro c_str_append) auto
qed

end
