(* ===== verification/Spec2Isabelle.thy ===== *)
theory Spec2Isabelle
  imports Elm_Isr Firmware_Props Fat_Restart Diagnostics
begin

text \<open>
  A model of the vehicle data logger's firmware (src/src, src/src/include) and the theorems that make it
  correct. The firmware runs on an ATmega1284. It starts its peripherals, mounts a FAT32 volume on an SD
  card, asks a vehicle through an ELM327 which OBD-II values it supports, and then shows some of them on an
  I2C display, forever.

  \<^bold>\<open>Build.\<close> The model follows the build of CMakeLists.txt: avr-gcc, \<open>int\<close> of 16 bits,
  \<open>-funsigned-char\<close>, packed little-endian structures, and the board selected in debug.h.
  \<open>BUF_SIZE\<close> is 32 or 64, as the order of the includes has it in each file.

  \<^bold>\<open>Conventions.\<close> A C function is a HOL function of the same name on an explicit state; integers keep their
  width; an \<open>int8_t\<close> status is an \<open>int\<close>; \<open>None\<close> is an execution that does not return, or reads or
  writes memory that is not there (the NUL of \<open>elm_read\<close> behind its buffer, an answer longer than the caller's
  memory in \<open>obd_command\<close>: \<open>elm_command_overrun\<close>, \<open>obd_command_overrun\<close>). A loop without a bound in the code is a \<open>partial_function (option)\<close>, and that it ends is
  part of the theorems about it; a bounded loop is a \<open>fun\<close> over its remaining rounds, with the code's own
  bound (8 trials for a command, 1000 bytes up to a data token, 128 up to a data response). No fuel is used
  anywhere. A buffer is the list of its bytes, with the memory behind it where the code can run over its end. The lists
  that fat.c keeps are HOL lists: a \<open>malloc\<close> for one of their nodes is taken to succeed.

  \<^bold>\<open>Parameters.\<close> What is not in the repository is an argument: the device on the SPI bus (\<open>spi_bus\<close>), the TWI
  hardware (\<open>twi_hw\<close>), the registers of the serial ports (\<open>mmio\<close>), the bytes that the receive interrupt
  stores between two polls, \<open>malloc\<close>, the image of the command table in memory, and the floating-point library.
  Theorems that need such a part to behave name that as a hypothesis: \<open>card_conforms\<close> for the
  SPI mode of a block-addressed card that is ready, \<open>card_boots\<close> for what a card answers from power-up until it is, \<open>twi_conforms\<close> for a slave that acknowledges, \<open>usart_conforms\<close> for a port that becomes ready again, \<open>malloc_ok\<close> for fresh addresses.
  Each is shown to be satisfiable by a simulated part.

  \<^bold>\<open>Theories and sources, from the bottom up.\<close>
  \<^item> \<open>Prelude\<close>: widths, byte order, lemmas on words. \<open>C_String\<close>: strings in buffers and the functions of the
    C library that are called on them (strstr, strtol, the conversions of printf).
  \<^item> \<open>Fifo\<close> (fifo.c): the byte queue between the UART interrupt and the reader. The locale \<open>byte_queue\<close> is its
    contract; each operation refines the one on lists. \<open>Fifo_Isr\<close> (fifo.c, the interrupt of main.c): the
    reader statement by statement with the interrupt in between, an inductive step relation. Indices stay in
    the buffer on every interleaving, and a read returns after six of its own statements whatever comes between
    them (the statements are an instance of \<open>linorder\<close>, the order of the program text); without the interrupt
    inside a read no byte is lost. \<open>Fifo_Linear\<close>: an interrupted read is an uninterrupted one between two runs of
    interrupts, unless an interrupt comes in one of two windows (before the assignment of \<open>FIFO_EMPTY\<close>, or filling
    the queue after the tail was advanced), where the code loses bytes.
  \<^item> \<open>Pins\<close> (pins.c): the three pin tables, configuration and pin operations. \<open>Utils\<close> (utils.c):
    packing of arguments, the bytes of each kind of output. \<open>Usart\<close> (uart.c, astdio.c): the ports as memory-mapped
    registers, polled by the code; on a port that conforms each operation returns, sends exactly those bytes and
    loses none received; the configuration gives the rate asked for; standard output. \<open>Uart\<close> (utils.c): dumps, and
    hexadecimal output that reads back.
  \<^item> \<open>Spi\<close> (spi.c), \<open>Sd\<close> (sd.c): device selection, byte exchange, and the card driver. \<open>Block\<close>: the contract of
    a block device, the locale \<open>block_device\<close>. \<open>Sd_Card\<close>: the card as an abstract state and the proof that
    the driver meets the contract on any conforming card; which errors are reported, how the select line is
    left, and that a busy card hangs the driver. The initialisation ends in success, in failure, or in a busy wait
    that does not end. \<open>Sd_Boot\<close>: it succeeds on a version 2 card that answers as documented from power-up on
    and is ready within nine ACMD41; no block command is expected of it before.
  \<^item> \<open>Io\<close> (io.c): byte addresses over sectors with two caches. Reads return the bytes of the disk; writes refine
    the update of a byte sequence; a flush makes them visible. Bound: 65536 sectors, because the cached
    address has 16 bits.
  \<^item> \<open>Linked_List\<close> (list.c) on an explicit heap: the pushes refine the ones on lists.
  \<^item> \<open>Fat_Data\<close>, \<open>Fat\<close> (fat.h, fat.c): packed structures, mounting, chains, allocation, creation, appending.
    \<open>Fat_Mount\<close>: the root directory as a specification on the medium, and mounting computes it. The list of
    clusters recorded for a file is a chain that begins two clusters after the file's (\<open>shifted_chains\<close>), as the
    code adds 2; \<open>volume_ok\<close> asks that these chains exist and end, and the allocator avoids only them.
    \<open>Fat_Files\<close> and \<open>Fat_Props\<close>: chains are read to their end, allocation is least, a log grows by what is
    appended; and the places where the code falls short (a cyclic chain, a chain opened two clusters late, the
    cluster of the root directory given away, a FAT cell computed from a pointer). \<open>Fat_Restart\<close>: a file that
    was created, appended to and flushed is listed by the next mount, with the other records unchanged.
    \<open>Storage_Safe\<close>: over any device, conforming or not, sector buffers keep their 512 bytes.
  \<^item> \<open>Elm\<close> (elm.c): commands and answers. An answer is read whole however it is spread over the polls, as long
    as the FIFO does not overflow (\<open>rx_fits\<close>: it holds 64 bytes and loses one for each poll that finds one). \<open>Elm_Isr\<close>: the same loop with the
    interrupt also between the statements of \<open>fifo_read_byte\<close>, outside the first window. Under \<open>irq_fits\<close>, \<open>rx_fits\<close>
    counting the bytes of a call as well, every answer is read whole, and a command gives what it gives in \<open>Elm\<close>.
  \<^item> \<open>Obd_Table\<close>, \<open>Obd\<close>, \<open>Obd_Props\<close> (obd.h, obd.c): the enumeration of the PIDs, the command table, the
    decoders, requests. A request stores exactly the bytes of the vehicle's answer; the list of supported PIDs
    is the one the answer encodes.
  \<^item> \<open>I2c\<close> (i2c.c): the master. A call plays the steps of the intended transfer up to the first status that is not
    the step's good one, which is its result; a STOP follows a complete transfer or a NAK and nothing else. On a bus
    whose slave acknowledges the call delivers its bytes.
  \<^item> \<open>Firmware\<close> (main.c): start-up and display loop, on the records \<open>platform\<close> (what surrounds the firmware) and
    \<open>fw\<close> (its globals). \<open>Firmware_Boot\<close>: the parts of the start-up. \<open>Firmware_Display\<close>: one command, the list,
    one pass. \<open>Firmware_Safe\<close>: the types of the globals, kept by every operation that returns, whatever the vehicle,
    the card and the display do; the globals are separate fields, which is right for executions without a store
    outside an array, and the others have no result. \<open>Firmware_Props\<close>: from reset to the display, for any number of passes and any replies
    of the vehicle, data or failures; the start-up with a FAT32 card, from power-up, lists its files, and without a card
    it goes on;
    the type invariant of the whole device.
  \<^item> \<open>Diagnostics\<close> (fat.c, fifo.c, time.c): functions that print a structure, and the timer accessors.

  \<^bold>\<open>How the parts meet.\<close> main.c calls the initialisations in turn and then, for each command of the list that obd.c
  built with list.c, sends a request through elm.c and uart.c, reads the answer out of the queue of fifo.c that
  the interrupt fills, decodes it and writes a line through i2c.c. fat.c reads and writes bytes through io.c,
  which calls the two sector functions of sd.c, which drive the pins and the bus through spi.c and pins.c. The
  type lemmas of io.c and fat.c are proved inside \<open>sized_blocks\<close> and used through \<open>sd_sized\<close>, on any bus. The
  file system's lemmas are proved inside \<open>block_device\<close> and used through its interpretation \<open>sd_blk\<close> on the SD
  driver; the ELM driver uses the interpretation \<open>fifo_q\<close> of \<open>byte_queue\<close>. What a reading loop promises is the locale
  \<open>elm_reader\<close>, interpreted on the loop with the interrupt at the polls (\<open>polled\<close>) and inside the reads (\<open>interrupted\<close>).

  \<^bold>\<open>Not modelled.\<close> Delays and debug messages (\<open>DBG\<close>, \<open>UART_DBG\<close>); the FAT16 structures, which no code uses;
  the functions with an empty body (\<open>fat32_close_file\<close>, \<open>fat32_close_root_dir\<close>, \<open>obd_print_cmd\<close>); lcd.c and
  msg.c, which hold no operation; the stand-alone experiments under src/test and the vendored Arduino code under
  src/resources. The ELM driver's output is the list of bytes it hands to its port (\<open>ew_tx\<close>): \<open>Usart\<close> shows that
  a port sends them. The interrupt is modelled inside the FIFO's read (\<open>Fifo_Isr\<close>), at the polls of the ELM driver (\<open>Elm\<close>)
  and at both together (\<open>Elm_Isr\<close>), not inside the other drivers, which do not share state with it; obd.c and main.c are
  modelled over \<open>Elm\<close>, which \<open>Elm_Isr\<close> shows to give the same results.
\<close>

end
